(* ===== verification/Prelude.thy ===== *)
theory Prelude imports Main "HOL-Library.Word" begin

text \<open>
  What every component of the model shares: the machine integer types of the C code, the
  error codes the library returns, the rounding macro of \<open>util_math.h\<close>, the outcome type that
  makes an undefined operation of C visible, the script of allocation outcomes that stands for
  \<open>calloc\<close> and \<open>realloc\<close>, and the word, interval and list lemmas the component proofs use.
\<close>

unbundle bit_operations_syntax

section \<open>Machine integers\<close>

type_synonym u8 = "8 word"
type_synonym u16 = "16 word"
type_synonym u32 = "32 word"
type_synonym u64 = "64 word"

named_theorems nat_word "rules that read word arithmetic as arithmetic on natural numbers"

declare word_less_nat_alt [nat_word]
declare word_le_nat_alt [nat_word]
declare unat_sub_if' [nat_word]
declare unat_plus_if' [nat_word]
declare unat_mod [nat_word]

lemma unat_eq_iff [nat_word]: "x = y \<longleftrightarrow> unat x = unat y"
  by (rule word_eq_iff_unsigned)

lemma unat_add_less:
  assumes "unat (a :: 'a::len word) + unat b < 2 ^ LENGTH('a)"
  shows "unat (a + b) = unat a + unat b"
  using assms by (simp add: unat_plus_if')

section \<open>Error codes\<close>

text \<open>
  The functions of the library return 0 or a code of \<open>errno.h\<close>. \<open>Ext r\<close> is a non-zero code
  \<open>r\<close> that came from outside the library (an accelerant call) and is passed on unchanged.
\<close>

datatype errno = EINVAL | ENOMEM | ENOSYS | EPERM | EBADF | ENXIO | EAGAIN | ENOENT | Ext int

datatype rc = OK | Err errno

definition ext_rc :: "int \<Rightarrow> rc" where
  "ext_rc r = (if r = 0 then OK else Err (Ext r))"

lemma ext_rc_OK [simp]: "ext_rc r = OK \<longleftrightarrow> r = 0"
  by (simp add: ext_rc_def)

lemma ext_rc_zero [simp]: "ext_rc 0 = OK"
  by (simp add: ext_rc_def)

section \<open>Undefined operations\<close>

text \<open>
  A read or write outside an object, a division by zero, a use of freed memory or a failed
  \<open>assert\<close> ends a run of the model with \<open>Fault\<close>; every other run gives \<open>Ret\<close>.
\<close>

datatype 'a outcome = Fault | Ret 'a

definition bind_outcome :: "'a outcome \<Rightarrow> ('a \<Rightarrow> 'b outcome) \<Rightarrow> 'b outcome" where
  "bind_outcome x f = (case x of Fault \<Rightarrow> Fault | Ret a \<Rightarrow> f a)"

lemma bind_outcome_simps [simp]:
  "bind_outcome Fault f = Fault"
  "bind_outcome (Ret a) f = f a"
  by (simp_all add: bind_outcome_def)

lemma bind_outcome_Ret_iff:
  "bind_outcome x f = Ret b \<longleftrightarrow> (\<exists>a. x = Ret a \<and> f a = Ret b)"
  by (cases x) auto

lemma bind_outcome_RetE:
  assumes "bind_outcome x f = Ret b"
  obtains a where "x = Ret a" and "f a = Ret b"
  using assms by (auto simp: bind_outcome_Ret_iff)

text \<open>A loop over a list whose body may fault.\<close>

fun fold_outcome :: "('a \<Rightarrow> 's \<Rightarrow> 's outcome) \<Rightarrow> 'a list \<Rightarrow> 's \<Rightarrow> 's outcome" where
  "fold_outcome f [] s = Ret s"
| "fold_outcome f (x # xs) s = bind_outcome (f x s) (fold_outcome f xs)"

lemma fold_outcome_append:
  "fold_outcome f (xs @ ys) s = bind_outcome (fold_outcome f xs s) (fold_outcome f ys)"
proof (induction xs arbitrary: s)
  case (Cons x xs)
  then show ?case by (cases "f x s") simp_all
qed simp

section \<open>Memory allocation\<close>

text \<open>
  The outcomes of the next calls of \<open>calloc\<close> or \<open>realloc\<close>, in order; once the script is used up
  every call succeeds. A theorem for every script covers every pattern of allocation failures.
\<close>

type_synonym alloc_script = "bool list"

fun calloc_next :: "alloc_script \<Rightarrow> bool \<times> alloc_script" where
  "calloc_next [] = (True, [])"
| "calloc_next (b # bs) = (b, bs)"

definition no_alloc_failure :: "alloc_script \<Rightarrow> bool" where
  "no_alloc_failure sc \<longleftrightarrow> False \<notin> set sc"

lemma calloc_next_no_failure:
  assumes "no_alloc_failure sc"
  obtains sc' where "calloc_next sc = (True, sc')" and "no_alloc_failure sc'"
  using assms by (cases sc) (auto simp: no_alloc_failure_def)

lemma calloc_next_script:
  "calloc_next sc = (b, sc') \<Longrightarrow> no_alloc_failure sc \<Longrightarrow> b \<and> no_alloc_failure sc'"
  by (cases sc) (auto simp: no_alloc_failure_def)

lemma no_alloc_failure_Nil [simp]: "no_alloc_failure []"
  by (simp add: no_alloc_failure_def)

section \<open>Rounding up: util_math.h\<close>

definition align_mask :: "'a::len word \<Rightarrow> 'a word \<Rightarrow> 'a word" where
  "align_mask v m = (v + m) AND NOT m"

text \<open>
  \<open>ALIGN(value, alignment)\<close> on a \<open>uint64_t\<close> value and a \<open>uint32_t\<close> alignment: the mask
  \<open>alignment - 1\<close> is computed at 32 bits and then widened to the type of the value.
\<close>

definition ALIGN64 :: "u64 \<Rightarrow> u32 \<Rightarrow> u64" where
  "ALIGN64 v a = align_mask v (ucast (a - 1))"

definition ALIGN32 :: "u32 \<Rightarrow> u32 \<Rightarrow> u32" where
  "ALIGN32 v a = align_mask v (a - 1)"

definition MAX2 :: "u64 \<Rightarrow> u64 \<Rightarrow> u64" where
  "MAX2 a b = (if a > b then a else b)"

definition MIN2 :: "u64 \<Rightarrow> u64 \<Rightarrow> u64" where
  "MIN2 a b = (if a < b then a else b)"

lemma unat_MAX2: "unat (MAX2 a b) = max (unat a) (unat b)"
  by (simp add: MAX2_def word_less_nat_alt)

lemma unat_MIN2: "unat (MIN2 a b) = min (unat a) (unat b)"
  by (simp add: MIN2_def word_less_nat_alt)

text \<open>An alignment is a power of two; on \<open>nat\<close> the macro is the next multiple.\<close>

definition pow2 :: "'a::len word \<Rightarrow> bool" where
  "pow2 a \<longleftrightarrow> (\<exists>n < LENGTH('a). unat a = 2 ^ n)"

definition align_nat :: "nat \<Rightarrow> nat \<Rightarrow> nat" where
  "align_nat v a = ((v + (a - 1)) div a) * a"

lemma align_nat_ge:
  assumes "0 < a"
  shows "v \<le> align_nat v a"
proof -
  have "(v + (a - 1)) mod a \<le> a - 1"
    using assms by (metis Suc_pred' less_Suc_eq_le mod_less_divisor)
  moreover have "align_nat v a + (v + (a - 1)) mod a = v + (a - 1)"
    by (simp add: align_nat_def)
  ultimately show ?thesis by linarith
qed

lemma align_nat_less:
  assumes "0 < a"
  shows "align_nat v a < v + a"
proof -
  have "align_nat v a \<le> v + (a - 1)"
    unfolding align_nat_def by (rule div_times_less_eq_dividend)
  with assms show ?thesis by linarith
qed

lemma align_nat_dvd [simp]: "a dvd align_nat v a"
  by (simp add: align_nat_def)

lemma align_nat_idem:
  assumes "a dvd v" and "0 < a"
  shows "align_nat v a = v"
proof -
  from assms obtain k where k: "v = a * k" by blast
  have "(a * k + (a - 1)) div a = k"
    using assms(2) by (intro div_nat_eqI) (simp_all add: algebra_simps)
  then show ?thesis by (simp add: align_nat_def k)
qed

lemma align_nat_least:
  assumes "a dvd w" and "v \<le> w" and "0 < a"
  shows "align_nat v a \<le> w"
proof -
  from assms(2) have "(v + (a - 1)) div a \<le> (w + (a - 1)) div a"
    by (intro div_le_mono) simp
  then have "align_nat v a \<le> align_nat w a"
    unfolding align_nat_def by (rule mult_le_mono1)
  with align_nat_idem [OF assms(1,3)] show ?thesis by simp
qed

lemma and_not_mask_unat:
  "unat ((x :: 'a::len word) AND NOT (mask n)) = (unat x div 2 ^ n) * 2 ^ n"
proof -
  have "x - (x AND mask n) = x AND NOT (x AND mask n)"
    by (rule disjunctive_diff_eq_and_not) (simp add: bit_eq_iff bit_simps)
  moreover have "x AND NOT (x AND mask n) = x AND NOT (mask n)"
    by (rule bit_eqI) (auto simp: bit_simps)
  ultimately have "x AND NOT (mask n) = x - take_bit n x"
    by (simp add: take_bit_eq_mask)
  moreover have "take_bit n x \<le> x"
    by (simp only: word_le_nat_alt unsigned_take_bit_eq) (simp add: take_bit_nat_less_eq_self)
  ultimately have "unat (x AND NOT (mask n)) = unat x - unat (take_bit n x)"
    by (simp add: unat_sub)
  also have "\<dots> = unat x - unat x mod 2 ^ n"
    by (subst unsigned_take_bit_eq) (simp add: take_bit_eq_mod)
  also have "\<dots> = (unat x div 2 ^ n) * 2 ^ n"
    by (simp add: minus_mod_eq_div_mult)
  finally show ?thesis .
qed

lemma pow2_pos: "pow2 a \<Longrightarrow> 0 < unat a"
  by (auto simp: pow2_def)

lemma align_mask_unat:
  fixes v a :: "'a::len word"
  assumes "pow2 a"
  shows "unat (align_mask v (a - 1)) = (unat (v + (a - 1)) div unat a) * unat a"
proof -
  from assms obtain n where n: "n < LENGTH('a)" "unat a = 2 ^ n"
    by (auto simp: pow2_def)
  then have "a = of_nat (2 ^ n)"
    by (metis of_nat_unat ucast_id)
  then have "a = 2 ^ n" by simp
  then have "a - 1 = mask n"
    by (simp add: mask_eq_exp_minus_1)
  then show ?thesis
    by (simp add: align_mask_def and_not_mask_unat n(2))
qed

lemma unat_minus_one:
  assumes "0 < unat (a :: 'a::len word)"
  shows "unat (a - 1) = unat a - 1"
  using assms by (simp add: unat_sub_if' Suc_le_eq)

lemma unat_ucast64 [simp]: "unat (ucast (a :: u32) :: u64) = unat a"
proof -
  have "unat a < 2 ^ 32"
    using unsigned_less [of a, where ?'a = nat] by simp
  then have "unat a < 2 ^ 64" by simp
  then show ?thesis
    by (simp add: unsigned_ucast_eq take_bit_nat_eq_self)
qed

lemma pow2_ucast:
  assumes "pow2 (a :: u32)"
  shows "pow2 (ucast a :: u64)" and "ucast (a - 1) = (ucast a :: u64) - 1"
proof -
  from assms show "pow2 (ucast a :: u64)"
    by (auto simp: pow2_def)
  from pow2_pos [OF assms] show "ucast (a - 1) = (ucast a :: u64) - 1"
    by (simp add: unat_eq_iff unat_minus_one)
qed

lemma unat_ALIGN64:
  assumes "pow2 a" and "unat v + unat a \<le> 2 ^ 64"
  shows "unat (ALIGN64 v a) = align_nat (unat v) (unat a)"
proof -
  let ?a = "ucast a :: u64"
  have pos: "0 < unat a" using assms(1) by (rule pow2_pos)
  have "unat (v + (?a - 1)) = unat v + (unat a - 1)"
    using assms(2) pos by (subst unat_add_less) (simp_all add: unat_minus_one)
  then show ?thesis
    using align_mask_unat [OF pow2_ucast(1) [OF assms(1)], of v]
    by (simp add: ALIGN64_def pow2_ucast(2) [OF assms(1)] align_nat_def)
qed

lemma unat_ALIGN32:
  assumes "pow2 a" and "unat v + unat a \<le> 2 ^ 32"
  shows "unat (ALIGN32 v a) = align_nat (unat v) (unat a)"
proof -
  have pos: "0 < unat a" using assms(1) by (rule pow2_pos)
  have "unat (v + (a - 1)) = unat v + (unat a - 1)"
    using assms(2) pos by (subst unat_add_less) (simp_all add: unat_minus_one)
  then show ?thesis
    using align_mask_unat [OF assms(1), of v] by (simp add: ALIGN32_def align_nat_def)
qed

end
