(* ===== verification/DoubleList.thy ===== *)
theory DoubleList imports Prelude begin

text \<open>
  The intrusive circular lists of \<open>amdgpu/util_double_list.h\<close>: a heap of list heads with their
  \<open>prev\<close> and \<open>next\<close> pointers, the operations statement by statement, and their refinement of the
  operations on the list of elements in \<open>next\<close> order. A pointer to no allocated list head faults
  when it is read or written through.
\<close>

section \<open>The heap of list heads\<close>

text \<open>
  An address is a natural number where nothing else is said. The address of a list head inside an
  object may be given by the object and the field, so the operations work for any type of addresses.
\<close>

type_synonym ptr = nat

record 'p list_head =
  prev :: 'p
  "next" :: 'p

type_synonym 'p lheap = "'p \<rightharpoonup> 'p list_head"

definition get_prev :: "'p lheap \<Rightarrow> 'p \<Rightarrow> 'p outcome" where
  "get_prev h p = (case h p of None \<Rightarrow> Fault | Some n \<Rightarrow> Ret (prev n))"

definition get_next :: "'p lheap \<Rightarrow> 'p \<Rightarrow> 'p outcome" where
  "get_next h p = (case h p of None \<Rightarrow> Fault | Some n \<Rightarrow> Ret (next n))"

definition set_prev :: "'p lheap \<Rightarrow> 'p \<Rightarrow> 'p \<Rightarrow> 'p lheap outcome" where
  "set_prev h p v = (case h p of None \<Rightarrow> Fault | Some n \<Rightarrow> Ret (h(p \<mapsto> n\<lparr>prev := v\<rparr>)))"

definition set_next :: "'p lheap \<Rightarrow> 'p \<Rightarrow> 'p \<Rightarrow> 'p lheap outcome" where
  "set_next h p v = (case h p of None \<Rightarrow> Fault | Some n \<Rightarrow> Ret (h(p \<mapsto> n\<lparr>next := v\<rparr>)))"

section \<open>Operations\<close>

definition list_inithead :: "'p lheap \<Rightarrow> 'p \<Rightarrow> 'p lheap outcome" where
  "list_inithead h item =
     bind_outcome (set_prev h item item) (\<lambda>h. set_next h item item)"

text \<open>\<open>item->prev = list; item->next = list->next; list->next->prev = item; list->next = item\<close>\<close>

definition list_add :: "'p lheap \<Rightarrow> 'p \<Rightarrow> 'p \<Rightarrow> 'p lheap outcome" where
  "list_add h item list =
     bind_outcome (set_prev h item list) (\<lambda>h.
     bind_outcome (get_next h list) (\<lambda>n.
     bind_outcome (set_next h item n) (\<lambda>h.
     bind_outcome (get_next h list) (\<lambda>n.
     bind_outcome (set_prev h n item) (\<lambda>h.
     set_next h list item)))))"

definition list_addtail :: "'p lheap \<Rightarrow> 'p \<Rightarrow> 'p \<Rightarrow> 'p lheap outcome" where
  "list_addtail h item list =
     bind_outcome (set_next h item list) (\<lambda>h.
     bind_outcome (get_prev h list) (\<lambda>p.
     bind_outcome (set_prev h item p) (\<lambda>h.
     bind_outcome (get_prev h list) (\<lambda>p.
     bind_outcome (set_next h p item) (\<lambda>h.
     set_prev h list item)))))"

definition list_replace :: "'p lheap \<Rightarrow> 'p \<Rightarrow> 'p \<Rightarrow> 'p lheap outcome" where
  "list_replace h from to =
     bind_outcome (get_prev h from) (\<lambda>p.
     bind_outcome (set_prev h to p) (\<lambda>h.
     bind_outcome (get_next h from) (\<lambda>n.
     bind_outcome (set_next h to n) (\<lambda>h.
     bind_outcome (get_next h from) (\<lambda>n.
     bind_outcome (set_prev h n to) (\<lambda>h.
     bind_outcome (get_prev h from) (\<lambda>p.
     set_next h p to)))))))"

definition list_del :: "'p lheap \<Rightarrow> 'p \<Rightarrow> 'p lheap outcome" where
  "list_del h item =
     bind_outcome (get_next h item) (\<lambda>n.
     bind_outcome (get_prev h item) (\<lambda>p.
     bind_outcome (set_next h p n) (\<lambda>h.
     bind_outcome (get_next h item) (\<lambda>n.
     bind_outcome (get_prev h item) (\<lambda>p.
     set_prev h n p)))))"

definition list_delinit :: "'p lheap \<Rightarrow> 'p \<Rightarrow> 'p lheap outcome" where
  "list_delinit h item =
     bind_outcome (list_del h item) (\<lambda>h.
     bind_outcome (set_next h item item) (\<lambda>h. set_prev h item item))"

definition LIST_IS_EMPTY :: "'p lheap \<Rightarrow> 'p \<Rightarrow> bool outcome" where
  "LIST_IS_EMPTY h list = bind_outcome (get_next h list) (\<lambda>n. Ret (n = list))"

text \<open>
  The traversals \<open>LIST_FOR_EACH_ENTRY\<close> and \<open>LIST_FOR_EACH_ENTRY_SAFE_REV\<close> over a heap the body
  does not change: the entries visited, \<open>None\<close> when the loop never reaches the head again.
\<close>

definition entry_cons :: "'p \<Rightarrow> 'p list outcome \<Rightarrow> 'p list outcome" where
  "entry_cons pos r = bind_outcome r (\<lambda>ps. Ret (pos # ps))"

partial_function (option) entries_from :: "'p lheap \<Rightarrow> 'p \<Rightarrow> 'p \<Rightarrow> 'p list outcome option" where
  "entries_from h head pos =
     (if pos = head then Some (Ret [])
      else case h pos of
        None \<Rightarrow> Some Fault
      | Some n \<Rightarrow> Option.bind (entries_from h head (next n)) (\<lambda>r. Some (entry_cons pos r)))"

partial_function (option) entries_from_rev :: "'p lheap \<Rightarrow> 'p \<Rightarrow> 'p \<Rightarrow> 'p list outcome option" where
  "entries_from_rev h head pos =
     (if pos = head then Some (Ret [])
      else case h pos of
        None \<Rightarrow> Some Fault
      | Some n \<Rightarrow> Option.bind (entries_from_rev h head (prev n)) (\<lambda>r. Some (entry_cons pos r)))"

definition LIST_FOR_EACH_ENTRY :: "'p lheap \<Rightarrow> 'p \<Rightarrow> 'p list outcome option" where
  "LIST_FOR_EACH_ENTRY h head =
     (case h head of None \<Rightarrow> Some Fault | Some n \<Rightarrow> entries_from h head (next n))"

definition LIST_FOR_EACH_ENTRY_REV :: "'p lheap \<Rightarrow> 'p \<Rightarrow> 'p list outcome option" where
  "LIST_FOR_EACH_ENTRY_REV h head =
     (case h head of None \<Rightarrow> Some Fault | Some n \<Rightarrow> entries_from_rev h head (prev n))"

section \<open>The list a head stands for\<close>

definition nx :: "'p lheap \<Rightarrow> 'p \<rightharpoonup> 'p" where
  "nx h p = map_option next (h p)"

definition pv :: "'p lheap \<Rightarrow> 'p \<rightharpoonup> 'p" where
  "pv h p = map_option prev (h p)"

fun seg :: "'p lheap \<Rightarrow> 'p \<Rightarrow> 'p list \<Rightarrow> 'p \<Rightarrow> bool" where
  "seg h p [] q \<longleftrightarrow> nx h p = Some q \<and> pv h q = Some p"
| "seg h p (x # xs) q \<longleftrightarrow> nx h p = Some x \<and> pv h x = Some p \<and> seg h x xs q"

definition dlist :: "'p lheap \<Rightarrow> 'p \<Rightarrow> 'p list \<Rightarrow> bool" where
  "dlist h head xs \<longleftrightarrow> distinct (head # xs) \<and> seg h head xs head"

lemma seg_append [simp]: "seg h p (xs @ y # ys) q \<longleftrightarrow> seg h p xs y \<and> seg h y ys q"
  by (induction xs arbitrary: p) auto

lemma seg_frame:
  "\<forall>x\<in>set (p # xs). nx h' x = nx h x \<Longrightarrow> \<forall>x\<in>insert q (set xs). pv h' x = pv h x \<Longrightarrow>
     seg h' p xs q \<longleftrightarrow> seg h p xs q"
  by (induction xs arbitrary: p) auto

lemma nx_alloc: "nx h p = Some q \<Longrightarrow> h p \<noteq> None"
  by (auto simp: nx_def)

lemma pv_alloc: "pv h p = Some q \<Longrightarrow> h p \<noteq> None"
  by (auto simp: pv_def)

lemma get_next_nx: "get_next h p = (case nx h p of None \<Rightarrow> Fault | Some q \<Rightarrow> Ret q)"
  by (simp add: get_next_def nx_def split: option.splits)

lemma get_prev_pv: "get_prev h p = (case pv h p of None \<Rightarrow> Fault | Some q \<Rightarrow> Ret q)"
  by (simp add: get_prev_def pv_def split: option.splits)

definition put_next :: "'p lheap \<Rightarrow> 'p \<Rightarrow> 'p \<Rightarrow> 'p lheap" where
  "put_next h p v = h(p \<mapsto> (the (h p))\<lparr>next := v\<rparr>)"

definition put_prev :: "'p lheap \<Rightarrow> 'p \<Rightarrow> 'p \<Rightarrow> 'p lheap" where
  "put_prev h p v = h(p \<mapsto> (the (h p))\<lparr>prev := v\<rparr>)"

lemma set_next_put: "set_next h p v = (if p \<in> dom h then Ret (put_next h p v) else Fault)"
  by (auto simp: set_next_def put_next_def split: option.splits)

lemma set_prev_put: "set_prev h p v = (if p \<in> dom h then Ret (put_prev h p v) else Fault)"
  by (auto simp: set_prev_def put_prev_def split: option.splits)

lemma nx_put [simp]:
  "nx (put_next h p v) = (nx h)(p \<mapsto> v)" "p \<in> dom h \<Longrightarrow> nx (put_prev h p v) = nx h"
  by (auto simp: put_next_def put_prev_def nx_def fun_eq_iff)

lemma pv_put [simp]:
  "pv (put_prev h p v) = (pv h)(p \<mapsto> v)" "p \<in> dom h \<Longrightarrow> pv (put_next h p v) = pv h"
  by (auto simp: put_next_def put_prev_def pv_def fun_eq_iff)

lemma dom_put [simp]:
  "dom (put_next h p v) = insert p (dom h)" "dom (put_prev h p v) = insert p (dom h)"
  by (auto simp: put_next_def put_prev_def)

lemma nx_dom: "nx h p = Some q \<Longrightarrow> p \<in> dom h"
  by (auto simp: nx_def)

lemma pv_dom: "pv h p = Some q \<Longrightarrow> p \<in> dom h"
  by (auto simp: pv_def)

lemmas dl_exec = set_next_put set_prev_put get_next_nx get_prev_pv

lemma seg_ends: "seg h p xs q \<Longrightarrow> \<exists>a b. nx h p = Some a \<and> pv h q = Some b"
  by (induction xs arbitrary: p) auto

section \<open>What the operations do to the pointers\<close>

lemma list_inithead_effect:
  assumes "item \<in> dom h"
  obtains h' where "list_inithead h item = Ret h'" "nx h' = (nx h)(item \<mapsto> item)"
    "pv h' = (pv h)(item \<mapsto> item)" "dom h' = dom h"
  using assms by (intro that [of "put_next (put_prev h item item) item item"])
    (simp_all add: list_inithead_def dl_exec insert_absorb)

lemma list_add_effect:
  assumes "item \<in> dom h" "nx h list = Some n" "n \<in> dom h" "item \<noteq> list"
  obtains h' where "list_add h item list = Ret h'" "nx h' = (nx h)(item \<mapsto> n, list \<mapsto> item)"
    "pv h' = (pv h)(item \<mapsto> list, n \<mapsto> item)" "dom h' = dom h"
  using assms nx_dom [OF assms(2)]
  by (intro that [of "put_next (put_prev (put_next (put_prev h item list) item n) n item) list item"])
     (simp_all add: list_add_def dl_exec insert_absorb)

lemma list_addtail_effect:
  assumes "item \<in> dom h" "pv h list = Some p" "p \<in> dom h" "item \<noteq> list"
  obtains h' where "list_addtail h item list = Ret h'" "nx h' = (nx h)(item \<mapsto> list, p \<mapsto> item)"
    "pv h' = (pv h)(item \<mapsto> p, list \<mapsto> item)" "dom h' = dom h"
  using assms pv_dom [OF assms(2)]
  by (intro that [of "put_prev (put_next (put_prev (put_next h item list) item p) p item) list item"])
     (simp_all add: list_addtail_def dl_exec insert_absorb)

lemma list_replace_effect:
  assumes "to \<in> dom h" "from \<noteq> to" "pv h from = Some p" "p \<in> dom h" "nx h from = Some n" "n \<in> dom h"
    "n \<noteq> from"
  obtains h' where "list_replace h from to = Ret h'" "nx h' = (nx h)(to \<mapsto> n, p \<mapsto> to)"
    "pv h' = (pv h)(to \<mapsto> p, n \<mapsto> to)" "dom h' = dom h"
  using assms nx_dom [OF assms(5)]
  by (intro that [of "put_next (put_prev (put_next (put_prev h to p) to n) n to) p to"])
     (simp_all add: list_replace_def dl_exec insert_absorb)

lemma list_del_effect:
  assumes "pv h item = Some p" "p \<in> dom h" "nx h item = Some n" "n \<in> dom h" "p \<noteq> item"
  obtains h' where "list_del h item = Ret h'" "nx h' = (nx h)(p \<mapsto> n)"
    "pv h' = (pv h)(n \<mapsto> p)" "dom h' = dom h"
  using assms nx_dom [OF assms(3)]
  by (intro that [of "put_prev (put_next h p n) n p"])
     (simp_all add: list_del_def dl_exec insert_absorb)

section \<open>Refinement of lists\<close>

lemma dlist_nodes: "dlist h head xs \<Longrightarrow> x \<in> set (head # xs) \<Longrightarrow> x \<in> dom h"
proof -
  have "seg h p xs q \<Longrightarrow> x \<in> set (p # xs) \<Longrightarrow> x \<in> dom h" for p q
    by (induction xs arbitrary: p) (auto dest: nx_dom)
  then show "dlist h head xs \<Longrightarrow> x \<in> set (head # xs) \<Longrightarrow> x \<in> dom h"
    by (auto simp: dlist_def)
qed

lemma dlist_inithead:
  assumes "item \<in> dom h"
  obtains h' where "list_inithead h item = Ret h'" "dlist h' item []" "dom h' = dom h"
  using list_inithead_effect [OF assms] by (metis dlist_def distinct_singleton fun_upd_same seg.simps(1))

text \<open>The position behind which an element is added: the head or the last of \<open>us\<close>.\<close>

lemma dlist_split_at:
  assumes "dlist h head (us @ vs)"
  obtains n where "nx h (last (head # us)) = Some n" "n = hd (vs @ [head])" "pv h n = Some (last (head # us))"
proof -
  have "seg h p (us @ vs) q \<Longrightarrow>
      nx h (last (p # us)) = Some (hd (vs @ [q])) \<and> pv h (hd (vs @ [q])) = Some (last (p # us))" for p q
    by (induction us arbitrary: p) (cases vs; auto)+
  with assms show thesis by (intro that) (auto simp: dlist_def)
qed

lemma seg_insert:
  "seg h p (us @ vs) q \<Longrightarrow> distinct (p # us @ vs) \<Longrightarrow> q \<notin> set (us @ vs) \<Longrightarrow>
     item \<notin> insert q (set (p # us @ vs)) \<Longrightarrow>
     nx h' = (nx h)(item \<mapsto> hd (vs @ [q]), last (p # us) \<mapsto> item) \<Longrightarrow>
     pv h' = (pv h)(item \<mapsto> last (p # us), hd (vs @ [q]) \<mapsto> item) \<Longrightarrow>
     seg h' p (us @ item # vs) q"
proof (induction us arbitrary: p)
  case Nil
  then show ?case
  proof (cases vs)
    case (Cons v vs')
    have "seg h' v vs' q \<longleftrightarrow> seg h v vs' q"
      using Nil.prems Cons by (intro seg_frame) auto
    with Nil.prems Cons show ?thesis by auto
  qed auto
next
  case (Cons u us)
  have "last (u # us) \<in> set (u # us)" "hd (vs @ [q]) \<in> insert q (set vs)"
    by (simp_all add: hd_append)
  then have "last (u # us) \<noteq> p" "hd (vs @ [q]) \<noteq> u"
    using Cons.prems(2,3) by auto
  with Cons show ?case by (auto simp: fun_upd_twist)
qed

text \<open>A list in a part of the heap that does not change stays what it is.\<close>

lemma dlist_frame:
  "dlist h head xs \<Longrightarrow> \<forall>x\<in>set (head # xs). nx h' x = nx h x \<and> pv h' x = pv h x \<Longrightarrow> dlist h' head xs"
  using seg_frame [of head xs h' h head] by (auto simp: dlist_def)

text \<open>
  \<open>list_add\<close> behind the head or behind an element; every other list keeps its pointers.
\<close>

lemma dlist_add:
  assumes l: "dlist h head (us @ vs)" and item: "item \<in> dom h" "item \<notin> set (head # us @ vs)"
  obtains h' where "list_add h item (last (head # us)) = Ret h'" "dlist h' head (us @ item # vs)"
    "dom h' = dom h" "\<forall>x. x \<notin> set (item # head # us @ vs) \<longrightarrow> nx h' x = nx h x \<and> pv h' x = pv h x"
proof -
  obtain n where n: "nx h (last (head # us)) = Some n" "n = hd (vs @ [head])"
    using dlist_split_at [OF l] by blast
  have ends: "last (head # us) \<in> set (head # us)" "n \<in> set (head # vs)"
    using n(2) by (simp_all add: hd_append)
  then have "n \<in> dom h" "item \<noteq> last (head # us)"
    using dlist_nodes [OF l, of n] item(2) by auto
  then obtain h' where h': "list_add h item (last (head # us)) = Ret h'"
    "nx h' = (nx h)(item \<mapsto> n, last (head # us) \<mapsto> item)"
    "pv h' = (pv h)(item \<mapsto> last (head # us), n \<mapsto> item)" "dom h' = dom h"
    using list_add_effect [OF item(1) n(1)] by blast
  have "seg h' head (us @ item # vs) head"
    using l item(2) h'(2,3) n(2) by (intro seg_insert [of h]) (auto simp: dlist_def)
  then have "dlist h' head (us @ item # vs)"
    using l item(2) by (auto simp: dlist_def)
  moreover have "\<forall>x. x \<notin> set (item # head # us @ vs) \<longrightarrow> nx h' x = nx h x \<and> pv h' x = pv h x"
    using ends h'(2,3) by auto
  ultimately show thesis using h'(1,4) that by blast
qed

lemma dlist_last_prev:
  assumes "dlist h head xs"
  shows "pv h head = Some (last (head # xs))" and "nx h (last (head # xs)) = Some head"
  using dlist_split_at [of h head xs "[]"] assms by (simp_all) force+

lemma list_addtail_is_add:
  assumes l: "dlist h head xs" and item: "item \<in> dom h" "item \<notin> set (head # xs)"
  obtains h' where "list_addtail h item head = Ret h'" "dlist h' head (xs @ [item])" "dom h' = dom h"
    "\<forall>x. x \<notin> set (item # head # xs) \<longrightarrow> nx h' x = nx h x \<and> pv h' x = pv h x"
proof -
  let ?p = "last (head # xs)"
  have p: "?p \<in> set (head # xs)" by simp
  then have "?p \<in> dom h" "item \<noteq> head" using dlist_nodes [OF l] item(2) by auto
  then obtain h' where h': "list_addtail h item head = Ret h'"
    "nx h' = (nx h)(item \<mapsto> head, ?p \<mapsto> item)" "pv h' = (pv h)(item \<mapsto> ?p, head \<mapsto> item)" "dom h' = dom h"
    using list_addtail_effect [OF item(1) dlist_last_prev(1) [OF l]] by blast
  have "seg h' head (xs @ item # []) head"
    using l item(2) h'(2,3) by (intro seg_insert [of h]) (auto simp: dlist_def)
  then have "dlist h' head (xs @ [item])" using l item(2) by (auto simp: dlist_def)
  moreover have "\<forall>x. x \<notin> set (item # head # xs) \<longrightarrow> nx h' x = nx h x \<and> pv h' x = pv h x"
    using p h'(2,3) by auto
  ultimately show thesis using h'(1,4) that by blast
qed

text \<open>Joining the two segments around a removed element.\<close>

lemma seg_join:
  "seg h p us x \<Longrightarrow> seg h x vs q \<Longrightarrow> distinct (p # us @ x # vs) \<Longrightarrow> q \<notin> set (us @ x # vs) \<Longrightarrow>
     nx h' = (nx h)(last (p # us) \<mapsto> hd (vs @ [q])) \<Longrightarrow>
     pv h' = (pv h)(hd (vs @ [q]) \<mapsto> last (p # us)) \<Longrightarrow>
     seg h' p (us @ vs) q"
proof (induction us arbitrary: p)
  case Nil
  then show ?case
  proof (cases vs)
    case (Cons v vs')
    have "seg h' v vs' q \<longleftrightarrow> seg h v vs' q"
      using Nil.prems Cons by (intro seg_frame) auto
    with Nil.prems Cons show ?thesis by auto
  qed auto
next
  case (Cons u us)
  have "last (u # us) \<in> set (u # us)" "hd (vs @ [q]) \<in> insert q (set vs)"
    by (simp_all add: hd_append)
  then have "last (u # us) \<noteq> p" "hd (vs @ [q]) \<noteq> u"
    using Cons.prems(3,4) by auto
  with Cons show ?case by auto
qed

lemma dlist_del:
  assumes l: "dlist h head (us @ x # vs)"
  obtains h' where "list_del h x = Ret h'" "dlist h' head (us @ vs)" "dom h' = dom h"
    "\<forall>y. y \<notin> set (head # us @ vs) \<longrightarrow> nx h' y = nx h y \<and> pv h' y = pv h y"
proof -
  let ?p = "last (head # us)" and ?n = "hd (vs @ [head])"
  obtain m where "nx h ?p = Some m" "m = hd ((x # vs) @ [head])" "pv h m = Some ?p"
    using dlist_split_at [OF l] .
  then have p: "pv h x = Some ?p" by simp
  obtain m' where "nx h (last (head # us @ [x])) = Some m'" "m' = hd (vs @ [head])"
    using dlist_split_at [of h head "us @ [x]" vs] l by auto
  then have n: "nx h x = Some ?n" by simp
  have ends: "?p \<in> set (head # us)" "?n \<in> set (head # vs)"
    by (simp_all add: hd_append)
  then have "?p \<in> dom h" "?n \<in> dom h" "?p \<noteq> x"
    using dlist_nodes [OF l] l by (auto simp: dlist_def)
  then obtain h' where h': "list_del h x = Ret h'" "nx h' = (nx h)(?p \<mapsto> ?n)" "pv h' = (pv h)(?n \<mapsto> ?p)"
    "dom h' = dom h"
    using list_del_effect [OF p _ n] by blast
  have "seg h' head (us @ vs) head"
    using l h'(2,3) by (intro seg_join [of h head us x vs head]) (auto simp: dlist_def)
  then have "dlist h' head (us @ vs)" using l by (auto simp: dlist_def)
  moreover have "\<forall>y. y \<notin> set (head # us @ vs) \<longrightarrow> nx h' y = nx h y \<and> pv h' y = pv h y"
    using ends h'(2,3) by auto
  ultimately show thesis using h'(1,4) that by blast
qed

lemma dlist_delinit:
  assumes l: "dlist h head (us @ x # vs)"
  obtains h' where "list_delinit h x = Ret h'" "dlist h' head (us @ vs)" "dlist h' x []" "dom h' = dom h"
proof -
  obtain h1 where h1: "list_del h x = Ret h1" "dlist h1 head (us @ vs)" "dom h1 = dom h"
    by (rule dlist_del [OF l])
  have x: "x \<in> dom h1" using dlist_nodes [OF l, of x] h1(3) by simp
  let ?h2 = "put_prev (put_next h1 x x) x x"
  have e: "nx ?h2 = (nx h1)(x \<mapsto> x)" "pv ?h2 = (pv h1)(x \<mapsto> x)" "dom ?h2 = dom h1"
    using x by (simp_all add: insert_absorb)
  have "x \<notin> set (head # us @ vs)" using l by (auto simp: dlist_def)
  then have "dlist ?h2 head (us @ vs)" using h1(2) e by (intro dlist_frame [OF h1(2)]) auto
  moreover have "dlist ?h2 x []" using e x by (simp add: dlist_def)
  moreover have "list_delinit h x = Ret ?h2" using h1(1) x by (simp add: list_delinit_def dl_exec)
  ultimately show thesis using that e(3) h1(3) by metis
qed

text \<open>Traversal.\<close>

lemma entries_from_seg:
  "seg h p xs head \<Longrightarrow> head \<notin> set xs \<Longrightarrow> p \<in> dom h \<Longrightarrow> set xs \<subseteq> dom h \<Longrightarrow>
     entries_from h head (the (nx h p)) = Some (Ret xs)"
proof (induction xs arbitrary: p)
  case Nil
  then show ?case by (simp add: entries_from.simps [of h head head])
next
  case (Cons x xs)
  then obtain n where n: "h x = Some n" by auto
  have "entries_from h head (next n) = Some (Ret xs)"
    using Cons.IH [of x] Cons.prems n by (auto simp: nx_def)
  with Cons.prems n show ?case
    by (subst entries_from.simps) (auto simp: entry_cons_def)
qed

lemma LIST_FOR_EACH_ENTRY_dlist:
  assumes "dlist h head xs"
  shows "LIST_FOR_EACH_ENTRY h head = Some (Ret xs)"
proof -
  have d: "set (head # xs) \<subseteq> dom h" using dlist_nodes [OF assms] by blast
  then obtain n where n: "h head = Some n" by auto
  have "entries_from h head (the (nx h head)) = Some (Ret xs)"
    using assms d by (intro entries_from_seg) (auto simp: dlist_def)
  with n show ?thesis by (simp add: LIST_FOR_EACH_ENTRY_def nx_def)
qed

lemma entries_from_rev_seg:
  "seg h head (xs @ ys) q \<Longrightarrow> head \<notin> set xs \<Longrightarrow> set (xs @ ys) \<subseteq> dom h \<Longrightarrow>
     entries_from_rev h head (last (head # xs)) = Some (Ret (rev xs))"
proof (induction xs arbitrary: ys rule: rev_induct)
  case Nil
  then show ?case by (simp add: entries_from_rev.simps [of h head head])
next
  case (snoc x xs)
  then obtain n where n: "h x = Some n" by auto
  have "seg h head xs x" using snoc.prems(1) by simp
  moreover have "seg h p zs x \<Longrightarrow> pv h x = Some (last (p # zs))" for p zs
    by (induction zs arbitrary: p) auto
  ultimately have "prev n = last (head # xs)" using n by (auto simp: pv_def)
  then have "entries_from_rev h head (prev n) = Some (Ret (rev xs))"
    using snoc.IH [of "x # ys"] snoc.prems by simp
  moreover have "last (head # xs @ [x]) = x" "head \<noteq> x" using snoc.prems(2) by auto
  ultimately show ?case
    using n by (simp add: entries_from_rev.simps [of h head x] entry_cons_def del: last.simps)
qed

lemma LIST_FOR_EACH_ENTRY_REV_dlist:
  assumes "dlist h head xs"
  shows "LIST_FOR_EACH_ENTRY_REV h head = Some (Ret (rev xs))"
proof -
  have d: "set (head # xs) \<subseteq> dom h" using dlist_nodes [OF assms] by blast
  then obtain n where n: "h head = Some n" by auto
  have "prev n = last (head # xs)" using dlist_last_prev(1) [OF assms] n by (simp add: pv_def)
  moreover have "entries_from_rev h head (last (head # xs)) = Some (Ret (rev xs))"
    using assms d by (intro entries_from_rev_seg [where ys = "[]"]) (auto simp: dlist_def)
  ultimately show ?thesis using n by (simp add: LIST_FOR_EACH_ENTRY_REV_def)
qed

text \<open>A loop that meets an entry linked to itself never ends.\<close>

lemma entries_from_self:
  assumes "h x = Some n" "next n = x" "x \<noteq> head"
  shows "entries_from h head x = None"
proof (rule ccontr)
  assume "entries_from h head x \<noteq> None"
  moreover have "h' = h \<and> head' = head \<longrightarrow> pos \<noteq> x" if "entries_from h' head' pos = Some r" for h' head' pos r
    by (rule entries_from.raw_induct [OF _ that])
       (use assms in \<open>auto split: option.splits if_splits simp: bind_eq_Some_conv; blast\<close>)
  ultimately show False by blast
qed

lemma entries_from_rev_self:
  assumes "h x = Some n" "prev n = x" "x \<noteq> head"
  shows "entries_from_rev h head x = None"
proof (rule ccontr)
  assume "entries_from_rev h head x \<noteq> None"
  moreover have "h' = h \<and> head' = head \<longrightarrow> pos \<noteq> x" if "entries_from_rev h' head' pos = Some r" for h' head' pos r
    by (rule entries_from_rev.raw_induct [OF _ that])
       (use assms in \<open>auto split: option.splits if_splits simp: bind_eq_Some_conv; blast\<close>)
  ultimately show False by blast
qed

text \<open>Following pointers from \<open>p\<close> through \<open>xs\<close> to \<open>q\<close>, whatever the pointers the other way are.\<close>

fun pointer_path :: "('p \<Rightarrow> 'p option) \<Rightarrow> 'p \<Rightarrow> 'p list \<Rightarrow> 'p \<Rightarrow> bool" where
  "pointer_path f p [] q \<longleftrightarrow> f p = Some q"
| "pointer_path f p (x # xs) q \<longleftrightarrow> f p = Some x \<and> pointer_path f x xs q"

lemma entries_from_loop:
  "pointer_path (nx h) p xs x \<Longrightarrow> nx h x = Some x \<Longrightarrow> head \<notin> set (x # xs) \<Longrightarrow>
     entries_from h head (the (nx h p)) = None"
proof (induction xs arbitrary: p)
  case Nil
  then show ?case using entries_from_self [of h x _ head] by (auto simp: nx_def)
next
  case (Cons y ys)
  then obtain n where n: "h y = Some n" "nx h y = Some (next n)" by (cases ys) (auto simp: nx_def)
  have "entries_from h head (next n) = None" using Cons.IH [of y] Cons.prems n by simp
  with Cons.prems n show ?case by (auto simp: entries_from.simps [of h head y])
qed

lemma entries_from_rev_loop:
  "pointer_path (pv h) p xs x \<Longrightarrow> pv h x = Some x \<Longrightarrow> head \<notin> set (x # xs) \<Longrightarrow>
     entries_from_rev h head (the (pv h p)) = None"
proof (induction xs arbitrary: p)
  case Nil
  then show ?case using entries_from_rev_self [of h x _ head] by (auto simp: pv_def)
next
  case (Cons y ys)
  then obtain n where n: "h y = Some n" "pv h y = Some (prev n)" by (cases ys) (auto simp: pv_def)
  have "entries_from_rev h head (prev n) = None" using Cons.IH [of y] Cons.prems n by simp
  with Cons.prems n show ?case by (auto simp: entries_from_rev.simps [of h head y])
qed

section \<open>The contract of a list implementation\<close>

locale linked_list =
  fixes rep :: "'h \<Rightarrow> 'p \<Rightarrow> 'p list \<Rightarrow> bool" and node :: "'h \<Rightarrow> 'p \<Rightarrow> bool"
    and add :: "'h \<Rightarrow> 'p \<Rightarrow> 'p \<Rightarrow> 'h outcome" and del :: "'h \<Rightarrow> 'p \<Rightarrow> 'h outcome"
    and entries :: "'h \<Rightarrow> 'p \<Rightarrow> 'p list outcome option"
  assumes rep_distinct: "rep h l xs \<Longrightarrow> distinct (l # xs)"
    and rep_nodes: "rep h l xs \<Longrightarrow> x \<in> set (l # xs) \<Longrightarrow> node h x"
    and add_law: "\<lbrakk>rep h l xs; node h x; x \<notin> set (l # xs)\<rbrakk> \<Longrightarrow>
        \<exists>h'. add h x l = Ret h' \<and> rep h' l (x # xs) \<and> node h' = node h"
    and del_law: "rep h l (us @ x # vs) \<Longrightarrow>
        \<exists>h'. del h x = Ret h' \<and> rep h' l (us @ vs) \<and> node h' = node h"
    and entries_law: "rep h l xs \<Longrightarrow> entries h l = Some (Ret xs)"
begin

text \<open>A head stands for one list only.\<close>

lemma rep_unique: "rep h l xs \<Longrightarrow> rep h l ys \<Longrightarrow> xs = ys"
  using entries_law [of h l xs] entries_law [of h l ys] by simp

lemma add_all:
  "rep h l xs \<Longrightarrow> list_all (node h) ys \<Longrightarrow> distinct ys \<Longrightarrow> set ys \<inter> set (l # xs) = {} \<Longrightarrow>
     \<exists>h'. fold_outcome (\<lambda>y h. add h y l) ys h = Ret h' \<and> rep h' l (rev ys @ xs) \<and> node h' = node h"
proof (induction ys arbitrary: h xs)
  case (Cons y ys)
  obtain h1 where h1: "add h y l = Ret h1" "rep h1 l (y # xs)" "node h1 = node h"
    using add_law [of h l xs y] Cons.prems by auto
  with Cons.IH [of h1 "y # xs"] Cons.prems show ?case by auto
qed auto

text \<open>The loop that visits every entry and unlinks it, the next one fetched beforehand.\<close>

lemma drain:
  "rep h l xs \<Longrightarrow>
     \<exists>h'. fold_outcome (\<lambda>x h. del h x) xs h = Ret h' \<and> rep h' l [] \<and> node h' = node h"
proof (induction xs arbitrary: h)
  case (Cons x xs)
  obtain h1 where "del h x = Ret h1" "rep h1 l xs" "node h1 = node h"
    using del_law [of h l "[]" x xs] Cons.prems by auto
  with Cons.IH [of h1] show ?case by auto
qed auto

lemma entries_nodes: "rep h l xs \<Longrightarrow> entries h l = Some (Ret ys) \<Longrightarrow> list_all (node h) ys"
  using entries_law [of h l xs] rep_nodes [of h l xs] by (auto simp: list_all_iff)

end

definition is_node :: "'p lheap \<Rightarrow> 'p \<Rightarrow> bool" where
  "is_node h p \<longleftrightarrow> p \<in> dom h"

interpretation dl: linked_list dlist is_node list_add list_del LIST_FOR_EACH_ENTRY
proof (unfold_locales, goal_cases)
  case (1 h l xs)
  then show ?case by (simp add: dlist_def)
next
  case (2 h l xs x)
  then show ?case using dlist_nodes by (simp add: is_node_def)
next
  case (3 h l xs x)
  then obtain h' where "list_add h x (last (l # [])) = Ret h'" "dlist h' l ([] @ x # xs)" "dom h' = dom h"
    by (rule_tac dlist_add [of h l "[]" xs x]) (auto simp: is_node_def)
  then show ?case by (intro exI [of _ h']) (simp add: is_node_def fun_eq_iff)
next
  case (4 h l us x vs)
  then obtain h' where "list_del h x = Ret h'" "dlist h' l (us @ vs)" "dom h' = dom h"
    by (rule dlist_del)
  then show ?case by (intro exI [of _ h']) (simp add: is_node_def fun_eq_iff)
next
  case (5 h l xs)
  then show ?case by (rule LIST_FOR_EACH_ENTRY_dlist)
qed

section \<open>Properties\<close>

definition demo_heap :: "ptr lheap" where
  "demo_heap = [1 \<mapsto> \<lparr>prev = 3, next = 2\<rparr>, 2 \<mapsto> \<lparr>prev = 1, next = 3\<rparr>, 3 \<mapsto> \<lparr>prev = 2, next = 1\<rparr>,
                4 \<mapsto> \<lparr>prev = 0, next = 0\<rparr>]"

lemma demo_heap_list: "dlist demo_heap 1 [2, 3]"
  by (simp add: dlist_def nx_def pv_def demo_heap_def)

text \<open>C30. \<open>list_add\<close> of a fresh element behind the head or behind any element of a list inserts it
  right there, and leaves the pointers of every list head outside that list alone.\<close>

theorem list_add_inserts:
  assumes "dlist h head (us @ vs)" and "item \<in> dom h" and "item \<notin> set (head # us @ vs)"
  shows "\<exists>h'. list_add h item (last (head # us)) = Ret h' \<and> dlist h' head (us @ item # vs)
    \<and> (\<forall>x. x \<notin> set (item # head # us @ vs) \<longrightarrow> nx h' x = nx h x \<and> pv h' x = pv h x)"
  using dlist_add [OF assms] by metis

theorem list_add_inserts_witness:
  "\<exists>h'. list_add demo_heap 4 2 = Ret h' \<and> dlist h' 1 [2, 4, 3]"
  using list_add_inserts [of demo_heap 1 "[2]" "[3]" 4] demo_heap_list
  by (auto simp: demo_heap_def)

text \<open>C31. \<open>list_del\<close> of any element of a list takes out exactly that element, \<open>list_delinit\<close> also
  makes it an empty list of its own.\<close>

theorem list_del_removes:
  assumes "dlist h head (us @ x # vs)"
  shows "(\<exists>h'. list_del h x = Ret h' \<and> dlist h' head (us @ vs))
    \<and> (\<exists>h'. list_delinit h x = Ret h' \<and> dlist h' head (us @ vs) \<and> dlist h' x [])"
  using dlist_del [OF assms] dlist_delinit [OF assms] by metis

theorem list_del_removes_witness:
  "\<exists>h'. list_delinit demo_heap 2 = Ret h' \<and> dlist h' 1 [3] \<and> dlist h' 2 []"
  using list_del_removes [of demo_heap 1 "[]" 2 "[3]"] demo_heap_list by simp

text \<open>C32. On a list the two traversals end, and visit the elements in order and in reverse order. On any
  heap, a traversal forwards that comes, after any number of other entries, to an entry whose next
  pointer is to itself does not end, and neither does one backwards that comes to an entry whose previous
  pointer is to itself.\<close>

theorem list_traversals:
  assumes "dlist h head xs"
    and "pointer_path (nx f) fhead fs x" and "nx f x = Some x" and "fhead \<notin> set (x # fs)"
    and "pointer_path (pv b) bhead bs y" and "pv b y = Some y" and "bhead \<notin> set (y # bs)"
  shows "LIST_FOR_EACH_ENTRY h head = Some (Ret xs)
    \<and> LIST_FOR_EACH_ENTRY_REV h head = Some (Ret (rev xs))
    \<and> LIST_FOR_EACH_ENTRY f fhead = None
    \<and> LIST_FOR_EACH_ENTRY_REV b bhead = None"
proof -
  obtain n m where "f fhead = Some n" "b bhead = Some m"
    using assms(2,5) by (cases fs; cases bs) (auto simp: nx_def pv_def)
  then show ?thesis
    using LIST_FOR_EACH_ENTRY_dlist [OF assms(1)] LIST_FOR_EACH_ENTRY_REV_dlist [OF assms(1)]
      entries_from_loop [OF assms(2-4)] entries_from_rev_loop [OF assms(5-7)]
    by (simp add: LIST_FOR_EACH_ENTRY_def LIST_FOR_EACH_ENTRY_REV_def nx_def pv_def)
qed

theorem list_traversals_witness:
  "LIST_FOR_EACH_ENTRY_REV demo_heap 1 = Some (Ret [3, 2])
   \<and> LIST_FOR_EACH_ENTRY [1 \<mapsto> \<lparr>prev = 7 :: ptr, next = 5\<rparr>, 5 \<mapsto> \<lparr>prev = 1, next = 7\<rparr>, 7 \<mapsto> \<lparr>prev = 7, next = 7\<rparr>] 1 = None
   \<and> LIST_FOR_EACH_ENTRY_REV [1 \<mapsto> \<lparr>prev = 7 :: ptr, next = 5\<rparr>, 5 \<mapsto> \<lparr>prev = 1, next = 7\<rparr>, 7 \<mapsto> \<lparr>prev = 7, next = 7\<rparr>] 1 = None"
proof -
  let ?h = "[1 \<mapsto> \<lparr>prev = 7 :: ptr, next = 5\<rparr>, 5 \<mapsto> \<lparr>prev = 1, next = 7\<rparr>, 7 \<mapsto> \<lparr>prev = 7, next = 7\<rparr>]"
  show ?thesis
    using list_traversals [OF demo_heap_list, of ?h 1 "[5]" 7 ?h 1 "[]" 7] by (simp add: nx_def pv_def)
qed

end
