(* ===== verification/HandleTable.thy ===== *)
theory HandleTable imports Prelude begin

text \<open>
  The handle tables of \<open>amdgpu/handle_table.c\<close>: an array of pointers indexed by 32-bit handles that
  grows by whole pages. \<open>None\<close> is the null pointer. The array is as long as the memory the last
  \<open>realloc\<close> gave; a write outside it is a \<open>Fault\<close>. The page size \<open>sysconf\<close> reports is a parameter.
\<close>

section \<open>State and operations\<close>

record 'v handle_table =
  max_key :: u32
  vals :: "'v option list"

definition empty_table :: "'v handle_table" where
  "empty_table = \<lparr>max_key = 0, vals = []\<rparr>"

text \<open>\<open>table->values[key] = value\<close>\<close>

definition table_store :: "'v handle_table \<Rightarrow> u32 \<Rightarrow> 'v option \<Rightarrow> 'v handle_table outcome" where
  "table_store table key v =
     (if unat key < length (vals table) then Ret (table\<lparr>vals := (vals table)[unat key := v]\<rparr>)
      else Fault)"

text \<open>
  The new size is computed at 32 bits. When it is below the old one the \<open>memset\<close> length wraps and
  the call writes outside the array.
\<close>

definition handle_table_insert ::
    "u64 \<Rightarrow> 'v handle_table \<Rightarrow> u32 \<Rightarrow> 'v option \<Rightarrow> alloc_script
     \<Rightarrow> (rc \<times> 'v handle_table \<times> alloc_script) outcome" where
  "handle_table_insert pagesize table key v sc =
     (if key \<ge> max_key table then
        (let alignment = ucast (pagesize div 8);
             new_max = ALIGN32 (key + 1) alignment
         in case calloc_next sc of
              (False, sc') \<Rightarrow> Ret (Err ENOMEM, table, sc')
            | (True, sc') \<Rightarrow>
                if new_max < max_key table then Fault
                else bind_outcome
                  (table_store
                     (table\<lparr>max_key := new_max,
                            vals := take (unat (max_key table)) (vals table)
                                    @ replicate (unat (new_max - max_key table)) None\<rparr>)
                     key v)
                  (\<lambda>table'. Ret (OK, table', sc')))
      else bind_outcome (table_store table key v) (\<lambda>table'. Ret (OK, table', sc)))"

definition handle_table_remove :: "'v handle_table \<Rightarrow> u32 \<Rightarrow> 'v handle_table outcome" where
  "handle_table_remove table key =
     (if key < max_key table then table_store table key None else Ret table)"

definition handle_table_lookup :: "'v handle_table \<Rightarrow> u32 \<Rightarrow> 'v option outcome" where
  "handle_table_lookup table key =
     (if key < max_key table then
        (if unat key < length (vals table) then Ret (vals table ! unat key) else Fault)
      else Ret None)"

definition handle_table_fini :: "'v handle_table \<Rightarrow> 'v handle_table" where
  "handle_table_fini table = table\<lparr>max_key := 0, vals := []\<rparr>"

section \<open>The map a table stands for\<close>

definition wf_table :: "'v handle_table \<Rightarrow> bool" where
  "wf_table t \<longleftrightarrow> length (vals t) = unat (max_key t)"

definition table_map :: "'v handle_table \<Rightarrow> u32 \<rightharpoonup> 'v" where
  "table_map t k = (if unat k < length (vals t) then vals t ! unat k else None)"

definition page_slots :: "u64 \<Rightarrow> u32" where
  "page_slots pagesize = ucast (pagesize div 8)"

text \<open>A handle whose rounded table size still fits 32 bits.\<close>

definition key_ok :: "u64 \<Rightarrow> u32 \<Rightarrow> bool" where
  "key_ok pagesize k \<longleftrightarrow>
     pow2 (page_slots pagesize) \<and> unat k + 1 + unat (page_slots pagesize) \<le> 2 ^ 32"

lemma wf_empty_table [simp]: "wf_table empty_table"
  by (simp add: wf_table_def empty_table_def)

lemma table_map_empty [simp]: "table_map empty_table = Map.empty"
  by (simp add: table_map_def empty_table_def fun_eq_iff)

lemma fini_empty [simp]: "handle_table_fini t = empty_table"
  by (cases t) (simp add: handle_table_fini_def empty_table_def)

lemma lookup_table_map:
  "wf_table t \<Longrightarrow> handle_table_lookup t k = Ret (table_map t k)"
  by (simp add: handle_table_lookup_def table_map_def wf_table_def word_less_nat_alt)

lemma store_table_map:
  assumes "unat k < length (vals t)"
  shows "table_store t k v = Ret (t\<lparr>vals := (vals t)[unat k := v]\<rparr>)"
    and "table_map (t\<lparr>vals := (vals t)[unat k := v]\<rparr>) = (table_map t)(k := v)"
  using assms by (auto simp: table_store_def table_map_def fun_eq_iff nth_list_update unat_eq_iff)

lemma remove_table_map:
  assumes "wf_table t"
  obtains t' where "handle_table_remove t k = Ret t'" "wf_table t'" "table_map t' = (table_map t)(k := None)"
    "max_key t' = max_key t"
proof (cases "k < max_key t")
  case True
  then have "unat k < length (vals t)" using assms by (simp add: wf_table_def word_less_nat_alt)
  from store_table_map [OF this, of None] True assms show thesis
    by (intro that [of "t\<lparr>vals := (vals t)[unat k := None]\<rparr>"]) (auto simp: handle_table_remove_def wf_table_def)
next
  case False
  then have "table_map t k = None" using assms by (simp add: table_map_def wf_table_def word_less_nat_alt)
  then have "(table_map t)(k := None) = table_map t" by (auto simp: fun_eq_iff)
  with False assms show thesis by (intro that [of t]) (auto simp: handle_table_remove_def)
qed

text \<open>Growing keeps every entry and makes room for the key.\<close>

lemma new_max_bounds:
  assumes "key_ok pagesize k"
  shows "unat k < unat (ALIGN32 (k + 1) (page_slots pagesize))"
proof -
  have p: "pow2 (page_slots pagesize)" and b: "unat k + 1 + unat (page_slots pagesize) \<le> 2 ^ 32"
    using assms by (simp_all add: key_ok_def)
  note pos = pow2_pos [OF p]
  have k1: "unat (k + 1) = unat k + 1"
    using b pos by (subst unat_add_less) simp_all
  with unat_ALIGN32 [OF p, of "k + 1"] b align_nat_ge [OF pos, of "unat (k + 1)"] show ?thesis by simp
qed

lemma insert_table_map:
  assumes wf: "wf_table t" and ok: "key_ok pagesize k"
  obtains ret t' sc' where "handle_table_insert pagesize t k v sc = Ret (ret, t', sc')" "wf_table t'"
    "ret = OK \<and> table_map t' = (table_map t)(k := v) \<and> (sc' = sc \<or> calloc_next sc = (True, sc'))
     \<or> ret = Err ENOMEM \<and> t' = t \<and> k \<ge> max_key t \<and> calloc_next sc = (False, sc')"
proof (cases "k \<ge> max_key t")
  case False
  then have "unat k < length (vals t)" using wf by (simp add: wf_table_def word_le_nat_alt)
  note s = store_table_map [OF this]
  show thesis
    by (rule that [of OK "t\<lparr>vals := (vals t)[unat k := v]\<rparr>" sc])
       (use False s wf in \<open>simp_all add: handle_table_insert_def wf_table_def\<close>)
next
  case True
  let ?m = "ALIGN32 (k + 1) (page_slots pagesize)"
  obtain b sc' where c: "calloc_next sc = (b, sc')" by fastforce
  show thesis
  proof (cases b)
    case False
    with c True wf show thesis
      by (intro that [of "Err ENOMEM" t sc']) (simp_all add: handle_table_insert_def Let_def)
  next
    case b: True
    have m: "unat k < unat ?m" by (rule new_max_bounds [OF ok])
    with True have le: "max_key t \<le> ?m" by (simp add: word_le_nat_alt)
    let ?t = "t\<lparr>max_key := ?m, vals := take (unat (max_key t)) (vals t) @ replicate (unat (?m - max_key t)) None\<rparr>"
    have len: "length (vals ?t) = unat ?m" using wf le by (simp add: wf_table_def unat_sub word_le_nat_alt)
    have map: "table_map ?t = table_map t"
      using wf len by (auto simp: table_map_def fun_eq_iff nth_append wf_table_def)
    note s = store_table_map [of k ?t v, unfolded len, OF m]
    have "handle_table_insert pagesize t k v sc = Ret (OK, ?t\<lparr>vals := (vals ?t)[unat k := v]\<rparr>, sc')"
      using True c b le s(1) by (simp add: handle_table_insert_def page_slots_def Let_def)
    moreover have "wf_table (?t\<lparr>vals := (vals ?t)[unat k := v]\<rparr>)" using len by (simp add: wf_table_def)
    moreover have "table_map (?t\<lparr>vals := (vals ?t)[unat k := v]\<rparr>) = (table_map t)(k := v)"
      using s(2) map by simp
    ultimately show thesis using that c b by metis
  qed
qed

section \<open>The contract of a handle map\<close>

text \<open>
  What a client of a table relies on. \<open>put\<close> and \<open>del\<close> are the successful updates, \<open>dom_ok\<close> the keys
  a table takes.
\<close>

locale handle_map =
  fixes inv :: "'t \<Rightarrow> bool" and look :: "'t \<Rightarrow> 'k \<Rightarrow> 'v option" and dom_ok :: "'k \<Rightarrow> bool"
    and put :: "'t \<Rightarrow> 'k \<Rightarrow> 'v \<Rightarrow> 't \<Rightarrow> bool" and del :: "'t \<Rightarrow> 'k \<Rightarrow> 't \<Rightarrow> bool"
  assumes put_law: "\<lbrakk>inv t; dom_ok k; put t k v t'\<rbrakk> \<Longrightarrow> inv t' \<and> look t' = (look t)(k \<mapsto> v)"
    and del_law: "\<lbrakk>inv t; del t k t'\<rbrakk> \<Longrightarrow> inv t' \<and> look t' = (look t)(k := None)"
    and put_total: "\<lbrakk>inv t; dom_ok k\<rbrakk> \<Longrightarrow> \<exists>t'. put t k v t'"
    and del_total: "inv t \<Longrightarrow> \<exists>t'. del t k t'"
begin

text \<open>A table tracks a set of objects: every entry under its key is an object with that key.\<close>

definition tracks :: "('v \<Rightarrow> 'k) \<Rightarrow> 'v set \<Rightarrow> 't \<Rightarrow> bool" where
  "tracks key live t \<longleftrightarrow> inv t \<and> inj_on key live \<and> (\<forall>k v. look t k = Some v \<longleftrightarrow> v \<in> live \<and> key v = k)"

lemma tracks_lookup: "tracks key live t \<Longrightarrow> v \<in> live \<Longrightarrow> look t (key v) = Some v"
  by (simp add: tracks_def)

lemma tracks_absent: "tracks key live t \<Longrightarrow> look t k = None \<longleftrightarrow> k \<notin> key ` live"
  unfolding tracks_def by (metis (no_types, lifting) image_iff not_None_eq)

lemma tracks_put:
  assumes t: "tracks key live t" and free: "look t (key v) = None" and ok: "dom_ok (key v)"
    and p: "put t (key v) v t'"
  shows "tracks key (insert v live) t'"
proof -
  note l = put_law [OF _ ok p]
  have new: "\<forall>w\<in>live. key w \<noteq> key v"
    using free tracks_absent [OF t, of "key v"] by (metis image_eqI)
  then have "inj_on key (insert v live)" using t by (auto simp: tracks_def)
  then show ?thesis using t l new by (auto simp: tracks_def)
qed

lemma tracks_del:
  assumes t: "tracks key live t" and p: "del t (key v) t'" and v: "v \<in> live"
  shows "tracks key (live - {v}) t'"
proof -
  note l = del_law [OF _ p]
  have "\<forall>w\<in>live. key w = key v \<longrightarrow> w = v" using t v by (auto simp: tracks_def inj_on_def)
  moreover have "inj_on key (live - {v})" using t by (auto simp: tracks_def inj_on_def)
  ultimately show ?thesis using t l by (auto simp: tracks_def split: if_splits)
qed

lemma put_del:
  assumes "inv t" "dom_ok k" "put t k v t'" "del t' k t''" "look t k = None"
  shows "look t'' = look t"
  using put_law [OF assms(1-3)] del_law [of t' k t''] assms(4,5) by (auto simp: fun_eq_iff)

end

definition ht_put :: "u64 \<Rightarrow> 'v handle_table \<Rightarrow> u32 \<Rightarrow> 'v \<Rightarrow> 'v handle_table \<Rightarrow> bool" where
  "ht_put pagesize t k v t' \<longleftrightarrow>
     (\<exists>sc sc'. handle_table_insert pagesize t k (Some v) sc = Ret (OK, t', sc'))"

definition ht_del :: "'v handle_table \<Rightarrow> u32 \<Rightarrow> 'v handle_table \<Rightarrow> bool" where
  "ht_del t k t' \<longleftrightarrow> handle_table_remove t k = Ret t'"

interpretation ht: handle_map wf_table table_map "key_ok pagesize" "ht_put pagesize" ht_del
  for pagesize :: u64
proof (unfold_locales, goal_cases)
  case (1 t k v t')
  then obtain sc sc' where r: "handle_table_insert pagesize t k (Some v) sc = Ret (OK, t', sc')"
    by (auto simp: ht_put_def)
  obtain ret t1 sc1 where i: "handle_table_insert pagesize t k (Some v) sc = Ret (ret, t1, sc1)" "wf_table t1"
    "ret = OK \<and> table_map t1 = (table_map t)(k := Some v) \<and> (sc1 = sc \<or> calloc_next sc = (True, sc1))
     \<or> ret = Err ENOMEM \<and> t1 = t \<and> k \<ge> max_key t \<and> calloc_next sc = (False, sc1)"
    by (rule insert_table_map [OF 1(1,2)])
  then show ?case using r by auto
next
  case (2 t k t')
  then show ?case using remove_table_map [OF 2(1), of k] by (auto simp: ht_del_def)
next
  case (3 t k v)
  then show ?case using insert_table_map [OF 3, of "Some v" "[]"] by (fastforce simp: ht_put_def)
next
  case (4 t k)
  then show ?case using remove_table_map [OF 4, of k] by (auto simp: ht_del_def)
qed

section \<open>Properties\<close>

text \<open>C28. With memory available an insertion of a handle whose rounded size fits 32 bits succeeds,
  makes the table answer that handle with the inserted pointer and every other handle as before,
  however far the array has to grow.\<close>

theorem handle_table_insert_lookup:
  assumes "wf_table t" and "key_ok pagesize k" and "no_alloc_failure sc"
  shows "\<exists>t' sc'. handle_table_insert pagesize t k v sc = Ret (OK, t', sc') \<and> wf_table t'
    \<and> (\<forall>j. handle_table_lookup t' j = (if j = k then Ret v else handle_table_lookup t j))"
proof -
  obtain ret t' sc' where i: "handle_table_insert pagesize t k v sc = Ret (ret, t', sc')" "wf_table t'"
    "ret = OK \<and> table_map t' = (table_map t)(k := v) \<and> (sc' = sc \<or> calloc_next sc = (True, sc'))
     \<or> ret = Err ENOMEM \<and> t' = t \<and> k \<ge> max_key t \<and> calloc_next sc = (False, sc')"
    by (rule insert_table_map [OF assms(1,2)])
  moreover have "calloc_next sc \<noteq> (False, sc')"
    using assms(3) by (auto elim: calloc_next_no_failure)
  ultimately show ?thesis using assms(1) by (auto simp: lookup_table_map)
qed

lemma key_ok_4096: "unat k + 513 \<le> 2 ^ 32 \<Longrightarrow> key_ok 4096 k"
  unfolding key_ok_def page_slots_def pow2_def by (auto intro!: exI [of _ 9])

theorem handle_table_insert_lookup_witness:
  "\<exists>t' sc'. handle_table_insert 4096 empty_table 700 (Some (7 :: nat)) [True] = Ret (OK, t', sc') \<and> wf_table t'
    \<and> handle_table_lookup t' 700 = Ret (Some (7 :: nat)) \<and> handle_table_lookup t' 5 = Ret None"
  using handle_table_insert_lookup [of "empty_table :: nat handle_table" 4096 700 "[True]" "Some 7"]
    key_ok_4096 [of 700]
  by (fastforce simp: no_alloc_failure_def lookup_table_map)

text \<open>C29. A failed \<open>realloc\<close> gives ENOMEM and leaves the table as it was; removal never faults,
  forgets exactly the removed handle, and of a handle never inserted changes no answer.\<close>

theorem handle_table_failure_and_remove:
  assumes "wf_table t" and "key_ok pagesize k" and "k \<ge> max_key t"
  shows "handle_table_insert pagesize t k v (False # sc) = Ret (Err ENOMEM, t, sc)
    \<and> (\<exists>t'. handle_table_remove t j = Ret t' \<and> wf_table t'
         \<and> (\<forall>i. handle_table_lookup t' i = (if i = j then Ret None else handle_table_lookup t i)))"
proof -
  obtain t' where "handle_table_remove t j = Ret t'" "wf_table t'" "table_map t' = (table_map t)(j := None)"
    "max_key t' = max_key t"
    by (rule remove_table_map [OF assms(1)])
  then show ?thesis
    using assms(1,3) by (simp add: handle_table_insert_def Let_def lookup_table_map)
qed

theorem handle_table_failure_and_remove_witness:
  "\<exists>t'. handle_table_remove (empty_table :: nat handle_table) 3 = Ret t'
     \<and> handle_table_lookup t' 3 = Ret None"
proof -
  have "max_key (empty_table :: nat handle_table) \<le> 700" by (simp add: empty_table_def)
  with handle_table_failure_and_remove [of "empty_table :: nat handle_table" 4096 700 None "[]" 3]
    key_ok_4096 [of 700]
  have "\<exists>t'. handle_table_remove (empty_table :: nat handle_table) 3 = Ret t' \<and> wf_table t'
      \<and> (\<forall>i. handle_table_lookup t' i = (if i = 3 then Ret None else handle_table_lookup empty_table i))"
    by simp
  then show ?thesis by metis
qed

text \<open>For the topmost handles the rounded size wraps to 0 at 32 bits, and the insertion writes
  outside the array.\<close>

theorem handle_table_insert_wraps:
  assumes "pow2 (page_slots pagesize)" and "2 ^ 32 < unat k + 1 + unat (page_slots pagesize)"
    and "unat k + 1 < 2 ^ 32" and "max_key t \<le> k"
  shows "handle_table_insert pagesize t k v [] = Fault"
proof -
  let ?a = "page_slots pagesize"
  have pos: "0 < unat ?a" using assms(1) by (rule pow2_pos)
  have a: "unat ?a < 2 ^ 32" using unsigned_less [of ?a, where ?'a = nat] by simp
  have k1: "unat (k + 1) = unat k + 1" using assms(3) by (subst unat_add_less) simp_all
  have "unat (k + 1 + (?a - 1)) = unat k + 1 + (unat ?a - 1) - 2 ^ 32"
    using assms(2,3) pos a k1 by (subst unat_plus_if') (auto simp: unat_minus_one)
  then have "unat (k + 1 + (?a - 1)) < unat ?a" using assms(3) pos by linarith
  then have "unat (ALIGN32 (k + 1) ?a) = 0"
    using align_mask_unat [OF assms(1), of "k + 1"] by (simp add: ALIGN32_def)
  then have "ALIGN32 (k + 1) ?a = 0" by (simp add: unat_eq_iff)
  then show ?thesis
    using assms(4)
    by (cases "max_key t = 0")
       (auto simp: handle_table_insert_def page_slots_def table_store_def Let_def word_neq_0_conv)
qed

theorem handle_table_insert_wraps_witness:
  "handle_table_insert 4096 (empty_table :: nat handle_table) 0xfffffffe (Some (7 :: nat)) [] = Fault"
proof -
  have "pow2 (page_slots 4096)" unfolding page_slots_def pow2_def by (auto intro!: exI [of _ 9])
  then show ?thesis
    using handle_table_insert_wraps [of 4096 "0xfffffffe" "empty_table :: nat handle_table" "Some 7"]
    by (simp add: page_slots_def empty_table_def)
qed

end
