(* ===== verification/VaMgr.thy ===== *)
theory VaMgr imports Prelude begin

text \<open>
  The virtual address manager of \<open>amdgpu/amdgpu_vamgr.c\<close>: a list of free address ranges
  ("holes"), carved up by \<open>amdgpu_vamgr_find_va\<close> and given back to by \<open>amdgpu_vamgr_free_va\<close>.
  The circular list of \<open>util_double_list.h\<close> is the list of its holes in \<open>next\<close> order (the theory
  \<open>DoubleList\<close> relates the pointers to that list), so its head is the hole with the highest
  address. Addresses are 64-bit words and every sum below wraps as it does in C. The lock
  \<open>bo_va_mutex\<close> makes each operation atomic; the operations here are what happens inside it.
\<close>

section \<open>State\<close>

record amdgpu_bo_va_hole =
  hole_offset :: u64
  hole_size :: u64

record amdgpu_bo_va_mgr =
  va_max :: u64
  va_holes :: "amdgpu_bo_va_hole list"
  va_alignment :: u32

definition AMDGPU_INVALID_VA_ADDRESS :: u64 where
  "AMDGPU_INVALID_VA_ADDRESS = 0xffffffffffffffff"

section \<open>Operations\<close>

text \<open>
  The result of \<open>calloc\<close> is not tested: a failure is a write through the null pointer.
\<close>

definition amdgpu_vamgr_init ::
    "u64 \<Rightarrow> u64 \<Rightarrow> u64 \<Rightarrow> alloc_script \<Rightarrow> (amdgpu_bo_va_mgr \<times> alloc_script) outcome" where
  "amdgpu_vamgr_init start max' alignment sc =
     (case calloc_next sc of
        (False, _) \<Rightarrow> Fault
      | (True, sc') \<Rightarrow>
          Ret (\<lparr>va_max = max', va_holes = [\<lparr>hole_offset = start, hole_size = max' - start\<rparr>],
                va_alignment = ucast alignment\<rparr>, sc'))"

definition amdgpu_vamgr_deinit :: "amdgpu_bo_va_mgr \<Rightarrow> amdgpu_bo_va_mgr" where
  "amdgpu_vamgr_deinit mgr =
     mgr\<lparr>va_holes := fold remove1 (va_holes mgr) (va_holes mgr)\<rparr>"

text \<open>
  The holes that stand in the place of \<open>hole\<close> once \<open>[start_va, end_va)\<close> is cut out of it, in
  list order: the new entry is added behind \<open>hole\<close>, and \<open>hole\<close> keeps the upper part.
\<close>

definition amdgpu_vamgr_subtract_hole ::
    "amdgpu_bo_va_hole \<Rightarrow> u64 \<Rightarrow> u64 \<Rightarrow> alloc_script
     \<Rightarrow> rc \<times> amdgpu_bo_va_hole list \<times> alloc_script" where
  "amdgpu_vamgr_subtract_hole hole start_va end_va sc =
     (if start_va > hole_offset hole \<and> end_va - hole_offset hole < hole_size hole then
        (case calloc_next sc of
           (False, sc') \<Rightarrow> (Err ENOMEM, [hole], sc')
         | (True, sc') \<Rightarrow>
             (OK,
              [hole\<lparr>hole_size := hole_size hole - (end_va - hole_offset hole),
                    hole_offset := end_va\<rparr>,
               \<lparr>hole_offset = hole_offset hole, hole_size = start_va - hole_offset hole\<rparr>],
              sc'))
      else if start_va > hole_offset hole then
        (OK, [hole\<lparr>hole_size := start_va - hole_offset hole\<rparr>], sc)
      else if end_va - hole_offset hole < hole_size hole then
        (OK, [hole\<lparr>hole_size := hole_size hole - (end_va - hole_offset hole),
                   hole_offset := end_va\<rparr>], sc)
      else (OK, [], sc))"

text \<open>The body of the two search loops: \<open>None\<close> is \<open>continue\<close>, \<open>Some\<close> the offset chosen.\<close>

definition va_fit_bottom ::
    "u64 \<Rightarrow> u64 \<Rightarrow> u64 \<Rightarrow> amdgpu_bo_va_hole \<Rightarrow> u64 option" where
  "va_fit_bottom sz alignment base_required hole =
     (if base_required \<noteq> 0 then
        (if hole_offset hole > base_required
            \<or> hole_offset hole + hole_size hole < base_required + sz
         then None else Some base_required)
      else
        (let waste = hole_offset hole mod alignment;
             waste' = (if waste \<noteq> 0 then alignment - waste else 0);
             offset = hole_offset hole + waste'
         in if offset \<ge> hole_offset hole + hole_size hole
               \<or> sz > (hole_offset hole + hole_size hole) - offset
            then None else Some offset))"

definition va_fit_top ::
    "u64 \<Rightarrow> u64 \<Rightarrow> u64 \<Rightarrow> amdgpu_bo_va_hole \<Rightarrow> u64 option" where
  "va_fit_top sz alignment base_required hole =
     (if base_required \<noteq> 0 then
        (if hole_offset hole > base_required
            \<or> hole_offset hole + hole_size hole < base_required + sz
         then None else Some base_required)
      else if sz > hole_size hole then None
      else
        (let offset0 = hole_offset hole + hole_size hole - sz;
             offset = offset0 - offset0 mod alignment
         in if offset < hole_offset hole then None else Some offset))"

text \<open>
  A search loop: the holes passed over, the first hole that fits with its offset, and the rest.
\<close>

fun va_search ::
    "(amdgpu_bo_va_hole \<Rightarrow> u64 option) \<Rightarrow> amdgpu_bo_va_hole list
     \<Rightarrow> (amdgpu_bo_va_hole list \<times> amdgpu_bo_va_hole \<times> u64 \<times> amdgpu_bo_va_hole list) option"
  where
  "va_search fit [] = None"
| "va_search fit (h # hs) =
     (case fit h of
        Some offset \<Rightarrow> Some ([], h, offset, hs)
      | None \<Rightarrow>
          (case va_search fit hs of
             None \<Rightarrow> None
           | Some (pre, h', offset, post) \<Rightarrow> Some (h # pre, h', offset, post)))"

text \<open>
  The loop of \<open>amdgpu_vamgr_find_va\<close>: from the bottom it runs through the list backwards
  (\<open>LIST_FOR_EACH_ENTRY_SAFE_REV\<close>), from the top forwards. The result gives the holes before
  and behind the chosen one in list order.
\<close>

definition va_choose ::
    "bool \<Rightarrow> u64 \<Rightarrow> u64 \<Rightarrow> u64 \<Rightarrow> amdgpu_bo_va_hole list
     \<Rightarrow> (amdgpu_bo_va_hole list \<times> amdgpu_bo_va_hole \<times> u64 \<times> amdgpu_bo_va_hole list) option"
  where
  "va_choose search_from_top sz alignment base_required holes =
     (if \<not> search_from_top then
        (case va_search (va_fit_bottom sz alignment base_required) (rev holes) of
           None \<Rightarrow> None
         | Some (pre, h, offset, post) \<Rightarrow> Some (rev post, h, offset, rev pre))
      else va_search (va_fit_top sz alignment base_required) holes)"

text \<open>
  \<open>va_out\<close> goes in with the value the caller's variable has and comes out with the value it has
  afterwards. \<open>base_required % alignment\<close> divides by zero when both alignments are 0.
\<close>

definition amdgpu_vamgr_find_va ::
    "amdgpu_bo_va_mgr \<Rightarrow> u64 \<Rightarrow> u64 \<Rightarrow> u64 \<Rightarrow> bool \<Rightarrow> u64 \<Rightarrow> alloc_script
     \<Rightarrow> (rc \<times> u64 \<times> amdgpu_bo_va_mgr \<times> alloc_script) outcome" where
  "amdgpu_vamgr_find_va mgr sz alignment base_required search_from_top va_out sc =
     (let alignment' = MAX2 alignment (ucast (va_alignment mgr));
          sz' = ALIGN64 sz (va_alignment mgr)
      in if alignment' = 0 then Fault
         else if base_required mod alignment' \<noteq> 0 then Ret (Err EINVAL, va_out, mgr, sc)
         else
           (case va_choose search_from_top sz' alignment' base_required (va_holes mgr) of
              None \<Rightarrow> Ret (Err ENOMEM, va_out, mgr, sc)
            | Some (pre, hole, offset, post) \<Rightarrow>
                (case amdgpu_vamgr_subtract_hole hole offset (offset + sz') sc of
                   (ret, parts, sc') \<Rightarrow>
                     Ret (ret, offset, mgr\<lparr>va_holes := pre @ parts @ post\<rparr>, sc'))))"

text \<open>
  \<open>amdgpu_vamgr_free_va\<close>: \<open>upper\<close> are the holes the loop passes over (\<open>hole\<close> is the last of
  them, or the list head when there is none), and \<open>next\<close> is the first of \<open>lower\<close>, or the list
  head when there is none.
\<close>

definition amdgpu_vamgr_free_va ::
    "amdgpu_bo_va_mgr \<Rightarrow> u64 \<Rightarrow> u64 \<Rightarrow> alloc_script \<Rightarrow> amdgpu_bo_va_mgr \<times> alloc_script" where
  "amdgpu_vamgr_free_va mgr va sz sc =
     (if va = AMDGPU_INVALID_VA_ADDRESS then (mgr, sc)
      else
        (let sz' = ALIGN64 sz (va_alignment mgr);
             upper = takeWhile (\<lambda>h. \<not> hole_offset h < va) (va_holes mgr);
             lower = dropWhile (\<lambda>h. \<not> hole_offset h < va) (va_holes mgr);
             lower_adjacent =
               (lower \<noteq> [] \<and> hole_offset (hd lower) + hole_size (hd lower) = va)
         in if upper \<noteq> [] \<and> hole_offset (last upper) = va + sz' then
              (let hole = (last upper)\<lparr>hole_offset := va,
                                       hole_size := hole_size (last upper) + sz'\<rparr>
               in if lower_adjacent then
                    (let next = (hd lower)\<lparr>hole_size := hole_size (hd lower) + hole_size hole\<rparr>
                     in (mgr\<lparr>va_holes := butlast upper @ next # tl lower\<rparr>, sc))
                  else (mgr\<lparr>va_holes := butlast upper @ hole # lower\<rparr>, sc))
            else if lower_adjacent then
              (let next = (hd lower)\<lparr>hole_size := hole_size (hd lower) + sz'\<rparr>
               in (mgr\<lparr>va_holes := upper @ next # tl lower\<rparr>, sc))
            else
              (case calloc_next sc of
                 (False, sc') \<Rightarrow> (mgr, sc')
               | (True, sc') \<Rightarrow>
                   (mgr\<lparr>va_holes := upper @ \<lparr>hole_offset = va, hole_size = sz'\<rparr> # lower\<rparr>,
                    sc'))))"

section \<open>The free addresses and the invariant\<close>

definition hstart :: "amdgpu_bo_va_hole \<Rightarrow> nat" where
  "hstart h = unat (hole_offset h)"

definition hend :: "amdgpu_bo_va_hole \<Rightarrow> nat" where
  "hend h = unat (hole_offset h) + unat (hole_size h)"

definition free_set :: "amdgpu_bo_va_hole list \<Rightarrow> nat set" where
  "free_set hs = (\<Union>h\<in>set hs. {hstart h..<hend h})"

definition hole_ok :: "amdgpu_bo_va_hole \<Rightarrow> bool" where
  "hole_ok h \<longleftrightarrow> hole_size h \<noteq> 0 \<and> hend h < 2 ^ 64"

text \<open>
  The holes are non-empty, do not wrap, and are strictly separated in descending order: no two
  of them touch, so a free range that could be one hole is one hole.
\<close>

definition wf_holes :: "amdgpu_bo_va_hole list \<Rightarrow> bool" where
  "wf_holes hs \<longleftrightarrow>
     list_all hole_ok hs \<and> sorted_wrt (\<lambda>hi lo. hend lo < hstart hi) hs"

definition wf_mgr :: "amdgpu_bo_va_mgr \<Rightarrow> bool" where
  "wf_mgr mgr \<longleftrightarrow>
     wf_holes (va_holes mgr) \<and> pow2 (va_alignment mgr)
     \<and> list_all (\<lambda>h. hend h \<le> unat (va_max mgr)) (va_holes mgr)"

lemma free_set_simps [simp]:
  "free_set [] = {}"
  "free_set (h # hs) = {hstart h..<hend h} \<union> free_set hs"
  "free_set (hs @ hs') = free_set hs \<union> free_set hs'"
  by (auto simp: free_set_def)

lemma wf_holes_Nil [simp]: "wf_holes []"
  by (simp add: wf_holes_def)

lemma wf_holes_append:
  "wf_holes (xs @ ys) \<longleftrightarrow>
     wf_holes xs \<and> wf_holes ys \<and> (\<forall>x\<in>set xs. \<forall>y\<in>set ys. hend y < hstart x)"
  by (auto simp: wf_holes_def sorted_wrt_append)

lemma wf_holes_Cons:
  "wf_holes (h # hs) \<longleftrightarrow> hole_ok h \<and> wf_holes hs \<and> (\<forall>y\<in>set hs. hend y < hstart h)"
  by (auto simp: wf_holes_def)

lemma hole_ok_less: "hole_ok h \<Longrightarrow> hstart h < hend h"
  by (auto simp: hole_ok_def hstart_def hend_def unat_eq_iff)

lemma hole_ok_unat_end:
  "hole_ok h \<Longrightarrow> unat (hole_offset h + hole_size h) = hend h"
  by (simp add: hole_ok_def hend_def unat_add_less)

section \<open>Cutting a range out of a hole\<close>

definition hole_within :: "amdgpu_bo_va_hole \<Rightarrow> amdgpu_bo_va_hole \<Rightarrow> bool" where
  "hole_within h p \<longleftrightarrow> hstart h \<le> hstart p \<and> hend p \<le> hend h"

lemma end_minus_offset:
  assumes "hstart h \<le> unat e"
  shows "unat (e - hole_offset h) = unat e - hstart h"
  using assms by (simp add: hstart_def unat_sub word_le_nat_alt)

lemma subtract_hole_spec:
  assumes ok: "hole_ok h"
    and lo: "hstart h \<le> unat s" and lt: "unat s < unat e" and hi: "unat e \<le> hend h"
    and res: "amdgpu_vamgr_subtract_hole h s e sc = (ret, parts, sc')"
  shows "ret = OK \<and> wf_holes parts \<and> list_all (hole_within h) parts \<and>
           free_set parts = {hstart h..<hend h} - {unat s..<unat e}
         \<or> ret = Err ENOMEM \<and> parts = [h]"
proof -
  have em: "unat (e - hole_offset h) = unat e - hstart h"
    using lo lt by (intro end_minus_offset) simp
  have sm: "unat (s - hole_offset h) = unat s - hstart h"
    using lo by (rule end_minus_offset)
  have c1: "s > hole_offset h \<longleftrightarrow> hstart h < unat s"
    by (simp add: hstart_def word_less_nat_alt)
  have c2: "e - hole_offset h < hole_size h \<longleftrightarrow> unat e < hend h"
    using em lo lt by (auto simp: word_less_nat_alt hstart_def hend_def)
  have upper: "unat (hole_size h - (e - hole_offset h)) = hend h - unat e" if "unat e < hend h"
    using that em lo lt by (subst unat_sub) (auto simp: word_le_nat_alt hstart_def hend_def)
  have bound: "hend h < 2 ^ 64" using ok by (simp add: hole_ok_def)
  show ?thesis
    using res lo lt hi ok bound em sm upper unfolding amdgpu_vamgr_subtract_hole_def c1 c2
    by (auto split: if_splits prod.splits bool.splits
        simp: wf_holes_def hole_within_def hole_ok_def hstart_def hend_def unat_eq_iff)
qed

section \<open>The search\<close>

lemma va_search_Some:
  "va_search fit hs = Some (pre, h, off, post) \<Longrightarrow>
     hs = pre @ h # post \<and> fit h = Some off \<and> list_all (\<lambda>g. fit g = None) pre"
  by (induction hs arbitrary: pre) (auto split: option.splits)

lemma va_search_None:
  "va_search fit hs = None \<longleftrightarrow> list_all (\<lambda>h. fit h = None) hs"
  by (induction hs) (auto split: option.splits)

definition va_fit :: "bool \<Rightarrow> u64 \<Rightarrow> u64 \<Rightarrow> u64 \<Rightarrow> amdgpu_bo_va_hole \<Rightarrow> u64 option" where
  "va_fit from_top sz al base = (if from_top then va_fit_top sz al base else va_fit_bottom sz al base)"

lemma va_choose_Some:
  "va_choose from_top sz al base hs = Some (pre, h, off, post) \<Longrightarrow>
     hs = pre @ h # post \<and> va_fit from_top sz al base h = Some off"
  by (auto simp: va_choose_def va_fit_def split: if_splits option.splits dest!: va_search_Some)
     (metis append.assoc append_Cons append_Nil rev_append rev_rev_ident rev.simps(2))+

text \<open>The holes passed over lie above the chosen one when searching from the top, and below it otherwise.\<close>

lemma va_choose_passed:
  assumes "va_choose from_top sz al base hs = Some (pre, h, off, post)"
  shows "list_all (\<lambda>g. va_fit from_top sz al base g = None) (if from_top then pre else post)"
  using assms by (auto simp: va_choose_def va_fit_def split: if_splits option.splits dest!: va_search_Some)

lemma va_choose_None:
  "va_choose from_top sz al base hs = None \<longleftrightarrow> list_all (\<lambda>h. va_fit from_top sz al base h = None) hs"
proof -
  have "va_choose from_top sz al base hs = None \<longleftrightarrow>
          (if from_top then va_search (va_fit_top sz al base) hs = None
           else va_search (va_fit_bottom sz al base) (rev hs) = None)"
    by (simp add: va_choose_def split: option.split)
  then show ?thesis by (simp add: va_fit_def va_search_None)
qed

text \<open>The padding the bottom search skips brings the offset to the next multiple.\<close>

lemma pad_next_multiple:
  assumes al: "(al :: u64) \<noteq> 0" and nowrap: "unat x + unat al \<le> 2 ^ 64"
  defines "pad \<equiv> (if x mod al \<noteq> 0 then al - x mod al else 0)"
  shows "unat (x + pad) = align_nat (unat x) (unat al)"
proof (cases "x mod al = 0")
  case True
  then have "unat al dvd unat x"
    by (metis dvd_eq_mod_eq_0 unat_0 unat_mod)
  with True al show ?thesis
    by (simp add: pad_def align_nat_idem unat_eq_iff)
next
  case False
  let ?r = "unat x mod unat al"
  have r: "0 < ?r" "?r < unat al"
    using False al by (auto simp: unat_eq_iff unat_mod)
  have "unat (al - x mod al) = unat al - ?r"
    using r by (subst unat_sub) (simp_all add: word_le_nat_alt unat_mod)
  then have "unat (x + pad) = unat x + (unat al - ?r)"
    using False r nowrap by (simp add: pad_def unat_add_less)
  also have "\<dots> = align_nat (unat x) (unat al)"
  proof -
    define q where "q = unat x div unat al"
    have x: "unat x = q * unat al + ?r" by (simp add: q_def)
    have "(unat x + (unat al - 1)) div unat al = q + 1"
      by (subst x, rule div_nat_eqI) (use r in \<open>simp_all add: algebra_simps\<close>)
    then show ?thesis using r x by (simp add: align_nat_def algebra_simps)
  qed
  finally show ?thesis .
qed

lemma hole_end_minus:
  assumes "hole_ok h" and "unat x \<le> hend h"
  shows "unat (hole_offset h + hole_size h - x) = hend h - unat x"
  using assms by (subst unat_sub) (simp_all add: word_le_nat_alt hole_ok_unat_end)

lemma va_fit_bottom_sound:
  assumes ok: "hole_ok h" and al: "al \<noteq> 0" and sz: "sz \<noteq> 0"
    and nowrap: "hstart h + unat al \<le> 2 ^ 64" 
    and fit: "va_fit_bottom sz al 0 h = Some off"
  shows "hstart h \<le> unat off" and "unat off + unat sz \<le> hend h" and "unat al dvd unat off"
proof -
  let ?pad = "if hole_offset h mod al \<noteq> 0 then al - hole_offset h mod al else 0"
  have off: "off = hole_offset h + ?pad"
    and c1: "\<not> off \<ge> hole_offset h + hole_size h"
    and c2: "\<not> sz > (hole_offset h + hole_size h) - off"
    using fit by (auto simp: va_fit_bottom_def Let_def split: if_splits)
  have u: "unat off = align_nat (hstart h) (unat al)"
    using nowrap unfolding off hstart_def by (rule pad_next_multiple [OF al])
  have pos: "0 < unat al" using al by (simp add: unat_eq_iff)
  show "hstart h \<le> unat off" and "unat al dvd unat off"
    using u align_nat_ge [OF pos] by simp_all
  have "unat off < hend h"
    using c1 ok by (simp add: word_le_nat_alt hole_ok_unat_end)
  then show "unat off + unat sz \<le> hend h"
    using c2 ok by (simp add: word_less_nat_alt hole_end_minus)
qed

lemma va_fit_top_sound:
  assumes ok: "hole_ok h" and al: "al \<noteq> 0"
    and fit: "va_fit_top sz al 0 h = Some off"
  shows "hstart h \<le> unat off" and "unat off + unat sz \<le> hend h" and "unat al dvd unat off"
proof -
  let ?o = "hole_offset h + hole_size h - sz"
  have off: "off = ?o - ?o mod al" and c1: "\<not> sz > hole_size h" and c2: "\<not> off < hole_offset h"
    using fit by (auto simp: va_fit_top_def Let_def split: if_splits)
  have le: "unat sz \<le> hend h" using c1 by (simp add: word_less_nat_alt hend_def)
  have o: "unat ?o = hend h - unat sz" using ok le by (rule hole_end_minus)
  have u: "unat off = unat ?o - unat ?o mod unat al"
    unfolding off by (subst unat_sub) (simp_all add: word_le_nat_alt unat_mod)
  show "hstart h \<le> unat off" using c2 by (simp add: hstart_def word_less_nat_alt)
  show "unat off + unat sz \<le> hend h" using u o le by linarith
  show "unat al dvd unat off" unfolding u by (simp add: minus_mod_eq_mult_div)
qed

lemma va_fit_base_iff:
  assumes ok: "hole_ok h" and base: "base \<noteq> 0" and nowrap: "unat base + unat sz < 2 ^ 64"
  shows "va_fit from_top sz al base h =
           (if hstart h \<le> unat base \<and> unat base + unat sz \<le> hend h then Some base else None)"
proof -
  have "hole_offset h + hole_size h < base + sz \<longleftrightarrow> hend h < unat base + unat sz"
    using nowrap ok by (simp add: word_less_nat_alt hole_ok_unat_end unat_add_less)
  moreover have "hole_offset h > base \<longleftrightarrow> unat base < hstart h"
    by (simp add: hstart_def word_less_nat_alt)
  ultimately show ?thesis
    using base by (auto simp: va_fit_def va_fit_top_def va_fit_bottom_def)
qed

lemma va_fit_bottom_complete:
  assumes ok: "hole_ok h" and al: "al \<noteq> 0" 
    and nowrap: "hstart h + unat al \<le> 2 ^ 64"
    and fit: "va_fit_bottom sz al 0 h = None" and sz: "sz \<noteq> 0"
    and x: "unat al dvd x" "hstart h \<le> x" "x + unat sz \<le> hend h"
  shows False
proof -
  let ?off = "hole_offset h +
    (if hole_offset h mod al \<noteq> 0 then al - hole_offset h mod al else 0)"
  have pos: "0 < unat al" and spos: "0 < unat sz" using al sz by (simp_all add: unat_eq_iff)
  have u: "unat ?off = align_nat (hstart h) (unat al)"
    using nowrap unfolding hstart_def by (rule pad_next_multiple [OF al])
  then have "unat ?off \<le> x" using align_nat_least [OF x(1,2) pos] by simp
  then have lt: "unat ?off < hend h" using x(3) spos by linarith
  have c: "?off \<ge> hole_offset h + hole_size h \<or> sz > (hole_offset h + hole_size h) - ?off"
    using fit by (auto simp: va_fit_bottom_def Let_def split: if_splits)
  moreover have "\<not> ?off \<ge> hole_offset h + hole_size h"
    using lt ok by (simp only: word_le_nat_alt hole_ok_unat_end not_le)
  ultimately have "hend h - unat ?off < unat sz"
    using lt ok hole_end_minus [OF ok, of ?off] by (simp only: word_less_nat_alt) simp
  with \<open>unat ?off \<le> x\<close> x(3) show False by linarith
qed

lemma top_start_greatest:
  assumes ok: "hole_ok h" and x: "unat al dvd x" "x + unat sz \<le> hend h"
  shows "x \<le> unat (let e = hole_offset h + hole_size h - sz in e - e mod al)"
proof -
  let ?o = "hole_offset h + hole_size h - sz"
  have o: "unat ?o = hend h - unat sz" using ok x(2) by (intro hole_end_minus) simp_all
  have "unat (?o - ?o mod al) = unat ?o - unat ?o mod unat al"
    by (subst unat_sub) (simp_all add: word_le_nat_alt unat_mod)
  also have "\<dots> = unat ?o div unat al * unat al" by (simp add: minus_mod_eq_div_mult)
  finally have u: "unat (?o - ?o mod al) = unat ?o div unat al * unat al" .
  have "x div unat al * unat al \<le> unat ?o div unat al * unat al"
    using x(2) o by (intro mult_le_mono1 div_le_mono) simp
  moreover have "x div unat al * unat al = x" using x(1) by simp
  ultimately show ?thesis using u by (simp add: Let_def)
qed

lemma va_fit_top_complete:
  assumes ok: "hole_ok h" and al: "al \<noteq> 0"
    and fit: "va_fit_top sz al 0 h = None"
    and x: "unat al dvd x" "hstart h \<le> x" "x + unat sz \<le> hend h"
  shows False
proof -
  have "unat sz \<le> unat (hole_size h)" using x by (simp add: hend_def hstart_def)
  then have "unat (let e = hole_offset h + hole_size h - sz in e - e mod al) < hstart h"
    using fit by (auto simp: va_fit_top_def Let_def word_less_nat_alt hstart_def split: if_splits)
  then show False using top_start_greatest [OF ok x(1,3)] x(2) by simp
qed

text \<open>Within a hole the bottom search takes the lowest start, the top search the highest.\<close>

lemma va_fit_extremal_in_hole:
  assumes ok: "hole_ok h" and al: "al \<noteq> 0" and nowrap: "hstart h + unat al \<le> 2 ^ 64"
    and fit: "va_fit from_top sz al 0 h = Some off"
    and x: "unat al dvd x" "hstart h \<le> x" "x + unat sz \<le> hend h"
  shows "if from_top then x \<le> unat off else unat off \<le> x"
proof (cases from_top)
  case True
  then have "off = (let e = hole_offset h + hole_size h - sz in e - e mod al)"
    using fit by (auto simp: va_fit_def va_fit_top_def Let_def split: if_splits)
  with True top_start_greatest [OF ok x(1,3)] show ?thesis by simp
next
  case False
  then have "unat off = align_nat (hstart h) (unat al)"
    using fit nowrap pad_next_multiple [OF al, of "hole_offset h"]
    by (auto simp: va_fit_def va_fit_bottom_def Let_def hstart_def split: if_splits)
  moreover have "0 < unat al" using al by (simp add: unat_eq_iff)
  ultimately show ?thesis using False align_nat_least [OF x(1,2)] by simp
qed

section \<open>Finding a range\<close>

lemma hole_disjoint_free:
  assumes "wf_holes (pre @ h # post)"
  shows "{hstart h..<hend h} \<inter> free_set (pre @ post) = {}"
proof -
  have "{hstart h..<hend h} \<inter> {hstart g..<hend g} = {}" if "g \<in> set (pre @ post)" for g
  proof -
    have "hend h < hstart g \<or> hend g < hstart h"
      using assms that by (auto simp: wf_holes_append wf_holes_Cons)
    then show ?thesis by auto
  qed
  then show ?thesis unfolding free_set_def by blast
qed

lemma replace_hole:
  assumes wf: "wf_holes (pre @ h # post)"
    and parts: "wf_holes parts" "list_all (hole_within h) parts"
    and cut: "free_set parts = {hstart h..<hend h} - R" and R: "R \<subseteq> {hstart h..<hend h}"
  shows "wf_holes (pre @ parts @ post)"
    and "free_set (pre @ parts @ post) = free_set (pre @ h # post) - R"
proof -
  have "\<forall>p\<in>set parts. hstart h \<le> hstart p \<and> hend p \<le> hend h"
    using parts(2) by (simp add: list_all_iff hole_within_def)
  then show "wf_holes (pre @ parts @ post)"
    using wf parts(1) by (fastforce simp: wf_holes_append wf_holes_Cons)
  have "free_set (pre @ post) \<inter> R = {}"
    using hole_disjoint_free [OF wf] R by blast
  then show "free_set (pre @ parts @ post) = free_set (pre @ h # post) - R"
    using cut by auto
qed

text \<open>A range of free addresses lies in one hole.\<close>

lemma free_range_in_hole:
  assumes wf: "wf_holes hs" and sub: "{a..<b} \<subseteq> free_set hs" and ne: "a < b"
  shows "\<exists>h\<in>set hs. hstart h \<le> a \<and> b \<le> hend h"
proof -
  from sub ne have "a \<in> free_set hs" by auto
  then obtain h where h: "h \<in> set hs" "hstart h \<le> a" "a < hend h"
    by (auto simp: free_set_def)
  have "b \<le> hend h"
  proof (rule ccontr)
    assume "\<not> b \<le> hend h"
    with h sub have "hend h \<in> free_set hs" by auto
    then obtain g where g: "g \<in> set hs" "hstart g \<le> hend h" "hend h < hend g"
      by (auto simp: free_set_def)
    have "\<forall>x\<in>set hs. \<forall>y\<in>set hs. x = y \<or> hend x < hstart y \<or> hend y < hstart x"
      using wf by (induction hs) (auto simp: wf_holes_Cons)
    with g h have "h = g \<or> hend h < hstart g \<or> hend g < hstart h" by blast
    with g h show False by auto
  qed
  with h show ?thesis by blast
qed

text \<open>A request the arithmetic of the code can represent.\<close>

definition va_len :: "amdgpu_bo_va_mgr \<Rightarrow> u64 \<Rightarrow> nat" where
  "va_len mgr sz = align_nat (unat sz) (unat (va_alignment mgr))"

definition va_align :: "amdgpu_bo_va_mgr \<Rightarrow> u64 \<Rightarrow> nat" where
  "va_align mgr al = max (unat al) (unat (va_alignment mgr))"

definition va_request_ok :: "amdgpu_bo_va_mgr \<Rightarrow> u64 \<Rightarrow> u64 \<Rightarrow> u64 \<Rightarrow> bool" where
  "va_request_ok mgr sz al base \<longleftrightarrow>
     sz \<noteq> 0 \<and> unat sz + unat (va_alignment mgr) \<le> 2 ^ 64
     \<and> (if base \<noteq> 0 then unat base + va_len mgr sz < 2 ^ 64
         else unat (va_max mgr) + va_align mgr al \<le> 2 ^ 64)"

lemma wf_mgr_hole:
  assumes "wf_mgr mgr" and "h \<in> set (va_holes mgr)"
  shows "hole_ok h" and "hend h \<le> unat (va_max mgr)"
  using assms by (auto simp: wf_mgr_def wf_holes_def list_all_iff)

lemma wf_mgr_align:
  assumes "wf_mgr mgr"
  shows "0 < unat (va_alignment mgr)" and "MAX2 al (ucast (va_alignment mgr)) \<noteq> 0"
    and "unat (MAX2 al (ucast (va_alignment mgr))) = va_align mgr al"
proof -
  show pos: "0 < unat (va_alignment mgr)"
    using assms by (auto simp: wf_mgr_def intro: pow2_pos)
  show "unat (MAX2 al (ucast (va_alignment mgr))) = va_align mgr al"
    by (simp add: unat_MAX2 va_align_def)
  with pos show "MAX2 al (ucast (va_alignment mgr)) \<noteq> 0"
    by (auto simp: va_align_def max_def split: if_splits)
qed

lemma va_request_size:
  assumes "wf_mgr mgr" and "va_request_ok mgr sz al base"
  shows "unat (ALIGN64 sz (va_alignment mgr)) = va_len mgr sz"
    and "ALIGN64 sz (va_alignment mgr) \<noteq> 0" and "0 < va_len mgr sz"
proof -
  show len: "unat (ALIGN64 sz (va_alignment mgr)) = va_len mgr sz"
    using assms by (simp add: va_len_def wf_mgr_def va_request_ok_def unat_ALIGN64)
  have "0 < unat sz" using assms(2) by (simp add: va_request_ok_def unat_eq_iff)
  also have "\<dots> \<le> va_len mgr sz"
    unfolding va_len_def by (rule align_nat_ge [OF wf_mgr_align(1) [OF assms(1)]])
  finally show "0 < va_len mgr sz" .
  with len show "ALIGN64 sz (va_alignment mgr) \<noteq> 0" by auto
qed

lemma va_fit_sound:
  assumes wf: "wf_mgr mgr" and req: "va_request_ok mgr sz al base"
    and h: "h \<in> set (va_holes mgr)"
    and fit: "va_fit from_top (ALIGN64 sz (va_alignment mgr))
                (MAX2 al (ucast (va_alignment mgr))) base h = Some off"
  shows "hstart h \<le> unat off \<and> unat off + va_len mgr sz \<le> hend h
         \<and> (if base \<noteq> 0 then off = base else va_align mgr al dvd unat off)"
proof (cases "base = 0")
  case True
  note a = wf_mgr_align(1) [OF wf] wf_mgr_align(2,3) [OF wf, where al = al] and s = va_request_size [OF wf req]
    and hk = wf_mgr_hole [OF wf h]
  have "hstart h + unat (MAX2 al (ucast (va_alignment mgr))) \<le> 2 ^ 64"
    using req True hk hole_ok_less [OF hk(1)] a(3) by (simp add: va_request_ok_def)
  then show ?thesis
    using fit True va_fit_bottom_sound [OF hk(1) a(2) s(2)] va_fit_top_sound [OF hk(1) a(2), of "ALIGN64 sz (va_alignment mgr)"] a(3) s(1)
    by (auto simp: va_fit_def split: if_splits)
next
  case False
  then show ?thesis
    using fit req va_fit_base_iff [OF wf_mgr_hole(1) [OF wf h] False,
        of "ALIGN64 sz (va_alignment mgr)"] va_request_size(1) [OF wf req]
    by (auto simp: va_request_ok_def split: if_splits)
qed

lemma va_fit_complete:
  assumes wf: "wf_mgr mgr" and req: "va_request_ok mgr sz al base"
    and h: "h \<in> set (va_holes mgr)"
    and fit: "va_fit from_top (ALIGN64 sz (va_alignment mgr))
                (MAX2 al (ucast (va_alignment mgr))) base h = None"
    and x: "hstart h \<le> x" "x + va_len mgr sz \<le> hend h"
      "if base \<noteq> 0 then x = unat base else va_align mgr al dvd x"
  shows False
proof (cases "base = 0")
  case True
  note a = wf_mgr_align(1) [OF wf] wf_mgr_align(2,3) [OF wf, where al = al] and s = va_request_size [OF wf req]
    and hk = wf_mgr_hole [OF wf h]
  have "hstart h + unat (MAX2 al (ucast (va_alignment mgr))) \<le> 2 ^ 64"
    using req True hk hole_ok_less [OF hk(1)] a(3) by (simp add: va_request_ok_def)
  then show ?thesis
    using fit True x a(3) s(1) va_fit_bottom_complete [OF hk(1) a(2) _ _ s(2), of x]
      va_fit_top_complete [OF hk(1) a(2), of "ALIGN64 sz (va_alignment mgr)" x]
    by (auto simp: va_fit_def split: if_splits)
next
  case False
  then show ?thesis
    using fit req x va_fit_base_iff [OF wf_mgr_hole(1) [OF wf h] False,
        of "ALIGN64 sz (va_alignment mgr)"] va_request_size(1) [OF wf req]
    by (auto simp: va_request_ok_def split: if_splits)
qed

lemma va_fit_extremal:
  assumes wf: "wf_mgr mgr" and req: "va_request_ok mgr sz al base"
    and h: "h \<in> set (va_holes mgr)"
    and fit: "va_fit from_top (ALIGN64 sz (va_alignment mgr))
                (MAX2 al (ucast (va_alignment mgr))) base h = Some off"
    and x: "hstart h \<le> x" "x + va_len mgr sz \<le> hend h"
      "if base \<noteq> 0 then x = unat base else va_align mgr al dvd x"
  shows "if from_top then x \<le> unat off else unat off \<le> x"
proof (cases "base = 0")
  case True
  note a = wf_mgr_align(2,3) [OF wf, where al = al] and s = va_request_size [OF wf req]
    and hk = wf_mgr_hole [OF wf h]
  have "hstart h + unat (MAX2 al (ucast (va_alignment mgr))) \<le> 2 ^ 64"
    using req True hk hole_ok_less [OF hk(1)] a(2) by (simp add: va_request_ok_def)
  then show ?thesis
    using va_fit_extremal_in_hole [OF hk(1) a(1) _ fit [unfolded True], of x] x True a(2) s(1) by simp
next
  case False
  then show ?thesis using va_fit_sound [OF wf req h fit] x(3) by simp
qed

text \<open>Cutting the chosen range out of the hole that was found.\<close>

lemma find_va_cut:
  assumes wf: "wf_mgr mgr" and hs: "va_holes mgr = pre @ h # post"
    and in_hole: "hstart h \<le> unat off" "unat off + n \<le> hend h"
    and n: "unat sz = n" "0 < n"
    and sub: "amdgpu_vamgr_subtract_hole h off (off + sz) sc = (ret, parts, sc')"
  shows "ret = OK \<and> wf_mgr (mgr\<lparr>va_holes := pre @ parts @ post\<rparr>)
           \<and> {unat off..<unat off + n} \<subseteq> free_set (va_holes mgr)
           \<and> free_set (pre @ parts @ post) = free_set (va_holes mgr) - {unat off..<unat off + n}
         \<or> ret = Err ENOMEM \<and> parts = [h] \<and> calloc_next sc = (False, sc')"
proof -
  have hk: "hole_ok h" "hend h \<le> unat (va_max mgr)"
    using wf_mgr_hole [OF wf, of h] hs by auto
  have e: "unat (off + sz) = unat off + n"
    using in_hole hk n by (subst unat_add_less) (auto simp: hole_ok_def)
  have R: "{unat off..<unat off + n} \<subseteq> {hstart h..<hend h}" using in_hole by auto
  have w: "wf_holes (pre @ h # post)" using wf hs by (simp add: wf_mgr_def)
  have "unat off < unat (off + sz)" "unat (off + sz) \<le> hend h" using e in_hole n by auto
  from subtract_hole_spec [OF hk(1) in_hole(1) this sub]
  consider (ok) "ret = OK" "wf_holes parts" "list_all (hole_within h) parts"
      "free_set parts = {hstart h..<hend h} - {unat off..<unat off + n}"
    | (err) "ret = Err ENOMEM" "parts = [h]" using e by auto
  then show ?thesis
  proof cases
    case ok
    note r = replace_hole [OF w ok(2,3,4) R]
    have "hend p \<le> unat (va_max mgr)" if "p \<in> set parts" for p
      using ok(3) hk(2) that by (auto simp: list_all_iff hole_within_def)
    moreover have "hend p \<le> unat (va_max mgr)" if "p \<in> set (pre @ post)" for p
      using wf_mgr_hole(2) [OF wf, of p] hs that by auto
    ultimately have "wf_mgr (mgr\<lparr>va_holes := pre @ parts @ post\<rparr>)"
      using r(1) wf by (auto simp: wf_mgr_def list_all_iff)
    moreover have "{unat off..<unat off + n} \<subseteq> free_set (va_holes mgr)"
      using R unfolding hs free_set_simps by blast
    ultimately show ?thesis using ok(1) r(2) hs by simp
  next
    case err
    then show ?thesis
      using sub
      by (auto simp: amdgpu_vamgr_subtract_hole_def split: if_splits prod.splits bool.splits)
  qed
qed

text \<open>The four ways \<open>amdgpu_vamgr_find_va\<close> can end.\<close>

definition find_va_post ::
    "amdgpu_bo_va_mgr \<Rightarrow> u64 \<Rightarrow> u64 \<Rightarrow> u64 \<Rightarrow> u64 \<Rightarrow> alloc_script
     \<Rightarrow> rc \<times> u64 \<times> amdgpu_bo_va_mgr \<times> alloc_script \<Rightarrow> bool" where
  "find_va_post mgr sz al base out sc res \<longleftrightarrow>
     (case res of (ret, off, mgr', sc') \<Rightarrow>
        if \<not> va_align mgr al dvd unat base then
          ret = Err EINVAL \<and> off = out \<and> mgr' = mgr \<and> sc' = sc
        else if ret = OK then
          wf_mgr mgr' \<and> va_align mgr al dvd unat off \<and> (base \<noteq> 0 \<longrightarrow> off = base)
          \<and> {unat off..<unat off + va_len mgr sz} \<subseteq> free_set (va_holes mgr)
          \<and> free_set (va_holes mgr')
              = free_set (va_holes mgr) - {unat off..<unat off + va_len mgr sz}
          \<and> va_max mgr' = va_max mgr \<and> va_alignment mgr' = va_alignment mgr
        else ret = Err ENOMEM \<and> mgr' = mgr
          \<and> (calloc_next sc = (False, sc')
             \<or> off = out \<and> sc' = sc
               \<and> (\<forall>x. (if base \<noteq> 0 then x = unat base else va_align mgr al dvd x) \<longrightarrow>
                      \<not> {x..<x + va_len mgr sz} \<subseteq> free_set (va_holes mgr))))"

lemma va_choose_None_no_range:
  assumes wf: "wf_mgr mgr" and req: "va_request_ok mgr sz al base"
    and none: "va_choose from_top (ALIGN64 sz (va_alignment mgr))
                 (MAX2 al (ucast (va_alignment mgr))) base (va_holes mgr) = None"
    and x: "if base \<noteq> 0 then x = unat base else va_align mgr al dvd x"
  shows "\<not> {x..<x + va_len mgr sz} \<subseteq> free_set (va_holes mgr)"
proof
  assume sub: "{x..<x + va_len mgr sz} \<subseteq> free_set (va_holes mgr)"
  obtain h where h: "h \<in> set (va_holes mgr)" "hstart h \<le> x" "x + va_len mgr sz \<le> hend h"
    using free_range_in_hole [OF _ sub] wf va_request_size(3) [OF wf req] by (auto simp: wf_mgr_def)
  moreover have "va_fit from_top (ALIGN64 sz (va_alignment mgr))
      (MAX2 al (ucast (va_alignment mgr))) base h = None"
    using none h(1) by (simp add: va_choose_None list_all_iff)
  ultimately show False using va_fit_complete [OF wf req] x by blast
qed

lemma va_choose_extremal:
  assumes wf: "wf_mgr mgr" and req: "va_request_ok mgr sz al base"
    and ch: "va_choose from_top (ALIGN64 sz (va_alignment mgr))
               (MAX2 al (ucast (va_alignment mgr))) base (va_holes mgr) = Some (pre, h, off, post)"
    and x: "if base \<noteq> 0 then x = unat base else va_align mgr al dvd x"
    and free: "{x..<x + va_len mgr sz} \<subseteq> free_set (va_holes mgr)"
  shows "if from_top then x \<le> unat off else unat off \<le> x"
proof -
  from va_choose_Some [OF ch] have hs: "va_holes mgr = pre @ h # post"
    and fit: "va_fit from_top (ALIGN64 sz (va_alignment mgr))
                (MAX2 al (ucast (va_alignment mgr))) base h = Some off" by auto
  have whs: "wf_holes (pre @ h # post)" using wf hs by (simp add: wf_mgr_def)
  obtain g where g: "g \<in> set (va_holes mgr)" "hstart g \<le> x" "x + va_len mgr sz \<le> hend g"
    using free_range_in_hole [OF _ free] wf va_request_size(3) [OF wf req] by (auto simp: wf_mgr_def)
  have h: "h \<in> set (va_holes mgr)" using hs by simp
  have "g \<notin> set (if from_top then pre else post)"
    using va_choose_passed [OF ch] va_fit_complete [OF wf req g(1) _ g(2,3) x, of from_top]
    by (cases from_top) (auto simp: list_all_iff)
  then consider "g = h" | "g \<in> set (if from_top then post else pre)"
    using g(1) hs by (auto split: if_splits)
  then show ?thesis
  proof cases
    case 1
    then show ?thesis using va_fit_extremal [OF wf req h fit _ _ x] g by simp
  next
    case 2
    have "hstart h \<le> unat off" "unat off + va_len mgr sz \<le> hend h"
      using va_fit_sound [OF wf req h fit] by auto
    moreover have "if from_top then hend g < hstart h else hend h < hstart g"
      using 2 whs by (auto simp: wf_holes_append wf_holes_Cons split: if_splits)
    ultimately show ?thesis using g by (auto split: if_splits)
  qed
qed

lemma find_va_correct:
  assumes wf: "wf_mgr mgr" and req: "va_request_ok mgr sz al base"
  obtains res where "amdgpu_vamgr_find_va mgr sz al base from_top out sc = Ret res"
    and "find_va_post mgr sz al base out sc res"
proof -
  let ?al = "MAX2 al (ucast (va_alignment mgr))" and ?sz = "ALIGN64 sz (va_alignment mgr)"
  note a = wf_mgr_align(2,3) [OF wf, where al = al] and s = va_request_size [OF wf req]
  have dvd: "base mod ?al = 0 \<longleftrightarrow> va_align mgr al dvd unat base"
    by (simp add: unat_eq_iff unat_mod a(2) dvd_eq_mod_eq_0)
  consider (einval) "base mod ?al \<noteq> 0"
    | (nofit) "base mod ?al = 0" "va_choose from_top ?sz ?al base (va_holes mgr) = None"
    | (fit) pre h off post where "base mod ?al = 0"
        "va_choose from_top ?sz ?al base (va_holes mgr) = Some (pre, h, off, post)"
    by (metis option.exhaust prod_cases4)
  then show thesis
  proof cases
    case einval
    then show thesis
      using a(1) dvd by (intro that) (auto simp: amdgpu_vamgr_find_va_def find_va_post_def)
  next
    case nofit
    then show thesis
      using a(1) dvd va_choose_None_no_range [OF wf req nofit(2)]
      by (intro that) (auto simp: amdgpu_vamgr_find_va_def find_va_post_def)
  next
    case fit
    from va_choose_Some [OF fit(2)] have hs: "va_holes mgr = pre @ h # post"
      and vf: "va_fit from_top ?sz ?al base h = Some off" by auto
    from hs have "h \<in> set (va_holes mgr)" by simp
    note f' = va_fit_sound [OF wf req this vf]
    then have f: "hstart h \<le> unat off" "unat off + va_len mgr sz \<le> hend h"
      "if base \<noteq> 0 then off = base else va_align mgr al dvd unat off" by auto
    obtain ret parts sc' where sub: "amdgpu_vamgr_subtract_hole h off (off + ?sz) sc = (ret, parts, sc')"
      by (metis prod_cases3)
    have "amdgpu_vamgr_find_va mgr sz al base from_top out sc
        = Ret (ret, off, mgr\<lparr>va_holes := pre @ parts @ post\<rparr>, sc')"
      using fit sub a(1) by (simp add: amdgpu_vamgr_find_va_def)
    moreover from find_va_cut [OF wf hs f(1,2) s(1,3) sub]
    have "find_va_post mgr sz al base out sc (ret, off, mgr\<lparr>va_holes := pre @ parts @ post\<rparr>, sc')"
      using f(3) fit(1) dvd hs by (auto simp: find_va_post_def split: if_splits)
    ultimately show thesis by (rule that)
  qed
qed

section \<open>Giving a range back\<close>

text \<open>
  A range that is not free splits the holes at its start: those above lie behind its end, those
  below end before it.
\<close>

lemma split_at_range:
  assumes wf: "wf_holes hs" and disj: "{unat va..<unat va + n} \<inter> free_set hs = {}" and n: "0 < n"
  shows "\<forall>h\<in>set (takeWhile (\<lambda>h. \<not> hole_offset h < va) hs). unat va + n \<le> hstart h"
    and "\<forall>h\<in>set (dropWhile (\<lambda>h. \<not> hole_offset h < va) hs). hend h \<le> unat va"
proof -
  let ?p = "\<lambda>h. \<not> hole_offset h < va"
  have p: "?p h \<longleftrightarrow> unat va \<le> hstart h" for h
    by (simp add: hstart_def word_less_nat_alt not_less)
  have sep: "unat va + n \<le> hstart h \<or> hend h \<le> unat va" if "h \<in> set hs" for h
  proof -
    have "{unat va..<unat va + n} \<inter> {hstart h..<hend h} = {}"
      using disj that unfolding free_set_def by blast
    moreover have "hstart h < hend h"
      using wf that by (auto simp: wf_holes_def list_all_iff intro: hole_ok_less)
    ultimately show ?thesis using n by auto
  qed
  have "unat va \<le> hstart h \<and> hstart h < hend h" if "h \<in> set (takeWhile ?p hs)" for h
    using set_takeWhileD [OF that] wf p
    by (auto simp: wf_holes_def list_all_iff intro: hole_ok_less)
  then show "\<forall>h\<in>set (takeWhile ?p hs). unat va + n \<le> hstart h"
    using sep set_takeWhileD by fastforce
  show "\<forall>h\<in>set (dropWhile ?p hs). hend h \<le> unat va"
  proof
    fix h assume h: "h \<in> set (dropWhile ?p hs)"
    have "\<exists>g\<in>set hs. hstart g < unat va \<and> (h = g \<or> hend h < hstart g)"
      using h wf
      by (induction hs) (auto simp: wf_holes_Cons hstart_def word_less_nat_alt split: if_splits)
    with sep [of h] h n show "hend h \<le> unat va"
      by (auto dest!: set_dropWhileD)
  qed
qed

text \<open>
  Adding the range \<open>[va, va + n)\<close> to the hole list: a new hole, the hole above extended down, the
  hole below extended up, or both merged into one.
\<close>

lemma give_back_new:
  assumes wf: "wf_holes (upper @ lower)" and n: "0 < n" "unat sz = n"
    and fits: "unat va + n < 2 ^ 64"
    and up: "\<forall>h\<in>set upper. unat va + n \<le> hstart h"
    and low: "\<forall>h\<in>set lower. hend h \<le> unat va"
    and u: "\<forall>h\<in>set upper. unat va + n \<noteq> hstart h"
      "\<forall>h\<in>set lower. hend h \<noteq> unat va"
  shows "wf_holes (upper @ \<lparr>hole_offset = va, hole_size = sz\<rparr> # lower)"
proof -
  have "hole_ok \<lparr>hole_offset = va, hole_size = sz\<rparr>"
    using n fits by (auto simp: hole_ok_def hend_def unat_eq_iff)
  then show ?thesis
    using wf up low u n by (fastforce simp: wf_holes_append wf_holes_Cons hstart_def hend_def)
qed

lemma give_back_upper:
  assumes wf: "wf_holes (upper @ lower)" and n: "0 < n" "unat sz = n"
    and fits: "unat va + n < 2 ^ 64"
    and up: "\<forall>h\<in>set upper. unat va + n \<le> hstart h"
    and low: "\<forall>h\<in>set lower. hend h \<le> unat va"
    and u: "upper = us @ [u]"
      "hstart u = unat va + n"
      "\<forall>h\<in>set lower. hend h \<noteq> unat va"
  shows "wf_holes (us @ u\<lparr>hole_offset := va, hole_size := hole_size u + sz\<rparr> # lower)
      \<and> hend (u\<lparr>hole_offset := va, hole_size := hole_size u + sz\<rparr>) = hend u"
proof -
  have ok: "hole_ok u" using wf u by (simp add: wf_holes_append wf_holes_Cons)
  have s: "unat (hole_size u + sz) = unat (hole_size u) + n"
    using ok u n by (subst unat_add_less) (auto simp: hole_ok_def hend_def hstart_def)
  then have e: "hend (u\<lparr>hole_offset := va, hole_size := hole_size u + sz\<rparr>) = hend u"
    using u by (simp add: hend_def hstart_def)
  then have "hole_ok (u\<lparr>hole_offset := va, hole_size := hole_size u + sz\<rparr>)"
    using ok s n by (auto simp: hole_ok_def unat_eq_iff)
  with e show ?thesis
    using wf up low u n by (fastforce simp: wf_holes_append wf_holes_Cons hstart_def)
qed

lemma give_back_lower:
  assumes wf: "wf_holes (upper @ lower)" and n: "0 < n" "unat sz = n"
    and fits: "unat va + n < 2 ^ 64"
    and up: "\<forall>h\<in>set upper. unat va + n \<le> hstart h"
    and low: "\<forall>h\<in>set lower. hend h \<le> unat va"
    and u: "lower = l # ls"
      "hend l = unat va"
      "\<forall>h\<in>set upper. unat va + n \<noteq> hstart h"
  shows "wf_holes (upper @ l\<lparr>hole_size := hole_size l + sz\<rparr> # ls)
      \<and> hend (l\<lparr>hole_size := hole_size l + sz\<rparr>) = unat va + n"
proof -
  have ok: "hole_ok l" using wf u by (simp add: wf_holes_append wf_holes_Cons)
  have s: "unat (hole_size l + sz) = unat (hole_size l) + n"
    using ok u n fits by (subst unat_add_less) (auto simp: hole_ok_def hend_def)
  then have e: "hend (l\<lparr>hole_size := hole_size l + sz\<rparr>) = unat va + n"
    using u by (simp add: hend_def)
  then have "hole_ok (l\<lparr>hole_size := hole_size l + sz\<rparr>)"
    using s n fits by (auto simp: hole_ok_def unat_eq_iff)
  with e show ?thesis
    using wf up low u n by (fastforce simp: wf_holes_append wf_holes_Cons hstart_def)
qed

lemma give_back_merge:
  assumes wf: "wf_holes (upper @ lower)" and n: "0 < n" "unat sz = n"
    and fits: "unat va + n < 2 ^ 64"
    and up: "\<forall>h\<in>set upper. unat va + n \<le> hstart h"
    and low: "\<forall>h\<in>set lower. hend h \<le> unat va"
    and u: "upper = us @ [u]"
      "hstart u = unat va + n"
      "lower = l # ls"
      "hend l = unat va"
  shows "wf_holes (us @ l\<lparr>hole_size := hole_size l + (hole_size u + sz)\<rparr> # ls)
      \<and> hend (l\<lparr>hole_size := hole_size l + (hole_size u + sz)\<rparr>) = hend u"
proof -
  have ok: "hole_ok l" "hole_ok u" using wf u by (simp_all add: wf_holes_append wf_holes_Cons)
  have s1: "unat (hole_size u + sz) = unat (hole_size u) + n"
    using ok u n by (subst unat_add_less) (auto simp: hole_ok_def hend_def hstart_def)
  have s: "unat (hole_size l + (hole_size u + sz)) = unat (hole_size l) + unat (hole_size u) + n"
    using ok u n s1 by (subst unat_add_less) (auto simp: hole_ok_def hend_def hstart_def)
  then have e: "hend (l\<lparr>hole_size := hole_size l + (hole_size u + sz)\<rparr>) = hend u"
    using u by (simp add: hend_def hstart_def)
  then have "hole_ok (l\<lparr>hole_size := hole_size l + (hole_size u + sz)\<rparr>)"
    using ok s n by (auto simp: hole_ok_def unat_eq_iff)
  with e show ?thesis
    using wf up low u n by (fastforce simp: wf_holes_append wf_holes_Cons hstart_def)
qed

lemma last_not_adjacent:
  assumes "wf_holes (us @ [u])" and "hstart u \<noteq> x" and "x \<le> hstart u"
  shows "\<forall>h\<in>set (us @ [u]). x \<noteq> hstart h"
  using assms hole_ok_less [of u] by (fastforce simp: wf_holes_append wf_holes_Cons)

lemma hd_not_adjacent:
  assumes "wf_holes (l # ls)" and "hend l \<noteq> x" and "hend l \<le> x"
  shows "\<forall>h\<in>set (l # ls). hend h \<noteq> x"
  using assms hole_ok_less [of l] by (fastforce simp: wf_holes_Cons)

text \<open>The hole list with the range added, bounded by \<open>m\<close>.\<close>

definition gave_back ::
    "amdgpu_bo_va_hole list \<Rightarrow> nat \<Rightarrow> nat \<Rightarrow> nat \<Rightarrow> amdgpu_bo_va_hole list \<Rightarrow> bool" where
  "gave_back hs m a n hs' \<longleftrightarrow>
     wf_holes hs' \<and> (\<forall>h\<in>set hs'. hend h \<le> m) \<and> free_set hs' = free_set hs \<union> {a..<a + n}"

lemma give_back_cases:
  assumes wf: "wf_holes (upper @ lower)" and n: "0 < n" "unat sz = n"
    and fits: "unat va + n \<le> m" "m < 2 ^ 64"
    and up: "\<forall>h\<in>set upper. unat va + n \<le> hstart h"
    and low: "\<forall>h\<in>set lower. hend h \<le> unat va"
    and m: "\<forall>h\<in>set (upper @ lower). hend h \<le> m"
  shows "\<lbrakk>\<forall>h\<in>set upper. unat va + n \<noteq> hstart h; \<forall>h\<in>set lower. hend h \<noteq> unat va\<rbrakk> \<Longrightarrow>
      gave_back (upper @ lower) m (unat va) n
        (upper @ \<lparr>hole_offset = va, hole_size = sz\<rparr> # lower)"
    and "\<lbrakk>upper = us @ [u]; hstart u = unat va + n; \<forall>h\<in>set lower. hend h \<noteq> unat va\<rbrakk> \<Longrightarrow>
      gave_back (upper @ lower) m (unat va) n
        (us @ u\<lparr>hole_offset := va, hole_size := hole_size u + sz\<rparr> # lower)"
    and "\<lbrakk>lower = l # ls; hend l = unat va; \<forall>h\<in>set upper. unat va + n \<noteq> hstart h\<rbrakk> \<Longrightarrow>
      gave_back (upper @ lower) m (unat va) n (upper @ l\<lparr>hole_size := hole_size l + sz\<rparr> # ls)"
    and "\<lbrakk>upper = us @ [u]; hstart u = unat va + n; lower = l # ls; hend l = unat va\<rbrakk> \<Longrightarrow>
      gave_back (upper @ lower) m (unat va) n
        (us @ l\<lparr>hole_size := hole_size l + (hole_size u + sz)\<rparr> # ls)"
proof -
  have lt: "unat va + n < 2 ^ 64" using fits by simp
  note facts = wf n lt up low
  note join = ivl_disj_un_two(3)
  {
    assume a: "\<forall>h\<in>set upper. unat va + n \<noteq> hstart h" "\<forall>h\<in>set lower. hend h \<noteq> unat va"
    show "gave_back (upper @ lower) m (unat va) n
        (upper @ \<lparr>hole_offset = va, hole_size = sz\<rparr> # lower)"
      using give_back_new [OF facts a] m fits n by (auto simp: gave_back_def hstart_def hend_def)
  next
    assume a: "upper = us @ [u]" "hstart u = unat va + n" "\<forall>h\<in>set lower. hend h \<noteq> unat va"
    have "hstart u < hend u" using wf a(1) by (intro hole_ok_less) (simp add: wf_holes_append wf_holes_Cons)
    then show "gave_back (upper @ lower) m (unat va) n
        (us @ u\<lparr>hole_offset := va, hole_size := hole_size u + sz\<rparr> # lower)"
      using give_back_upper [OF facts a] m a join [of "unat va" "hstart u" "hend u"]
      by (auto simp: gave_back_def hstart_def)
  next
    assume a: "lower = l # ls" "hend l = unat va" "\<forall>h\<in>set upper. unat va + n \<noteq> hstart h"
    have "hstart l < hend l" using wf a(1) by (intro hole_ok_less) (simp add: wf_holes_append wf_holes_Cons)
    then show "gave_back (upper @ lower) m (unat va) n (upper @ l\<lparr>hole_size := hole_size l + sz\<rparr> # ls)"
      using give_back_lower [OF facts a] m a fits join [of "hstart l" "hend l" "unat va + n"]
      by (auto simp: gave_back_def hstart_def)
  next
    assume a: "upper = us @ [u]" "hstart u = unat va + n" "lower = l # ls" "hend l = unat va"
    have "hstart l < hend l" "hstart u < hend u"
      using wf a(1,3) by (auto intro!: hole_ok_less simp: wf_holes_append wf_holes_Cons)
    then have "{hstart l..<hend u} = {hstart l..<hend l} \<union> {unat va..<unat va + n} \<union> {hstart u..<hend u}"
      using a by auto
    then show "gave_back (upper @ lower) m (unat va) n
        (us @ l\<lparr>hole_size := hole_size l + (hole_size u + sz)\<rparr> # ls)"
      using give_back_merge [OF facts a] m a
      by (auto simp: gave_back_def hstart_def)
  }
qed

text \<open>A range that may be given back: in use, inside the managed space, of non-zero size.\<close>

definition va_range_in_use :: "amdgpu_bo_va_mgr \<Rightarrow> u64 \<Rightarrow> u64 \<Rightarrow> bool" where
  "va_range_in_use mgr va sz \<longleftrightarrow>
     sz \<noteq> 0 \<and> unat sz + unat (va_alignment mgr) \<le> 2 ^ 64
     \<and> unat va + va_len mgr sz \<le> unat (va_max mgr)
     \<and> {unat va..<unat va + va_len mgr sz} \<inter> free_set (va_holes mgr) = {}"

definition free_va_post ::
    "amdgpu_bo_va_mgr \<Rightarrow> u64 \<Rightarrow> u64 \<Rightarrow> alloc_script \<Rightarrow> amdgpu_bo_va_mgr \<times> alloc_script \<Rightarrow> bool" where
  "free_va_post mgr va sz sc res \<longleftrightarrow>
     (case res of (mgr', sc') \<Rightarrow>
        wf_mgr mgr' \<and> va_max mgr' = va_max mgr \<and> va_alignment mgr' = va_alignment mgr
        \<and> free_set (va_holes mgr')
            = free_set (va_holes mgr) \<union> {unat va..<unat va + va_len mgr sz}
        \<and> (sc' = sc \<or> calloc_next sc = (True, sc'))
        \<or> mgr' = mgr \<and> calloc_next sc = (False, sc'))"

lemma gave_back_post:
  assumes wf: "wf_mgr mgr"
    and "gave_back (va_holes mgr) (unat (va_max mgr)) (unat va) (va_len mgr sz) hs'"
    and "sc' = sc \<or> calloc_next sc = (True, sc')"
  shows "free_va_post mgr va sz sc (mgr\<lparr>va_holes := hs'\<rparr>, sc')"
  using assms by (auto simp: free_va_post_def gave_back_def wf_mgr_def list_all_iff)

lemma va_range_in_use_facts:
  assumes wf: "wf_mgr mgr" and use: "va_range_in_use mgr va sz"
  shows "unat (ALIGN64 sz (va_alignment mgr)) = va_len mgr sz" and "0 < va_len mgr sz"
    and "va \<noteq> AMDGPU_INVALID_VA_ADDRESS" and "unat (va_max mgr) < 2 ^ 64"
    and "unat va + va_len mgr sz \<le> unat (va_max mgr)"
proof -
  show u: "unat (ALIGN64 sz (va_alignment mgr)) = va_len mgr sz"
    using wf use by (simp add: va_range_in_use_def wf_mgr_def unat_ALIGN64 va_len_def)
  show pos: "0 < va_len mgr sz"
    using wf use align_nat_ge [of "unat (va_alignment mgr)" "unat sz"]
    by (auto simp: va_range_in_use_def wf_mgr_def va_len_def pow2_pos unat_eq_iff)
  show m: "unat (va_max mgr) < 2 ^ 64" using unsigned_less [of "va_max mgr", where ?'a = nat] by simp
  show b: "unat va + va_len mgr sz \<le> unat (va_max mgr)"
    using use by (simp add: va_range_in_use_def)
  show "va \<noteq> AMDGPU_INVALID_VA_ADDRESS"
    using b m pos by (auto simp: AMDGPU_INVALID_VA_ADDRESS_def)
qed

lemma free_va_unfold:
  assumes "va \<noteq> AMDGPU_INVALID_VA_ADDRESS"
    and "upper = takeWhile (\<lambda>h. \<not> hole_offset h < va) (va_holes mgr)"
    and "lower = dropWhile (\<lambda>h. \<not> hole_offset h < va) (va_holes mgr)"
    and "s = ALIGN64 sz (va_alignment mgr)"
  shows "amdgpu_vamgr_free_va mgr va sz sc =
     (if upper \<noteq> [] \<and> hole_offset (last upper) = va + s then
        (if lower \<noteq> [] \<and> hole_offset (hd lower) + hole_size (hd lower) = va then
           (mgr\<lparr>va_holes := butlast upper @ (hd lower)\<lparr>hole_size :=
              hole_size (hd lower) + (hole_size (last upper) + s)\<rparr> # tl lower\<rparr>, sc)
         else (mgr\<lparr>va_holes := butlast upper @ (last upper)\<lparr>hole_offset := va,
                 hole_size := hole_size (last upper) + s\<rparr> # lower\<rparr>, sc))
      else if lower \<noteq> [] \<and> hole_offset (hd lower) + hole_size (hd lower) = va then
        (mgr\<lparr>va_holes := upper @ (hd lower)\<lparr>hole_size := hole_size (hd lower) + s\<rparr> # tl lower\<rparr>, sc)
      else (case calloc_next sc of
              (False, sc') \<Rightarrow> (mgr, sc')
            | (True, sc') \<Rightarrow>
                (mgr\<lparr>va_holes := upper @ \<lparr>hole_offset = va, hole_size = s\<rparr> # lower\<rparr>, sc')))"
  using assms(1) unfolding amdgpu_vamgr_free_va_def assms(2-4) by (simp add: Let_def)

text \<open>The comparisons of \<open>amdgpu_vamgr_free_va\<close> are those of the unbounded ends.\<close>

lemma free_va_tests:
  assumes w: "wf_holes (upper @ lower)" and n: "unat s = n"
    and fits: "unat va + n \<le> m" "m < 2 ^ 64"
  shows "(upper \<noteq> [] \<and> hole_offset (last upper) = va + s)
           \<longleftrightarrow> (upper \<noteq> [] \<and> hstart (last upper) = unat va + n)"
    and "(lower \<noteq> [] \<and> hole_offset (hd lower) + hole_size (hd lower) = va)
           \<longleftrightarrow> (lower \<noteq> [] \<and> hend (hd lower) = unat va)"
proof -
  have "unat (va + s) = unat va + n" using n fits by (subst unat_add_less) auto
  then show "(upper \<noteq> [] \<and> hole_offset (last upper) = va + s)
           \<longleftrightarrow> (upper \<noteq> [] \<and> hstart (last upper) = unat va + n)"
    by (simp add: unat_eq_iff hstart_def)
  show "(lower \<noteq> [] \<and> hole_offset (hd lower) + hole_size (hd lower) = va)
           \<longleftrightarrow> (lower \<noteq> [] \<and> hend (hd lower) = unat va)"
    using w hole_ok_unat_end [of "hd lower"]
    by (cases lower) (auto simp: unat_eq_iff wf_holes_append wf_holes_Cons)
qed

lemma free_va_correct:
  assumes wf: "wf_mgr mgr" and use: "va_range_in_use mgr va sz"
  shows "free_va_post mgr va sz sc (amdgpu_vamgr_free_va mgr va sz sc)"
proof -
  define s where "s = ALIGN64 sz (va_alignment mgr)"
  define n where "n = va_len mgr sz"
  define upper where "upper = takeWhile (\<lambda>h. \<not> hole_offset h < va) (va_holes mgr)"
  define lower where "lower = dropWhile (\<lambda>h. \<not> hole_offset h < va) (va_holes mgr)"
  note F = va_range_in_use_facts [OF wf use, folded s_def n_def]
  have hs: "va_holes mgr = upper @ lower" by (simp add: upper_def lower_def)
  have w: "wf_holes (upper @ lower)" using wf hs by (simp add: wf_mgr_def)
  have up: "\<forall>h\<in>set upper. unat va + n \<le> hstart h" and low: "\<forall>h\<in>set lower. hend h \<le> unat va"
    unfolding upper_def lower_def
    using split_at_range [of "va_holes mgr" va n] w hs use F(2)
    by (auto simp: va_range_in_use_def n_def)
  have m: "\<forall>h\<in>set (upper @ lower). hend h \<le> unat (va_max mgr)"
    using wf_mgr_hole(2) [OF wf] hs by auto
  note C = give_back_cases [OF w F(2,1,5,4) up low m]
  let ?res = "amdgpu_vamgr_free_va mgr va sz sc"
  let ?adj_up = "upper \<noteq> [] \<and> hole_offset (last upper) = va + s"
  let ?adj_low = "lower \<noteq> [] \<and> hole_offset (hd lower) + hole_size (hd lower) = va"
  have P: "free_va_post mgr va sz sc (mgr\<lparr>va_holes := hs'\<rparr>, sc')"
    if "gave_back (upper @ lower) (unat (va_max mgr)) (unat va) n hs'"
      "sc' = sc \<or> calloc_next sc = (True, sc')" for hs' sc'
    using gave_back_post [OF wf] that hs by (simp add: n_def)
  have e: "?adj_up \<longleftrightarrow> upper \<noteq> [] \<and> hstart (last upper) = unat va + n"
    "?adj_low \<longleftrightarrow> lower \<noteq> [] \<and> hend (hd lower) = unat va"
    using free_va_tests [OF w F(1,5,4)] by blast+
  have nup: "\<forall>h\<in>set upper. unat va + n \<noteq> hstart h" if "\<not> ?adj_up"
  proof (cases upper rule: rev_cases)
    case (snoc us u)
    then show ?thesis
      using that e(1) up w last_not_adjacent [of us u "unat va + n"]
      by (simp add: wf_holes_append wf_holes_Cons)
  qed simp
  have nlow: "\<forall>h\<in>set lower. hend h \<noteq> unat va" if "\<not> ?adj_low"
  proof (cases lower)
    case (Cons l ls)
    then show ?thesis
      using that e(2) low w hd_not_adjacent [of l ls "unat va"] by (simp add: wf_holes_append)
  qed simp
  have u: "upper = butlast upper @ [last upper]" if ?adj_up using that by simp
  have l: "lower = hd lower # tl lower" if ?adj_low using that by simp
  note res = free_va_unfold [OF F(3) upper_def lower_def s_def]
  show ?thesis
  proof (cases ?adj_up; cases ?adj_low)
    assume a: ?adj_up ?adj_low
    then show ?thesis using C(4) [OF u _ l] e P unfolding res by simp
  next
    assume a: ?adj_up "\<not> ?adj_low"
    then show ?thesis using C(2) [OF u _ nlow] e P unfolding res by auto
  next
    assume a: "\<not> ?adj_up" ?adj_low
    then show ?thesis using C(3) [OF l _ nup] e P unfolding res by auto
  next
    assume a: "\<not> ?adj_up" "\<not> ?adj_low"
    obtain b sc' where c: "calloc_next sc = (b, sc')" by fastforce
    note p = P [OF C(1) [OF nup [OF a(1)] nlow [OF a(2)]], of sc']
    from a have "amdgpu_vamgr_free_va mgr va sz sc = (if b
        then (mgr\<lparr>va_holes := upper @ \<lparr>hole_offset = va, hole_size = s\<rparr> # lower\<rparr>, sc')
        else (mgr, sc'))"
      unfolding res c by (simp only: if_False) simp
    then show ?thesis using p c by (cases b) (simp_all add: free_va_post_def)
  qed
qed

section \<open>Setting up and taking down\<close>

lemma vamgr_init_correct:
  assumes "no_alloc_failure sc" and "start < m" and "pow2 (ucast al :: u32)"
  obtains mgr sc' where "amdgpu_vamgr_init start m al sc = Ret (mgr, sc')"
    and "wf_mgr mgr" and "free_set (va_holes mgr) = {unat start..<unat m}"
    and "va_max mgr = m" and "va_alignment mgr = ucast al"
proof -
  obtain sc' where c: "calloc_next sc = (True, sc')"
    using assms(1) by (rule calloc_next_no_failure)
  let ?h = "\<lparr>hole_offset = start, hole_size = m - start\<rparr>"
  have lt: "unat start < unat m" using assms(2) by (simp add: word_less_nat_alt)
  have sz: "unat (m - start) = unat m - unat start"
    using lt by (subst unat_sub) (simp_all add: word_le_nat_alt)
  have e: "hend ?h = unat m" "hstart ?h = unat start" using sz lt by (simp_all add: hend_def hstart_def)
  have "unat m < 2 ^ 64" using unsigned_less [of m, where ?'a = nat] by simp
  then have "hole_ok ?h" using e lt sz by (auto simp: hole_ok_def unat_eq_iff)
  then show thesis
    using c e assms(3)
    by (intro that [of "\<lparr>va_max = m, va_holes = [?h], va_alignment = ucast al\<rparr>" sc'])
       (simp_all add: amdgpu_vamgr_init_def wf_mgr_def wf_holes_Cons)
qed

lemma vamgr_deinit_frees_all: "va_holes (amdgpu_vamgr_deinit mgr) = []"
proof -
  have "fold remove1 xs (xs @ ys) = ys" for xs ys :: "amdgpu_bo_va_hole list"
    by (induction xs) simp_all
  from this [of "va_holes mgr" "[]"] show ?thesis by (simp add: amdgpu_vamgr_deinit_def)
qed

section \<open>The hole list is determined by the free addresses\<close>

lemma hole_eqI: "hstart g = hstart h \<Longrightarrow> hend g = hend h \<Longrightarrow> g = (h :: amdgpu_bo_va_hole)"
  by (cases g; cases h) (simp add: hstart_def hend_def unat_eq_iff)

text \<open>A hole of a separated list is a maximal interval of free addresses.\<close>

lemma wf_holes_pred_not_free:
  assumes wf: "wf_holes hs" and h: "h \<in> set hs" and x: "x < hstart h" "\<forall>y. x \<le> y \<and> y < hstart h \<longrightarrow> y \<in> free_set hs"
  shows False
proof -
  from x have "{x..<hend h} \<subseteq> free_set hs"
    using h unfolding free_set_def by (auto simp: subset_eq) (metis atLeastLessThan_iff not_le)
  moreover have "x < hend h" using x(1) wf h hole_ok_less [of h]
    by (auto simp: wf_holes_def list_all_iff)
  ultimately obtain g where "g \<in> set hs" "hstart g \<le> x" "hend h \<le> hend g"
    using free_range_in_hole [OF wf] by blast
  moreover have "\<forall>a\<in>set hs. \<forall>b\<in>set hs. a = b \<or> hend a < hstart b \<or> hend b < hstart a"
    using wf by (induction hs) (auto simp: wf_holes_Cons)
  moreover have "hstart g < hend g" "hstart h < hend h"
    using wf h \<open>g \<in> set hs\<close> hole_ok_less by (auto simp: wf_holes_def list_all_iff)
  ultimately show False using h x(1) by (metis less_le_trans not_less not_less_iff_gr_or_eq)
qed

lemma free_set_bounded: "wf_holes (h # hs) \<Longrightarrow> x \<in> free_set hs \<Longrightarrow> x < hstart h"
  by (fastforce simp: wf_holes_Cons free_set_def)

lemma wf_holes_hd_unique:
  assumes "wf_holes (g # gs)" "wf_holes (h # hs)" "free_set (g # gs) = free_set (h # hs)"
  shows "g = h" and "free_set gs = free_set hs"
proof -
  have lt: "hstart g < hend g" "hstart h < hend h"
    using assms(1,2) by (simp_all add: wf_holes_Cons hole_ok_less)
  have b: "\<And>x. x \<in> free_set gs \<Longrightarrow> x < hstart g" "\<And>x. x \<in> free_set hs \<Longrightarrow> x < hstart h"
    using assms(1,2) free_set_bounded by blast+
  have 1: "hend g - 1 \<in> free_set (h # hs)" "hend h - 1 \<in> free_set (g # gs)"
    using assms(3) lt by auto
  have e: "hend g = hend h"
    using 1 b lt by (simp; fastforce)
  have "hstart g = hstart h"
  proof (rule ccontr)
    assume "hstart g \<noteq> hstart h"
    then consider "hstart g < hstart h" | "hstart h < hstart g" by linarith
    then show False
    proof cases
      case 1
      have "\<forall>y. hstart g \<le> y \<and> y < hstart h \<longrightarrow> y \<in> free_set (h # hs)"
        using assms(3)[symmetric] e lt by auto
      then show False using wf_holes_pred_not_free [OF assms(2), of h] 1 by auto
    next
      case 2
      have "\<forall>y. hstart h \<le> y \<and> y < hstart g \<longrightarrow> y \<in> free_set (g # gs)"
        using assms(3) e lt by auto
      then show False using wf_holes_pred_not_free [OF assms(1), of g] 2 by auto
    qed
  qed
  with e show "g = h" by (intro hole_eqI)
  then have "free_set (g # gs) - {hstart g..<hend g} = free_set (h # hs) - {hstart h..<hend h}"
    using assms(3) by simp
  moreover have "free_set (k # ks) - {hstart k..<hend k} = free_set ks" if "wf_holes (k # ks)" for k ks
    using free_set_bounded [OF that] by fastforce
  ultimately show "free_set gs = free_set hs" using assms(1,2) by simp
qed

lemma free_set_empty: "wf_holes hs \<Longrightarrow> free_set hs = {} \<longleftrightarrow> hs = []"
  using hole_ok_less by (cases hs) (auto simp: wf_holes_Cons)

lemma wf_holes_canonical:
  "wf_holes gs \<Longrightarrow> wf_holes hs \<Longrightarrow> free_set gs = free_set hs \<Longrightarrow> gs = hs"
proof (induction gs arbitrary: hs)
  case Nil
  then show ?case using free_set_empty [of hs] by auto
next
  case (Cons g gs)
  from Cons.prems obtain h hs' where hs: "hs = h # hs'"
    using free_set_empty [of "g # gs"] by (cases hs) auto
  note u = wf_holes_hd_unique [OF Cons.prems(1) Cons.prems(2) [unfolded hs] Cons.prems(3) [unfolded hs]]
  have "gs = hs'"
    using Cons.prems(1,2) u(2) unfolding hs wf_holes_Cons by (intro Cons.IH) blast+
  with u(1) hs show ?case by blast
qed

lemma wf_mgr_canonical:
  assumes "wf_mgr m1" "wf_mgr m2" "va_max m1 = va_max m2" "va_alignment m1 = va_alignment m2"
    and "free_set (va_holes m1) = free_set (va_holes m2)"
  shows "m1 = m2"
  using assms wf_holes_canonical by (cases m1; cases m2) (auto simp: wf_mgr_def)

section \<open>The contract of a range allocator\<close>

text \<open>
  What a client of a range allocator relies on: an allocation takes its span out of the free
  addresses, a release of a valid span in use either gives it back or loses it, and neither
  changes which spans the other handles stand for.
\<close>

locale range_allocator =
  fixes inv :: "'m \<Rightarrow> bool" and free :: "'m \<Rightarrow> nat set"
    and span :: "'m \<Rightarrow> 'r \<Rightarrow> nat set" and valid :: "'m \<Rightarrow> 'r \<Rightarrow> bool"
    and alloc :: "'m \<Rightarrow> 'r \<Rightarrow> 'm \<Rightarrow> bool" and release :: "'m \<Rightarrow> 'r \<Rightarrow> 'm \<Rightarrow> bool"
  assumes alloc_law: "\<lbrakk>inv m; alloc m r m'\<rbrakk> \<Longrightarrow>
        inv m' \<and> valid m r \<and> span m r \<subseteq> free m \<and> free m' = free m - span m r"
    and alloc_frame: "\<lbrakk>inv m; alloc m r m'\<rbrakk> \<Longrightarrow> span m' = span m \<and> valid m' = valid m"
    and release_law: "\<lbrakk>inv m; valid m r; span m r \<inter> free m = {}; release m r m'\<rbrakk> \<Longrightarrow>
        inv m' \<and> (free m' = free m \<union> span m r \<or> free m' = free m)"
    and release_frame: "\<lbrakk>inv m; valid m r; span m r \<inter> free m = {}; release m r m'\<rbrakk> \<Longrightarrow>
        span m' = span m \<and> valid m' = valid m"
begin

definition live_ok :: "'m \<Rightarrow> 'r list \<Rightarrow> bool" where
  "live_ok m rs \<longleftrightarrow> inv m \<and> (\<forall>r\<in>set rs. valid m r \<and> span m r \<inter> free m = {})
     \<and> sorted_wrt (\<lambda>r r'. span m r \<inter> span m r' = {}) rs"

lemma live_ok_Nil: "inv m \<Longrightarrow> live_ok m []"
  by (simp add: live_ok_def)

lemma live_alloc:
  assumes "live_ok m rs" and "alloc m r m'"
  shows "live_ok m' (r # rs)"
proof -
  from assms have inv: "inv m" by (simp add: live_ok_def)
  note a = alloc_law [OF inv assms(2)] alloc_frame [OF inv assms(2)]
  from assms(1) a have "\<forall>r'\<in>set rs. span m r \<inter> span m r' = {}"
    unfolding live_ok_def by blast
  with assms(1) a show ?thesis by (auto simp: live_ok_def)
qed

lemma live_release:
  assumes "live_ok m (rs1 @ r # rs2)" and "release m r m'"
  shows "live_ok m' (rs1 @ rs2)"
proof -
  from assms have r: "inv m" "valid m r" "span m r \<inter> free m = {}" by (auto simp: live_ok_def)
  note a = release_law [OF r assms(2)] release_frame [OF r assms(2)]
  have d: "span m r' \<inter> (free m \<union> span m r) = {}" if "r' \<in> set (rs1 @ rs2)" for r'
    using assms(1) that unfolding live_ok_def sorted_wrt_append sorted_wrt.simps by (simp; blast)
  have "sorted_wrt (\<lambda>r r'. span m r \<inter> span m r' = {}) (rs1 @ rs2)"
    using assms(1) by (auto simp: live_ok_def sorted_wrt_append)
  moreover have "span m r' \<inter> free m' = {}" "valid m r'" if "r' \<in> set (rs1 @ rs2)" for r'
    using a(1) d [OF that] assms(1) that by (auto simp: live_ok_def)
  ultimately show ?thesis using a by (simp add: live_ok_def)
qed

lemma live_disjoint_free:
  "live_ok m rs \<Longrightarrow> (\<Union>r\<in>set rs. span m r) \<inter> free m = {}"
  by (auto simp: live_ok_def)

lemma live_pairwise:
  assumes "live_ok m rs" and "i < j" and "j < length rs"
  shows "span m (rs ! i) \<inter> span m (rs ! j) = {}"
  using assms by (simp add: live_ok_def sorted_wrt_iff_nth_less)

end

text \<open>An allocator that never loses what is released.\<close>

locale lossless_allocator = range_allocator +
  assumes release_gives: "\<lbrakk>inv m; valid m r; span m r \<inter> free m = {}; release m r m'\<rbrakk> \<Longrightarrow>
        free m' = free m \<union> span m r"
begin

definition covers :: "nat set \<Rightarrow> 'a \<Rightarrow> 'b list \<Rightarrow> bool" where
  "covers U m rs \<longleftrightarrow> free m \<union> (\<Union>r\<in>set rs. span m r) = U"

lemma covers_alloc:
  assumes "live_ok m rs" and "covers U m rs" and "alloc m r m'"
  shows "covers U m' (r # rs)"
proof -
  from assms(1) have "inv m" by (simp add: live_ok_def)
  note a = alloc_law [OF this assms(3)] alloc_frame [OF this assms(3)]
  from a have "free m' \<union> span m r = free m" by blast
  with assms(2) have "free m' \<union> span m r \<union> (\<Union>r\<in>set rs. span m r) = U" by (simp add: covers_def)
  with a(2) show ?thesis by (simp add: covers_def Un_assoc)
qed

lemma covers_release:
  assumes "live_ok m (rs1 @ r # rs2)" and "covers U m (rs1 @ r # rs2)" and "release m r m'"
  shows "covers U m' (rs1 @ rs2)"
proof -
  from assms have r: "inv m" "valid m r" "span m r \<inter> free m = {}" by (auto simp: live_ok_def)
  from release_gives [OF r assms(3)] release_frame [OF r assms(3)] assms(2)
  show ?thesis by (simp add: covers_def Un_ac)
qed

lemma alloc_release_free:
  assumes "inv m" and "alloc m r m'" and "release m' r m''"
  shows "free m'' = free m"
proof -
  note a = alloc_law [OF assms(1,2)] alloc_frame [OF assms(1,2)]
  then have "inv m'" "valid m' r" "span m' r \<inter> free m' = {}" by auto
  from release_gives [OF this assms(3)] a(2) have "free m'' = free m' \<union> span m r" by simp
  moreover have "free m' = free m - span m r" "span m r \<subseteq> free m" using a(1) by blast+
  ultimately show ?thesis by blast
qed

end

section \<open>The manager as a range allocator\<close>

type_synonym va_range = "u64 \<times> u64"

definition va_span :: "amdgpu_bo_va_mgr \<Rightarrow> va_range \<Rightarrow> nat set" where
  "va_span mgr r = {unat (fst r)..<unat (fst r) + va_len mgr (snd r)}"

definition va_valid :: "amdgpu_bo_va_mgr \<Rightarrow> va_range \<Rightarrow> bool" where
  "va_valid mgr r \<longleftrightarrow>
     snd r \<noteq> 0 \<and> unat (snd r) + unat (va_alignment mgr) \<le> 2 ^ 64
     \<and> unat (fst r) + va_len mgr (snd r) \<le> unat (va_max mgr)"

abbreviation mgr_free :: "amdgpu_bo_va_mgr \<Rightarrow> nat set" where
  "mgr_free mgr \<equiv> free_set (va_holes mgr)"

definition va_alloc :: "amdgpu_bo_va_mgr \<Rightarrow> va_range \<Rightarrow> amdgpu_bo_va_mgr \<Rightarrow> bool" where
  "va_alloc mgr r mgr' \<longleftrightarrow>
     (\<exists>al base from_top out sc sc'. va_request_ok mgr (snd r) al base
        \<and> amdgpu_vamgr_find_va mgr (snd r) al base from_top out sc = Ret (OK, fst r, mgr', sc'))"

definition va_release :: "amdgpu_bo_va_mgr \<Rightarrow> va_range \<Rightarrow> amdgpu_bo_va_mgr \<Rightarrow> bool" where
  "va_release mgr r mgr' \<longleftrightarrow> (\<exists>sc sc'. amdgpu_vamgr_free_va mgr (fst r) (snd r) sc = (mgr', sc'))"

definition va_release_mem :: "amdgpu_bo_va_mgr \<Rightarrow> va_range \<Rightarrow> amdgpu_bo_va_mgr \<Rightarrow> bool" where
  "va_release_mem mgr r mgr' \<longleftrightarrow>
     (\<exists>sc sc'. no_alloc_failure sc \<and> amdgpu_vamgr_free_va mgr (fst r) (snd r) sc = (mgr', sc'))"

lemma va_range_in_use_iff:
  "va_range_in_use mgr va sz \<longleftrightarrow> va_valid mgr (va, sz) \<and> va_span mgr (va, sz) \<inter> mgr_free mgr = {}"
  by (auto simp: va_range_in_use_def va_valid_def va_span_def)

lemma va_frame:
  assumes "va_max mgr' = va_max mgr" "va_alignment mgr' = va_alignment mgr"
  shows "va_span mgr' = va_span mgr" "va_valid mgr' = va_valid mgr"
  using assms by (auto simp: va_span_def va_valid_def va_len_def fun_eq_iff)

lemma find_va_OK:
  assumes "wf_mgr mgr" "va_request_ok mgr sz al base"
    and "amdgpu_vamgr_find_va mgr sz al base from_top out sc = Ret (OK, off, mgr', sc')"
  shows "wf_mgr mgr'" and "va_span mgr (off, sz) \<subseteq> mgr_free mgr"
    and "mgr_free mgr' = mgr_free mgr - va_span mgr (off, sz)"
    and "va_max mgr' = va_max mgr" and "va_alignment mgr' = va_alignment mgr"
    and "va_align mgr al dvd unat off" and "base \<noteq> 0 \<longrightarrow> off = base" and "va_valid mgr (off, sz)"
proof -
  from find_va_correct [OF assms(1,2)]
  have p: "find_va_post mgr sz al base out sc (OK, off, mgr', sc')"
    using assms(3) by (metis outcome.inject)
  then show "wf_mgr mgr'" "va_span mgr (off, sz) \<subseteq> mgr_free mgr"
    "mgr_free mgr' = mgr_free mgr - va_span mgr (off, sz)"
    "va_max mgr' = va_max mgr" "va_alignment mgr' = va_alignment mgr"
    "va_align mgr al dvd unat off" "base \<noteq> 0 \<longrightarrow> off = base"
    by (auto simp: find_va_post_def va_span_def split: if_splits)
  have "0 < va_len mgr sz" using assms(1,2) by (rule va_request_size(3))
  then have "\<exists>h\<in>set (va_holes mgr). hstart h \<le> unat off \<and> unat off + va_len mgr sz \<le> hend h"
    using assms(1) \<open>va_span mgr (off, sz) \<subseteq> mgr_free mgr\<close>
    by (intro free_range_in_hole) (auto simp: wf_mgr_def va_span_def)
  then show "va_valid mgr (off, sz)"
    using assms(2) wf_mgr_hole(2) [OF assms(1)]
    by (fastforce simp: va_valid_def va_request_ok_def)
qed

lemma free_va_laws:
  assumes "wf_mgr mgr" "va_valid mgr r" "va_span mgr r \<inter> mgr_free mgr = {}"
    and "amdgpu_vamgr_free_va mgr (fst r) (snd r) sc = (mgr', sc')"
  shows "wf_mgr mgr'" and "va_max mgr' = va_max mgr" and "va_alignment mgr' = va_alignment mgr"
    and "mgr_free mgr' = mgr_free mgr \<union> va_span mgr r \<or> mgr_free mgr' = mgr_free mgr"
    and "no_alloc_failure sc \<Longrightarrow> mgr_free mgr' = mgr_free mgr \<union> va_span mgr r"
    and "no_alloc_failure sc \<Longrightarrow> no_alloc_failure sc'"
proof -
  have "va_range_in_use mgr (fst r) (snd r)"
    using assms(2,3) by (simp add: va_range_in_use_iff)
  from free_va_correct [OF assms(1) this, of sc]
  have p: "free_va_post mgr (fst r) (snd r) sc (mgr', sc')" by (simp add: assms(4))
  then show "wf_mgr mgr'" "va_max mgr' = va_max mgr" "va_alignment mgr' = va_alignment mgr"
    "mgr_free mgr' = mgr_free mgr \<union> va_span mgr r \<or> mgr_free mgr' = mgr_free mgr"
    using assms(1) by (auto simp: free_va_post_def va_span_def)
  show "no_alloc_failure sc \<Longrightarrow> mgr_free mgr' = mgr_free mgr \<union> va_span mgr r"
    "no_alloc_failure sc \<Longrightarrow> no_alloc_failure sc'"
    using p by (auto simp: free_va_post_def va_span_def elim: calloc_next_no_failure)
qed

interpretation va: range_allocator wf_mgr mgr_free va_span va_valid va_alloc va_release
proof (unfold_locales, goal_cases)
  case (1 m r m')
  then show ?case unfolding va_alloc_def using find_va_OK(1-3,8) by (metis prod.collapse)
next
  case (2 m r m')
  then obtain "va_max m' = va_max m" "va_alignment m' = va_alignment m"
    unfolding va_alloc_def using find_va_OK(4,5) by blast
  then show ?case using va_frame by blast
next
  case (3 m r m')
  then show ?case unfolding va_release_def using free_va_laws(1,4) by blast
next
  case (4 m r m')
  then obtain "va_max m' = va_max m" "va_alignment m' = va_alignment m"
    unfolding va_release_def using free_va_laws(2,3) by blast
  then show ?case using va_frame by blast
qed

interpretation va_mem: lossless_allocator wf_mgr mgr_free va_span va_valid va_alloc va_release_mem
proof (unfold_locales, goal_cases)
  case (1 m r m')
  then show ?case by (rule va.alloc_law)
next
  case (2 m r m')
  then show ?case by (rule va.alloc_frame)
next
  case (3 m r m')
  then show ?case using va.release_law [of m r m'] by (auto simp: va_release_def va_release_mem_def)
next
  case (4 m r m')
  then show ?case using va.release_frame [of m r m'] by (auto simp: va_release_def va_release_mem_def)
next
  case (5 m r m')
  then show ?case unfolding va_release_mem_def using free_va_laws(5) by blast
qed

section \<open>Runs of allocations and frees\<close>

text \<open>
  A system is the manager, the ranges handed out and not yet freed, and the allocation script.
  Clients allocate representable requests and free what they hold, each range once.
\<close>

type_synonym va_sys = "amdgpu_bo_va_mgr \<times> va_range list \<times> alloc_script"

inductive va_step :: "va_sys \<Rightarrow> va_sys \<Rightarrow> bool" where
  find: "\<lbrakk>va_request_ok mgr sz al base;
          amdgpu_vamgr_find_va mgr sz al base from_top out sc = Ret (ret, off, mgr', sc')\<rbrakk> \<Longrightarrow>
     va_step (mgr, live, sc) (mgr', if ret = OK then (off, sz) # live else live, sc')"
| free: "amdgpu_vamgr_free_va mgr va sz sc = (mgr', sc') \<Longrightarrow>
     va_step (mgr, pre @ (va, sz) # post, sc) (mgr', pre @ post, sc')"

inductive_cases va_stepE: "va_step (mgr, live, sc) s'"

definition va_reach :: "u64 \<Rightarrow> u64 \<Rightarrow> u64 \<Rightarrow> alloc_script \<Rightarrow> va_sys \<Rightarrow> bool" where
  "va_reach start m al sc s \<longleftrightarrow>
     (\<exists>mgr sc'. amdgpu_vamgr_init start m al sc = Ret (mgr, sc') \<and> va_step\<^sup>*\<^sup>* (mgr, [], sc') s)"

lemma find_va_script:
  "amdgpu_vamgr_find_va mgr sz al base from_top out sc = Ret (ret, off, mgr', sc') \<Longrightarrow>
     no_alloc_failure sc \<Longrightarrow> no_alloc_failure sc'"
  by (cases sc)
     (auto simp: amdgpu_vamgr_find_va_def amdgpu_vamgr_subtract_hole_def no_alloc_failure_def Let_def
           split: if_splits option.splits prod.splits bool.splits)

lemma find_va_not_OK:
  assumes "wf_mgr mgr" "va_request_ok mgr sz al base" "ret \<noteq> OK"
    and "amdgpu_vamgr_find_va mgr sz al base from_top out sc = Ret (ret, off, mgr', sc')"
  shows "mgr' = mgr"
proof -
  from find_va_correct [OF assms(1,2)]
  have "find_va_post mgr sz al base out sc (ret, off, mgr', sc')"
    using assms(4) by (metis outcome.inject)
  with assms(3) show ?thesis by (simp add: find_va_post_def split: if_splits)
qed

text \<open>
  What holds of every reachable system: the manager is well-formed, the live ranges are valid,
  pairwise disjoint and apart from the holes, and they stay inside the managed space; as long as no
  allocation has failed, the holes and the live ranges make up all of it.
\<close>

definition va_sys_ok :: "u64 \<Rightarrow> u64 \<Rightarrow> va_sys \<Rightarrow> bool" where
  "va_sys_ok start m s \<longleftrightarrow>
     (case s of (mgr, live, sc) \<Rightarrow>
        va.live_ok mgr live \<and> va_max mgr = m
        \<and> mgr_free mgr \<union> (\<Union>r\<in>set live. va_span mgr r) \<subseteq> {unat start..<unat m})"

definition va_sys_full :: "u64 \<Rightarrow> u64 \<Rightarrow> va_sys \<Rightarrow> bool" where
  "va_sys_full start m s \<longleftrightarrow>
     (case s of (mgr, live, sc) \<Rightarrow>
        no_alloc_failure sc \<and> mgr_free mgr \<union> (\<Union>r\<in>set live. va_span mgr r) = {unat start..<unat m})"

lemma va_step_find_ok:
  assumes ok: "va_sys_ok start m (mgr, live, sc)" and req: "va_request_ok mgr sz al base"
    and res: "amdgpu_vamgr_find_va mgr sz al base from_top out sc = Ret (ret, off, mgr', sc')"
  shows "va_sys_ok start m (mgr', if ret = OK then (off, sz) # live else live, sc')"
    and "va_sys_full start m (mgr, live, sc) \<Longrightarrow>
      va_sys_full start m (mgr', if ret = OK then (off, sz) # live else live, sc')"
proof -
  have wf: "wf_mgr mgr" using ok by (simp add: va_sys_ok_def va.live_ok_def)
  have "va.live_ok mgr' (if ret = OK then (off, sz) # live else live) \<and> va_max mgr' = m
      \<and> mgr_free mgr' \<union> (\<Union>r\<in>set (if ret = OK then (off, sz) # live else live). va_span mgr' r)
          = mgr_free mgr \<union> (\<Union>r\<in>set live. va_span mgr r)"
  proof (cases "ret = OK")
    case True
    note f = find_va_OK [OF wf req res [unfolded True]]
    have "va_alloc mgr (off, sz) mgr'" using req res True by (simp add: va_alloc_def) blast
    then have "va.live_ok mgr' ((off, sz) # live)"
      using ok by (intro va.live_alloc) (auto simp: va_sys_ok_def)
    then show ?thesis
      using True f(2-5) va_frame [OF f(4,5)] ok by (auto simp: va_sys_ok_def)
  next
    case False
    then show ?thesis using find_va_not_OK [OF wf req False res] ok by (simp add: va_sys_ok_def)
  qed
  then show "va_sys_ok start m (mgr', if ret = OK then (off, sz) # live else live, sc')"
    and "va_sys_full start m (mgr, live, sc) \<Longrightarrow>
      va_sys_full start m (mgr', if ret = OK then (off, sz) # live else live, sc')"
    using ok find_va_script [OF res] by (simp_all only: va_sys_ok_def va_sys_full_def prod.case)
qed

lemma va_step_free_ok:
  assumes ok: "va_sys_ok start m (mgr, pre @ (va, sz) # post, sc)"
    and res: "amdgpu_vamgr_free_va mgr va sz sc = (mgr', sc')"
  shows "va_sys_ok start m (mgr', pre @ post, sc')"
    and "va_sys_full start m (mgr, pre @ (va, sz) # post, sc) \<Longrightarrow>
      va_sys_full start m (mgr', pre @ post, sc')"
proof -
  have r: "wf_mgr mgr" "va_valid mgr (va, sz)" "va_span mgr (va, sz) \<inter> mgr_free mgr = {}"
    using ok by (auto simp: va_sys_ok_def va.live_ok_def)
  have "amdgpu_vamgr_free_va mgr (fst (va, sz)) (snd (va, sz)) sc = (mgr', sc')" using res by simp
  note f = free_va_laws [OF r this] and fr = va_frame [OF f(2,3)]
  have "va_release mgr (va, sz) mgr'" using res by (auto simp: va_release_def)
  then have "va.live_ok mgr' (pre @ post)"
    using ok va.live_release by (auto simp: va_sys_ok_def)
  then show "va_sys_ok start m (mgr', pre @ post, sc')"
    using ok f(2,4) by (auto simp: va_sys_ok_def fr(1))
  show "va_sys_full start m (mgr', pre @ post, sc')"
    if full: "va_sys_full start m (mgr, pre @ (va, sz) # post, sc)"
  proof -
    have "va_release_mem mgr (va, sz) mgr'"
      using full res unfolding va_sys_full_def va_release_mem_def by auto
    from va_mem.covers_release [OF _ _ this, of pre post "{unat start..<unat m}"] full ok f(6)
    show ?thesis by (simp add: va_sys_full_def va_sys_ok_def va_mem.covers_def)
  qed
qed

lemma va_step_ok:
  assumes "va_step s s'" and "va_sys_ok start m s"
  shows "va_sys_ok start m s'" and "va_sys_full start m s \<Longrightarrow> va_sys_full start m s'"
  using assms va_step_find_ok va_step_free_ok by (induction, metis, metis)+

lemma va_reach_ok:
  assumes "va_reach start m al sc s" and "start < m" and "pow2 (ucast al :: u32)"
  shows "va_sys_ok start m s" and "no_alloc_failure sc \<Longrightarrow> va_sys_full start m s"
proof -
  obtain mgr sc' where i: "amdgpu_vamgr_init start m al sc = Ret (mgr, sc')"
    and run: "va_step\<^sup>*\<^sup>* (mgr, [], sc') s"
    using assms(1) by (auto simp: va_reach_def)
  from i have b: "calloc_next sc = (True, sc')"
    by (auto simp: amdgpu_vamgr_init_def split: prod.splits bool.splits)
  obtain mgr1 sc1 where m1: "amdgpu_vamgr_init start m al [] = Ret (mgr1, sc1)"
    "wf_mgr mgr1" "mgr_free mgr1 = {unat start..<unat m}" "va_max mgr1 = m"
    using vamgr_init_correct [OF no_alloc_failure_Nil assms(2,3)] .
  have "mgr1 = mgr" using i b m1(1) by (simp add: amdgpu_vamgr_init_def)
  with m1 have "wf_mgr mgr" "mgr_free mgr = {unat start..<unat m}" "va_max mgr = m" by simp_all
  then have 0: "va_sys_ok start m (mgr, [], sc')"
    by (simp add: va_sys_ok_def va.live_ok_Nil)
  from run show "va_sys_ok start m s"
    by (induction rule: rtranclp_induct) (use 0 va_step_ok in blast)+
  assume n: "no_alloc_failure sc"
  then have "no_alloc_failure sc'" using b by (cases sc) (auto simp: no_alloc_failure_def)
  then have 1: "va_sys_full start m (mgr, [], sc')"
    by (simp add: va_sys_full_def \<open>mgr_free mgr = _\<close>)
  from run have "va_sys_ok start m s \<and> va_sys_full start m s"
    by (induction rule: rtranclp_induct) (use 0 1 va_step_ok in blast)+
  then show "va_sys_full start m s" ..
qed

section \<open>Requests the arithmetic cannot represent\<close>

lemma ALIGN64_wraps:
  assumes "pow2 a" and "2 ^ 64 < unat v + unat a"
  shows "ALIGN64 v a = 0"
proof -
  let ?a = "ucast a :: u64"
  have pos: "0 < unat a" using assms(1) by (rule pow2_pos)
  have v: "unat v < 2 ^ 64" using unsigned_less [of v, where ?'a = nat] by simp
  have "unat (v + (?a - 1)) = unat v + (unat a - 1) - 2 ^ 64"
    using assms(2) pos v by (subst unat_plus_if') (auto simp: unat_minus_one)
  then have "unat (v + (?a - 1)) < unat a" using v pos by linarith
  then have "unat (ALIGN64 v a) = 0"
    using align_mask_unat [OF pow2_ucast(1) [OF assms(1)], of v]
    by (simp add: ALIGN64_def pow2_ucast(2) [OF assms(1)])
  then show ?thesis by (simp add: unat_eq_iff)
qed

definition va_first :: "bool \<Rightarrow> amdgpu_bo_va_hole list \<Rightarrow> amdgpu_bo_va_hole" where
  "va_first from_top hs = (if from_top then hd hs else last hs)"

lemma va_choose_first:
  assumes "hs \<noteq> []" and "va_fit from_top sz al base (va_first from_top hs) = Some off"
  obtains pre post where "hs = pre @ va_first from_top hs # post"
    and "va_choose from_top sz al base hs = Some (pre, va_first from_top hs, off, post)"
proof (cases from_top)
  case True
  with assms obtain h hs' where "hs = h # hs'" by (cases hs) auto
  with True assms show thesis
    by (intro that [of "[]" hs']) (simp_all add: va_first_def va_fit_def va_choose_def)
next
  case False
  with assms obtain hs' h where "hs = hs' @ [h]" by (cases hs rule: rev_cases) auto
  with False assms show thesis
    by (intro that [of hs' "[]"]) (simp_all add: va_first_def va_fit_def va_choose_def)
qed

lemma base_wrap_accepted:
  assumes wf: "wf_mgr mgr" and ne: "va_holes mgr \<noteq> []" and zero: "0 \<notin> mgr_free mgr"
    and base: "va_max mgr < base" "va_align mgr al dvd unat base"
    and wrap: "unat base + va_len mgr sz = 2 ^ 64"
    and sz: "unat sz + unat (va_alignment mgr) \<le> 2 ^ 64"
  obtains mgr' where "amdgpu_vamgr_find_va mgr sz al base from_top out sc = Ret (OK, base, mgr', sc)"
    and "unat base - 1 \<in> mgr_free mgr'"
proof -
  let ?al = "MAX2 al (ucast (va_alignment mgr))" and ?sz = "ALIGN64 sz (va_alignment mgr)"
    and ?h = "va_first from_top (va_holes mgr)"
  note a = wf_mgr_align(2,3) [OF wf, where al = al]
  have h: "?h \<in> set (va_holes mgr)" using ne by (simp add: va_first_def)
  note hk = wf_mgr_hole [OF wf h]
  have b: "unat (va_max mgr) < unat base" "base \<noteq> 0" "base mod ?al = 0"
    using base a by (auto simp: word_less_nat_alt unat_eq_iff unat_mod)
  have "unat ?sz = va_len mgr sz"
    using wf sz by (simp add: wf_mgr_def va_len_def unat_ALIGN64)
  then have "unat (base + ?sz) = 0" using wrap b(1) by (simp add: unat_word_ariths)
  then have w: "base + ?sz = 0" by (simp add: unat_eq_iff)
  have lt: "hole_offset ?h < base" "unat (hole_offset ?h) < unat base"
    using hk b(1) by (auto simp: word_less_nat_alt hend_def)
  then have fit: "va_fit from_top ?sz ?al base ?h = Some base"
    using b(2) w less_not_sym [OF lt(1)]
    by (cases from_top) (simp_all add: va_fit_def va_fit_top_def va_fit_bottom_def)
  obtain pre post where ch: "va_choose from_top ?sz ?al base (va_holes mgr) = Some (pre, ?h, base, post)"
    using va_choose_first [OF ne fit] .
  have "hstart ?h \<noteq> 0"
    using zero h hole_ok_less [OF hk(1)] unfolding free_set_def by force
  then have "unat (0 - hole_offset ?h) = 2 ^ 64 - hstart ?h"
    by (simp only: unat_sub_if') (simp add: hstart_def)
  then have "\<not> 0 - hole_offset ?h < hole_size ?h"
    using hk(1) unfolding word_less_nat_alt hole_ok_def hend_def hstart_def by linarith
  then have sub: "amdgpu_vamgr_subtract_hole ?h base (base + ?sz) sc
      = (OK, [?h\<lparr>hole_size := base - hole_offset ?h\<rparr>], sc)"
    using lt unfolding w by (simp add: amdgpu_vamgr_subtract_hole_def)
  have "unat (base - hole_offset ?h) = unat base - unat (hole_offset ?h)"
    using lt by (subst unat_sub) (simp_all add: word_le_nat_alt)
  then show thesis
    using a(1) b(3) ch sub lt
    by (intro that [of "mgr\<lparr>va_holes := pre @ [?h\<lparr>hole_size := base - hole_offset ?h\<rparr>] @ post\<rparr>"])
       (auto simp: amdgpu_vamgr_find_va_def hstart_def hend_def)
qed

lemma huge_size_accepted:
  assumes wf: "wf_mgr mgr" and hs: "va_holes mgr = pre @ [h]"
    and al: "va_align mgr al dvd hstart h"
    and sz: "2 ^ 64 < unat sz + unat (va_alignment mgr)"
  shows "amdgpu_vamgr_find_va mgr sz al 0 False out sc = Ret (OK, hole_offset h, mgr, sc)"
proof -
  let ?al = "MAX2 al (ucast (va_alignment mgr))"
  note a = wf_mgr_align(2,3) [OF wf, where al = al]
  have z: "ALIGN64 sz (va_alignment mgr) = 0"
    using wf sz by (intro ALIGN64_wraps) (auto simp: wf_mgr_def)
  have h: "hole_ok h" using wf hs by (intro wf_mgr_hole(1) [OF wf]) simp
  have m: "hole_offset h mod ?al = 0" using al a(2) by (simp add: unat_eq_iff unat_mod hstart_def)
  have "\<not> hole_offset h \<ge> hole_offset h + hole_size h"
    using hole_ok_unat_end [OF h] hole_ok_less [OF h] by (simp add: word_le_nat_alt hstart_def)
  then have "va_fit_bottom 0 ?al 0 h = Some (hole_offset h)"
    using m by (simp add: va_fit_bottom_def Let_def)
  moreover have "hole_size h > 0" using h by (simp add: hole_ok_def word_neq_0_conv)
  ultimately show ?thesis
    using a(1) hs z
    by (simp add: amdgpu_vamgr_find_va_def va_choose_def amdgpu_vamgr_subtract_hole_def Let_def)
qed

section \<open>Properties\<close>

text \<open>The manager the witnesses run on: one hole \<open>[0x1000, 0x10000)\<close> of 4 KiB pages.\<close>

definition demo_mgr :: amdgpu_bo_va_mgr where
  "demo_mgr = \<lparr>va_max = 0x10000,
                va_holes = [\<lparr>hole_offset = 0x1000, hole_size = 0xf000\<rparr>],
                va_alignment = 0x1000\<rparr>"

lemmas va_exec = amdgpu_vamgr_find_va_def va_choose_def va_fit_bottom_def va_fit_top_def
  amdgpu_vamgr_subtract_hole_def amdgpu_vamgr_free_va_def amdgpu_vamgr_init_def ALIGN64_def
  align_mask_def MAX2_def Let_def AMDGPU_INVALID_VA_ADDRESS_def

lemmas va_nat = va_request_ok_def va_align_def va_len_def align_nat_def

lemma pow2_0x1000 [simp]: "pow2 (0x1000 :: u32)"
  unfolding pow2_def by (rule exI [of _ 12]) simp

lemma pow2_demo: "pow2 (ucast (0x1000 :: u64) :: u32)"
  by simp

lemma wf_demo_mgr [simp]: "wf_mgr demo_mgr"
  by (simp add: wf_mgr_def wf_holes_def hole_ok_def hend_def demo_mgr_def)

text \<open>C1. A request that the code's arithmetic can represent and that is granted takes its
  range, and nothing else, out of the free addresses: the address is a multiple of the effective
  alignment, it is the required base when there is one, the whole rounded range was free, and the
  hole list stays well-formed.\<close>

theorem find_va_grants_free_range:
  assumes "wf_mgr mgr" and "va_request_ok mgr sz al base"
    and "amdgpu_vamgr_find_va mgr sz al base from_top out sc = Ret (OK, off, mgr', sc')"
  shows "wf_mgr mgr' \<and> va_align mgr al dvd unat off \<and> (base \<noteq> 0 \<longrightarrow> off = base)
    \<and> {unat off..<unat off + va_len mgr sz} \<subseteq> free_set (va_holes mgr)
    \<and> free_set (va_holes mgr')
        = free_set (va_holes mgr) - {unat off..<unat off + va_len mgr sz}"
  using find_va_OK [OF assms] by (simp add: va_span_def)

theorem find_va_grants_free_range_witness:
  "wf_mgr (demo_mgr\<lparr>va_holes := [\<lparr>hole_offset = 0x3000, hole_size = 0xd000\<rparr>]\<rparr>)
   \<and> free_set [\<lparr>hole_offset = 0x3000, hole_size = 0xd000\<rparr>]
       = free_set (va_holes demo_mgr) - {0x1000..<0x3000}"
proof -
  have "amdgpu_vamgr_find_va demo_mgr 0x1800 0 0 False 0 [] =
      Ret (OK, 0x1000, demo_mgr\<lparr>va_holes := [\<lparr>hole_offset = 0x3000, hole_size = 0xd000\<rparr>]\<rparr>, [])"
    by (simp add: va_exec demo_mgr_def)
  moreover have "va_request_ok demo_mgr 0x1800 0 0" and "va_len demo_mgr 0x1800 = 0x2000"
    by (simp_all add: va_nat demo_mgr_def)
  ultimately show ?thesis
    using find_va_grants_free_range [of demo_mgr "0x1800" 0 0 False 0 "[]" "0x1000"] by simp
qed

text \<open>C3. When a well-formed manager grants a request that the code's arithmetic can represent (the size is
  not 0, and neither the rounding of the size nor the end of the range at the required base, or the rounding
  of an address below the manager's maximum, goes beyond 64 bits), it grants the lowest of all
  the free ranges that satisfy it, or the highest when the search is from the top: the two list
  traversals with their per-hole arithmetic compute the minimum and the maximum over all addresses.\<close>

theorem find_va_extremal:
  assumes "wf_mgr mgr" and "va_request_ok mgr sz al base"
    and "amdgpu_vamgr_find_va mgr sz al base from_top out sc = Ret (OK, off, mgr', sc')"
  shows "unat off = (if from_top then Max else Min)
    {x. (if base \<noteq> 0 then x = unat base else va_align mgr al dvd x)
        \<and> {x..<x + va_len mgr sz} \<subseteq> free_set (va_holes mgr)}"
proof -
  define fits where "fits = {x. (if base \<noteq> 0 then x = unat base else va_align mgr al dvd x)
    \<and> {x..<x + va_len mgr sz} \<subseteq> free_set (va_holes mgr)}"
  let ?al = "MAX2 al (ucast (va_alignment mgr))" and ?sz = "ALIGN64 sz (va_alignment mgr)"
  obtain pre h post where ch: "va_choose from_top ?sz ?al base (va_holes mgr) = Some (pre, h, off, post)"
    using assms(3) by (auto simp: amdgpu_vamgr_find_va_def Let_def split: if_splits option.splits prod.splits)
  have ext: "if from_top then x \<le> unat off else unat off \<le> x" if "x \<in> fits" for x
    using that va_choose_extremal [OF assms(1,2) ch, of x] by (simp add: fits_def)
  have mem: "unat off \<in> fits"
    using find_va_OK [OF assms(1-3)] by (auto simp: fits_def va_span_def)
  have "x < 2 ^ 64" if "x \<in> fits" for x
  proof -
    have "{x..<x + va_len mgr sz} \<subseteq> free_set (va_holes mgr)" using that by (simp add: fits_def)
    then obtain g where "g \<in> set (va_holes mgr)" "x + va_len mgr sz \<le> hend g"
      using free_range_in_hole [of "va_holes mgr" x] assms(1) va_request_size(3) [OF assms(1,2)]
      unfolding wf_mgr_def by (metis less_add_same_cancel1)
    moreover from this(1) have "hend g < 2 ^ 64" using wf_mgr_hole(1) [OF assms(1)] by (simp add: hole_ok_def)
    ultimately show ?thesis by simp
  qed
  then have "finite fits" by (intro finite_subset [OF _ finite_lessThan]) auto
  then have "unat off = (if from_top then Max else Min) fits"
    using ext mem by (cases from_top) (auto intro: Max_eqI [symmetric] Min_eqI [symmetric])
  then show ?thesis by (simp only: fits_def)
qed

theorem find_va_extremal_witness:
  "Min {x. 0x1000 dvd x \<and> {x..<x + 0x2000} \<subseteq> free_set (va_holes demo_mgr)} = 0x1000
   \<and> Max {x. 0x1000 dvd x \<and> {x..<x + 0x2000} \<subseteq> free_set (va_holes demo_mgr)} = 0xe000"
proof -
  have run: "amdgpu_vamgr_find_va demo_mgr 0x1800 0 0 False 0 [] =
      Ret (OK, 0x1000, demo_mgr\<lparr>va_holes := [\<lparr>hole_offset = 0x3000, hole_size = 0xd000\<rparr>]\<rparr>, [])"
    "amdgpu_vamgr_find_va demo_mgr 0x1800 0 0 True 0 [] =
      Ret (OK, 0xe000, demo_mgr\<lparr>va_holes := [\<lparr>hole_offset = 0x1000, hole_size = 0xd000\<rparr>]\<rparr>, [])"
    by (simp_all add: va_exec demo_mgr_def)
  have req: "va_request_ok demo_mgr 0x1800 0 0" "va_len demo_mgr 0x1800 = 0x2000" "va_align demo_mgr 0 = 0x1000"
    by (simp_all add: va_nat demo_mgr_def)
  show ?thesis
    using find_va_extremal [OF wf_demo_mgr req(1) run(1)] find_va_extremal [OF wf_demo_mgr req(1) run(2)] req(2,3)
    by simp
qed

text \<open>C2. A representable request always returns: a base that is not a multiple of the effective
  alignment gives EINVAL, otherwise the range is granted, or ENOMEM is returned with the manager
  unchanged, and then either \<open>calloc\<close> failed or no range of that size, alignment and base is
  free.\<close>

theorem find_va_complete:
  assumes "wf_mgr mgr" and "va_request_ok mgr sz al base"
  shows "\<exists>ret off mgr' sc'.
    amdgpu_vamgr_find_va mgr sz al base from_top out sc = Ret (ret, off, mgr', sc')
    \<and> (ret = Err EINVAL \<longleftrightarrow> \<not> va_align mgr al dvd unat base)
    \<and> (ret \<noteq> OK \<longrightarrow> mgr' = mgr)
    \<and> (ret \<noteq> OK \<and> ret \<noteq> Err EINVAL \<longrightarrow>
         ret = Err ENOMEM
         \<and> (calloc_next sc = (False, sc')
            \<or> (\<forall>x. (if base \<noteq> 0 then x = unat base else va_align mgr al dvd x) \<longrightarrow>
                   \<not> {x..<x + va_len mgr sz} \<subseteq> free_set (va_holes mgr))))"
proof -
  obtain res where r: "amdgpu_vamgr_find_va mgr sz al base from_top out sc = Ret res"
    and p: "find_va_post mgr sz al base out sc res"
    using find_va_correct [OF assms] .
  obtain ret off mgr' sc' where "res = (ret, off, mgr', sc')" by (cases res)
  with r p show ?thesis
    by (intro exI [of _ ret] exI [of _ off] exI [of _ mgr'] exI [of _ sc'])
       (auto simp: find_va_post_def split: if_split_asm)
qed

theorem find_va_complete_witness:
  "\<not> {0x8000..<0x8000 + 0x9000} \<subseteq> free_set (va_holes demo_mgr)"
proof -
  have "amdgpu_vamgr_find_va demo_mgr 0x9000 0x8000 0 True 7 [] = Ret (Err ENOMEM, 7, demo_mgr, [])"
    by (simp add: va_exec demo_mgr_def)
  moreover have "va_request_ok demo_mgr 0x9000 0x8000 0" "va_align demo_mgr 0x8000 = 0x8000"
    "va_len demo_mgr 0x9000 = 0x9000"
    by (simp_all add: va_nat demo_mgr_def)
  ultimately have "\<forall>x. 0x8000 dvd x \<longrightarrow> \<not> {x..<x + 0x9000} \<subseteq> free_set (va_holes demo_mgr)"
    using find_va_complete [of demo_mgr "0x9000" "0x8000" 0 True 7 "[]"] by simp
  then show ?thesis by (metis dvd_refl)
qed

text \<open>C4. Giving back a range in use adds exactly its addresses to the holes, merged with the
  neighbours into a well-formed list, in every one of the four ways the code does it; when the
  \<open>calloc\<close> for a new hole fails the manager is unchanged and the range is lost.\<close>

theorem free_va_gives_back:
  assumes "wf_mgr mgr" and "va_range_in_use mgr va sz"
    and "amdgpu_vamgr_free_va mgr va sz sc = (mgr', sc')"
  shows "wf_mgr mgr'
    \<and> (free_set (va_holes mgr')
         = free_set (va_holes mgr) \<union> {unat va..<unat va + va_len mgr sz}
       \<or> mgr' = mgr \<and> calloc_next sc = (False, sc'))"
  using free_va_correct [OF assms(1,2), of sc] assms by (auto simp: free_va_post_def)

theorem free_va_gives_back_witness:
  "free_set (va_holes demo_mgr)
     = free_set [\<lparr>hole_offset = 0x5000, hole_size = 0xb000\<rparr>,
                 \<lparr>hole_offset = 0x1000, hole_size = 0x2000\<rparr>] \<union> {0x3000..<0x5000}"
proof -
  let ?m = "demo_mgr\<lparr>va_holes := [\<lparr>hole_offset = 0x5000, hole_size = 0xb000\<rparr>,
                                \<lparr>hole_offset = 0x1000, hole_size = 0x2000\<rparr>]\<rparr>"
  have "wf_mgr ?m"
    by (simp add: wf_mgr_def wf_holes_def hole_ok_def hend_def hstart_def demo_mgr_def)
  moreover have l: "va_len ?m 0x2000 = 0x2000" by (simp add: va_nat demo_mgr_def)
  moreover have "va_range_in_use ?m 0x3000 0x2000"
    unfolding va_range_in_use_def l by (auto simp: demo_mgr_def hstart_def hend_def)
  moreover have "amdgpu_vamgr_free_va ?m 0x3000 0x2000 [False] = (demo_mgr, [False])"
    by (simp add: va_exec demo_mgr_def)
  ultimately show ?thesis
    using free_va_gives_back [of ?m "0x3000" "0x2000" "[False]"] by simp
qed


text \<open>C12. On a well-formed manager the allocation of a request that the code's arithmetic can represent
  (\<open>va_request_ok\<close>: a size other than 0, and no sum beyond 64 bits) followed by a free of the range
  it returned restores the manager exactly, hole list included, unless the \<open>calloc\<close> of the free fails.\<close>

theorem find_then_free_restores:
  assumes "wf_mgr mgr" and "va_request_ok mgr sz al base"
    and "amdgpu_vamgr_find_va mgr sz al base from_top out sc = Ret (OK, off, mgr', sc')"
    and "no_alloc_failure sf"
  shows "fst (amdgpu_vamgr_free_va mgr' off sz sf) = mgr"
proof -
  obtain mgr'' sf' where r: "amdgpu_vamgr_free_va mgr' off sz sf = (mgr'', sf')" by fastforce
  note f = find_va_OK [OF assms(1-3)] and fr = va_frame [OF find_va_OK(4,5) [OF assms(1-3)]]
  have use: "va_valid mgr' (off, sz)" "va_span mgr' (off, sz) \<inter> mgr_free mgr' = {}"
    using f(3,8) fr by auto
  from r have r': "amdgpu_vamgr_free_va mgr' (fst (off, sz)) (snd (off, sz)) sf = (mgr'', sf')"
    by simp
  note g = free_va_laws [OF f(1) use r']
  have "va_alloc mgr (off, sz) mgr'" using assms(2,3) by (simp add: va_alloc_def) blast
  moreover have "va_release_mem mgr' (off, sz) mgr''" using r assms(4) unfolding va_release_mem_def by auto
  ultimately have "mgr_free mgr'' = mgr_free mgr" by (rule va_mem.alloc_release_free [OF assms(1)])
  then have "mgr'' = mgr"
    using wf_mgr_canonical [OF g(1) assms(1)] f(4,5) g(2,3) by simp
  then show ?thesis by (simp add: r)
qed

theorem find_then_free_restores_witness:
  "fst (amdgpu_vamgr_free_va
          (demo_mgr\<lparr>va_holes := [\<lparr>hole_offset = 0xa000, hole_size = 0x6000\<rparr>,
                                \<lparr>hole_offset = 0x1000, hole_size = 0x7000\<rparr>]\<rparr>)
          0x8000 0x1800 [True]) = demo_mgr"
proof -
  have "amdgpu_vamgr_find_va demo_mgr 0x1800 0x8000 0 True 0 [] =
      Ret (OK, 0x8000, demo_mgr\<lparr>va_holes := [\<lparr>hole_offset = 0xa000, hole_size = 0x6000\<rparr>,
                                \<lparr>hole_offset = 0x1000, hole_size = 0x7000\<rparr>]\<rparr>, [])"
    by (simp add: va_exec demo_mgr_def)
  moreover have "va_request_ok demo_mgr 0x1800 0x8000 0"
    by (simp add: va_nat demo_mgr_def)
  ultimately show ?thesis
    using find_then_free_restores [of demo_mgr "0x1800" "0x8000" 0 True 0 "[]" "0x8000" _ _ "[True]"]
    by (simp add: no_alloc_failure_def)
qed

text \<open>C10. In every run from \<open>amdgpu_vamgr_init\<close>, with \<open>start < max\<close> and an alignment that is a power of two,
  of allocations whose requests the code's arithmetic can represent (\<open>va_request_ok\<close> at each step: a size
  other than 0, and no sum beyond 64 bits) and frees of live ranges, whatever calls of \<open>calloc\<close>
  fail, the live ranges are pairwise disjoint, disjoint from the holes, and inside \<open>[start, max)\<close>.\<close>

theorem va_runs_keep_ranges_apart:
  assumes "va_reach start m al sc (mgr, live, sc')" and "start < m" and "pow2 (ucast al :: u32)"
  shows "wf_mgr mgr
    \<and> (\<forall>i j. i < j \<and> j < length live \<longrightarrow> va_span mgr (live ! i) \<inter> va_span mgr (live ! j) = {})
    \<and> (\<Union>r\<in>set live. va_span mgr r) \<inter> mgr_free mgr = {}
    \<and> (\<Union>r\<in>set live. va_span mgr r) \<union> mgr_free mgr \<subseteq> {unat start..<unat m}"
proof -
  from va_reach_ok(1) [OF assms] have l: "va.live_ok mgr live"
    and s: "mgr_free mgr \<union> (\<Union>r\<in>set live. va_span mgr r) \<subseteq> {unat start..<unat m}"
    by (auto simp: va_sys_ok_def)
  have "wf_mgr mgr" using l by (simp add: va.live_ok_def)
  then show ?thesis
    using s va.live_pairwise [OF l] va.live_disjoint_free [OF l] by (simp add: Un_commute)
qed

theorem va_runs_keep_ranges_apart_witness:
  "va_span (demo_mgr\<lparr>va_holes := []\<rparr>) (0x8000, 0x8000)
     \<inter> va_span (demo_mgr\<lparr>va_holes := []\<rparr>) (0x1000, 0x7000) = {}"
proof -
  let ?m = "demo_mgr\<lparr>va_holes := [\<lparr>hole_offset = 0x8000, hole_size = 0x8000\<rparr>]\<rparr>"
  have init: "amdgpu_vamgr_init 0x1000 0x10000 0x1000 [] = Ret (demo_mgr, [])"
    by (simp add: va_exec demo_mgr_def)
  have "amdgpu_vamgr_find_va demo_mgr 0x7000 0 0 False 0 [] = Ret (OK, 0x1000, ?m, [])"
    by (simp add: va_exec demo_mgr_def)
  then have 1: "va_step (demo_mgr, [], []) (?m, [(0x1000, 0x7000)], [])"
    using va_step.find [of demo_mgr "0x7000" 0 0 False 0 "[]" OK "0x1000" ?m "[]" "[]"]
    by (simp add: va_nat demo_mgr_def)
  have "amdgpu_vamgr_find_va ?m 0x8000 0 0 True 0 [] = Ret (OK, 0x8000, demo_mgr\<lparr>va_holes := []\<rparr>, [])"
    by (simp add: va_exec demo_mgr_def)
  then have 2: "va_step (?m, [(0x1000, 0x7000)], [])
      (demo_mgr\<lparr>va_holes := []\<rparr>, [(0x8000, 0x8000), (0x1000, 0x7000)], [])"
    using va_step.find [of ?m "0x8000" 0 0 True 0 "[]" OK "0x8000" "demo_mgr\<lparr>va_holes := []\<rparr>" "[]"]
    by (simp add: va_nat demo_mgr_def)
  have "va_reach 0x1000 0x10000 0x1000 []
      (demo_mgr\<lparr>va_holes := []\<rparr>, [(0x8000, 0x8000), (0x1000, 0x7000)], [])"
    unfolding va_reach_def
    by (rule exI [of _ demo_mgr], rule exI [of _ "[]"]) (use init 1 2 in auto)
  note apart = va_runs_keep_ranges_apart [OF this _ pow2_demo, THEN conjunct2, THEN conjunct1]
  from apart [rule_format, of 0 1] show ?thesis by simp
qed

text \<open>C11. In every such run (requests that the code's arithmetic can represent at each step, \<open>start < max\<close>,
  an alignment that is a power of two), when no call of \<open>calloc\<close> fails no address is ever lost: at any
  time the holes and the live ranges together make up \<open>[start, max)\<close>, and once every range has been
  freed the manager is the one \<open>amdgpu_vamgr_init\<close> made.\<close>

theorem va_runs_lose_nothing:
  assumes "va_reach start m al sc (mgr, live, sc')" and "start < m" and "pow2 (ucast al :: u32)"
    and "no_alloc_failure sc"
  shows "mgr_free mgr \<union> (\<Union>r\<in>set live. va_span mgr r) = {unat start..<unat m}
    \<and> (live = [] \<longrightarrow> va_holes mgr = [\<lparr>hole_offset = start, hole_size = m - start\<rparr>])"
proof -
  from va_reach_ok(2) [OF assms] have f: "mgr_free mgr \<union> (\<Union>r\<in>set live. va_span mgr r) = {unat start..<unat m}"
    by (simp add: va_sys_full_def)
  obtain mgr1 sc1 where i: "amdgpu_vamgr_init start m al [] = Ret (mgr1, sc1)" "wf_mgr mgr1"
    "mgr_free mgr1 = {unat start..<unat m}"
    using vamgr_init_correct [OF no_alloc_failure_Nil assms(2,3)] .
  have "va_holes mgr1 = [\<lparr>hole_offset = start, hole_size = m - start\<rparr>]"
    using i(1) by (auto simp: amdgpu_vamgr_init_def)
  moreover have "wf_mgr mgr" using va_reach_ok(1) [OF assms(1-3)] by (simp add: va_sys_ok_def va.live_ok_def)
  ultimately have "live = [] \<longrightarrow> va_holes mgr = [\<lparr>hole_offset = start, hole_size = m - start\<rparr>]"
    using f i(2,3) wf_holes_canonical [of "va_holes mgr" "va_holes mgr1"] by (auto simp: wf_mgr_def)
  with f show ?thesis by blast
qed

theorem va_runs_lose_nothing_witness:
  "mgr_free demo_mgr = {0x1000..<0x10000}"
proof -
  have "amdgpu_vamgr_init 0x1000 0x10000 0x1000 [] = Ret (demo_mgr, [])"
    by (simp add: va_exec demo_mgr_def)
  then have "va_reach 0x1000 0x10000 0x1000 [] (demo_mgr, [], [])"
    unfolding va_reach_def by blast
  from va_runs_lose_nothing [OF this _ pow2_demo no_alloc_failure_Nil, THEN conjunct1]
  show ?thesis by simp
qed

text \<open>C33. A required base whose range ends exactly at the top of the 64-bit space is granted
  although it lies outside the managed space: the sum of base and size wraps to 0 in the test, and
  the chosen hole is stretched up to the base, over addresses the manager does not own.\<close>

theorem find_va_base_wrap_granted:
  assumes "wf_mgr mgr" and "va_holes mgr \<noteq> []" and "0 \<notin> free_set (va_holes mgr)"
    and "va_max mgr < base" and "va_align mgr al dvd unat base"
    and "unat base + va_len mgr sz = 2 ^ 64"
    and "unat sz + unat (va_alignment mgr) \<le> 2 ^ 64"
  shows "\<exists>mgr'. amdgpu_vamgr_find_va mgr sz al base from_top out sc = Ret (OK, base, mgr', sc)
    \<and> unat base - 1 \<in> free_set (va_holes mgr') \<and> unat (va_max mgr) \<le> unat base - 1"
proof -
  have "unat (va_max mgr) \<le> unat base - 1" using assms(4) by (simp add: word_less_nat_alt)
  then show ?thesis using base_wrap_accepted [OF assms, of from_top out sc] by metis
qed

theorem find_va_base_wrap_granted_witness:
  "\<exists>mgr'. amdgpu_vamgr_find_va demo_mgr 0x1000 0 0xfffffffffffff000 False 0 []
           = Ret (OK, 0xfffffffffffff000, mgr', [])
         \<and> 0xffffffffffffefff \<in> free_set (va_holes mgr')"
proof -
  have "va_align demo_mgr 0 dvd unat (0xfffffffffffff000 :: u64)"
    and "unat (0xfffffffffffff000 :: u64) + va_len demo_mgr 0x1000 = 2 ^ 64"
    and "0 \<notin> free_set (va_holes demo_mgr)"
    by (simp_all add: va_nat demo_mgr_def hstart_def)
  then show ?thesis
    using find_va_base_wrap_granted [of demo_mgr "0xfffffffffffff000" 0 "0x1000" False 0 "[]"]
    by simp (simp add: demo_mgr_def)
qed

text \<open>A size so large that rounding it up wraps to 0 is granted at the lowest hole while
  nothing is reserved: the manager does not change.\<close>

theorem find_va_huge_size_granted:
  assumes "wf_mgr mgr" and "va_holes mgr = pre @ [h]" and "va_align mgr al dvd hstart h"
    and "2 ^ 64 < unat sz + unat (va_alignment mgr)"
  shows "amdgpu_vamgr_find_va mgr sz al 0 False out sc = Ret (OK, hole_offset h, mgr, sc)"
  by (rule huge_size_accepted [OF assms])

theorem find_va_huge_size_granted_witness:
  "amdgpu_vamgr_find_va demo_mgr 0xffffffffffffffff 0 0 False 0 [] = Ret (OK, 0x1000, demo_mgr, [])"
  using find_va_huge_size_granted
    [of demo_mgr "[]" "\<lparr>hole_offset = 0x1000, hole_size = 0xf000\<rparr>" 0 "0xffffffffffffffff" 0 "[]"]
    wf_demo_mgr
  by (simp add: va_nat hstart_def demo_mgr_def)

end
