(* ===== verification/Internal.thy ===== *)
theory Internal imports DoubleList begin

text \<open>
  Reference counting of \<open>amdgpu/amdgpu_internal.h\<close>. A counter is a 32-bit signed atomic; it is kept
  as a word and read with \<open>sint\<close>. Counters live in objects, and \<open>update_references\<close> gets pointers
  to two of them, either of which may be null or to the same counter.
\<close>

section \<open>Counters\<close>

type_synonym atomic_t = "32 word"

definition atomic_positive :: "atomic_t \<Rightarrow> bool" where
  "atomic_positive v \<longleftrightarrow> 0 < sint v"

type_synonym counters = "ptr \<rightharpoonup> atomic_t"

text \<open>
  \<open>update_references(dst, src)\<close>: \<open>None\<close> is the null pointer. A failed \<open>assert\<close> and a counter in
  no object are faults. \<open>atomic_add\<close> returns the value before the addition.
\<close>

definition update_references ::
    "counters \<Rightarrow> ptr option \<Rightarrow> ptr option \<Rightarrow> (bool \<times> counters) outcome" where
  "update_references cs dst src =
     (if dst \<noteq> src then
        bind_outcome
          (case src of
             None \<Rightarrow> Ret cs
           | Some s \<Rightarrow>
               (case cs s of
                  None \<Rightarrow> Fault
                | Some v \<Rightarrow> if atomic_positive v then Ret (cs(s \<mapsto> v + 1)) else Fault))
          (\<lambda>cs'. case dst of
             None \<Rightarrow> Ret (False, cs')
           | Some d \<Rightarrow>
               (case cs' d of
                  None \<Rightarrow> Fault
                | Some v \<Rightarrow> if atomic_positive v then Ret (v = 1, cs'(d \<mapsto> v + (- 1))) else Fault))
      else Ret (False, cs))"

section \<open>Counters inside objects\<close>

text \<open>The counters of a heap of objects, and the heap with its counters replaced.\<close>

definition cells_of :: "('o \<Rightarrow> atomic_t) \<Rightarrow> (ptr \<rightharpoonup> 'o) \<Rightarrow> counters" where
  "cells_of get heap p = map_option get (heap p)"

definition with_cells ::
    "(atomic_t \<Rightarrow> 'o \<Rightarrow> 'o) \<Rightarrow> (ptr \<rightharpoonup> 'o) \<Rightarrow> counters \<Rightarrow> (ptr \<rightharpoonup> 'o)" where
  "with_cells put heap cs p = map_option (put (the (cs p))) (heap p)"

lemma cells_of_upd [simp]: "cells_of get (heap(p \<mapsto> x)) = (cells_of get heap)(p \<mapsto> get x)"
  by (auto simp: cells_of_def)

lemma cells_of_Some: "heap p = Some x \<Longrightarrow> cells_of get heap p = Some (get x)"
  by (simp add: cells_of_def)

lemma with_cells_one:
  assumes "heap p = Some x" and "\<And>y. put (get y) y = y"
  shows "with_cells put heap ((cells_of get heap)(p \<mapsto> v)) = heap(p \<mapsto> put v x)"
  using assms by (auto simp: with_cells_def cells_of_def fun_eq_iff option.map_comp comp_def split: option.splits)
     (simp add: map_option_case split: option.split)

text \<open>A counter small enough to take another reference.\<close>

definition count_ok :: "nat \<Rightarrow> bool" where
  "count_ok n \<longleftrightarrow> n < 2 ^ 31 - 1"

lemma atomic_positive_iff:
  "atomic_positive v \<longleftrightarrow> 0 < unat v \<and> unat v < 2 ^ 31"
proof -
  have b: "- (2 ^ 31) \<le> sint v" "sint v < 2 ^ 31"
    using sint_ge [of v] sint_lt [of v] by simp_all
  have u: "uint v = sint v mod 2 ^ 32" by (simp add: uint_sint take_bit_eq_mod)
  have "uint v = (if 0 \<le> sint v then sint v else sint v + 2 ^ 32)"
  proof (cases "0 \<le> sint v")
    case True
    then show ?thesis using b unfolding u by simp
  next
    case False
    have "sint v mod 2 ^ 32 = (sint v + 2 ^ 32) mod 2 ^ 32" by (rule mod_add_self2 [symmetric])
    also have "\<dots> = sint v + 2 ^ 32" using False b by (intro mod_pos_pos_trivial) auto
    finally show ?thesis using False unfolding u by simp
  qed
  then have "0 < sint v \<longleftrightarrow> 0 < uint v \<and> uint v < 2 ^ 31" using b by auto
  moreover obtain n where n: "unat v = n" "uint v = int n" by simp
  ultimately have "0 < sint v \<longleftrightarrow> 0 < int n \<and> int n < 2 ^ 31" by (simp only:)
  then show ?thesis unfolding atomic_positive_def n(1) by simp
qed

lemma update_references_drop:
  assumes "cs p = Some v"
  shows "update_references cs (Some p) None =
    (if atomic_positive v then Ret (v = 1, cs(p \<mapsto> v - 1)) else Fault)"
  using assms by (simp add: update_references_def)

lemma update_references_take:
  assumes "cs p = Some v"
  shows "update_references cs None (Some p) =
    (if atomic_positive v then Ret (False, cs(p \<mapsto> v + 1)) else Fault)"
  using assms by (simp add: update_references_def)

lemma unat_count_inc: "count_ok (unat (v :: atomic_t)) \<Longrightarrow> unat (v + 1) = Suc (unat v)"
  by (subst unat_add_less) (simp_all add: count_ok_def)

lemma unat_count_dec: "atomic_positive v \<Longrightarrow> unat (v - 1) = unat v - 1"
  by (rule unat_minus_one) (simp add: atomic_positive_iff)

section \<open>Properties\<close>

text \<open>Assigning a reference from \<open>src\<close> to \<open>dst\<close> moves one count from the object \<open>dst\<close> referred
  to before to the one of \<open>src\<close>: with positive counters that can still grow it never fails an
  assertion, the counts of all other objects stay, and it reports that the old object is to be
  freed exactly when its last reference went.\<close>

theorem update_references_counts:
  assumes "d \<noteq> s" and "cs d = Some vd" and "cs s = Some vs"
    and "0 < unat vd" and "unat vd < 2 ^ 31" and "0 < unat vs" and "unat vs < 2 ^ 31 - 1"
  shows "\<exists>cs'. update_references cs (Some d) (Some s) = Ret (unat vd = 1, cs')
    \<and> map_option unat (cs' d) = Some (unat vd - 1) \<and> map_option unat (cs' s) = Some (unat vs + 1)
    \<and> (\<forall>p. p \<noteq> d \<and> p \<noteq> s \<longrightarrow> cs' p = cs p)"
proof -
  have "atomic_positive vd" "atomic_positive vs" using assms by (simp_all add: atomic_positive_iff)
  moreover have "unat vd = 1 \<longleftrightarrow> vd = 1" by (simp add: unat_eq_iff)
  ultimately show ?thesis
    using assms unat_count_inc [of vs] unat_count_dec [of vd]
    by (auto simp: update_references_def count_ok_def)
qed

theorem update_references_counts_witness:
  "\<exists>cs'. update_references [1 \<mapsto> 1, 2 \<mapsto> 5] (Some 1) (Some 2) = Ret (True, cs')
    \<and> map_option unat (cs' 1) = Some 0 \<and> map_option unat (cs' 2) = Some 6"
  using update_references_counts [of 1 2 "[1 \<mapsto> 1, 2 \<mapsto> 5]" 1 5] by auto

end
