(* ===== verification/RefRaces.thy ===== *)
theory RefRaces imports Internal begin

text \<open>
  \<open>update_references\<close> of \<open>amdgpu/amdgpu_internal.h\<close> called by several threads at once. Every read
  and every addition of a counter is a step of its own, and a schedule says which thread makes the
  next step. One call alone is the function of \<^theory_text>\<open>Internal\<close>.
\<close>

section \<open>Calls and their steps\<close>

text \<open>Where a call is: before the test of the pointers, before the addition to \<open>src\<close>, before the
  assertion about \<open>dst\<close>, before the addition to \<open>dst\<close>, and back with its result.\<close>

datatype ref_at = Enter | AddSrc | AtDst | AddDst | Returned bool

record ref_call =
  call_dst :: "ptr option"
  call_src :: "ptr option"
  call_at :: ref_at

text \<open>Reading a counter of no object is a fault, as is a failed \<open>assert\<close>.\<close>

definition at_counter :: "counters \<Rightarrow> ptr option \<Rightarrow> (ptr \<Rightarrow> atomic_t \<Rightarrow> 'b outcome) \<Rightarrow> 'b outcome" where
  "at_counter cs p f =
     (case p of None \<Rightarrow> Fault | Some q \<Rightarrow> (case cs q of None \<Rightarrow> Fault | Some v \<Rightarrow> f q v))"

definition ref_step :: "ref_call \<Rightarrow> counters \<Rightarrow> (ref_call \<times> counters) outcome" where
  "ref_step c cs =
     (case call_at c of
        Enter \<Rightarrow>
          if call_dst c \<noteq> call_src c then
            (if call_src c \<noteq> None then
               at_counter cs (call_src c) (\<lambda>_ v.
                 if atomic_positive v then Ret (c\<lparr>call_at := AddSrc\<rparr>, cs) else Fault)
             else Ret (c\<lparr>call_at := AtDst\<rparr>, cs))
          else Ret (c\<lparr>call_at := Returned False\<rparr>, cs)
      | AddSrc \<Rightarrow> at_counter cs (call_src c) (\<lambda>s v. Ret (c\<lparr>call_at := AtDst\<rparr>, cs(s \<mapsto> v + 1)))
      | AtDst \<Rightarrow>
          if call_dst c \<noteq> None then
            at_counter cs (call_dst c) (\<lambda>_ v.
              if atomic_positive v then Ret (c\<lparr>call_at := AddDst\<rparr>, cs) else Fault)
          else Ret (c\<lparr>call_at := Returned False\<rparr>, cs)
      | AddDst \<Rightarrow>
          at_counter cs (call_dst c) (\<lambda>d v. Ret (c\<lparr>call_at := Returned (v = 1)\<rparr>, cs(d \<mapsto> v + (- 1))))
      | Returned b \<Rightarrow> Ret (c, cs))"

text \<open>A schedule names threads; a name of no thread is skipped.\<close>

fun ref_schedule :: "nat list \<Rightarrow> counters \<Rightarrow> ref_call list \<Rightarrow> (counters \<times> ref_call list) outcome" where
  "ref_schedule [] cs calls = Ret (cs, calls)"
| "ref_schedule (i # sch) cs calls =
     (if i < length calls then
        bind_outcome (ref_step (calls ! i) cs)
          (\<lambda>(c, cs'). ref_schedule sch cs' (calls[i := c]))
      else ref_schedule sch cs calls)"

definition ref_enter :: "ptr option \<Rightarrow> ptr option \<Rightarrow> ref_call" where
  "ref_enter dst src = \<lparr>call_dst = dst, call_src = src, call_at = Enter\<rparr>"

text \<open>A call that nothing interrupts.\<close>

lemma ref_alone:
  "ref_schedule [0, 0, 0, 0] cs [ref_enter dst src] =
     bind_outcome (update_references cs dst src)
       (\<lambda>(b, cs'). Ret (cs', [\<lparr>call_dst = dst, call_src = src, call_at = Returned b\<rparr>]))"
  by (auto simp: ref_enter_def ref_step_def at_counter_def update_references_def split: option.split)

section \<open>Counting calls\<close>

definition number :: "('a \<Rightarrow> bool) \<Rightarrow> 'a list \<Rightarrow> nat" where
  "number P xs = length (filter P xs)"

lemma number_upd:
  assumes "i < length xs"
  shows "number P (xs[i := y]) + of_bool (P (xs ! i)) = number P xs + of_bool (P y)"
  using assms
proof (induction xs arbitrary: i)
  case (Cons x xs)
  then show ?case by (cases i) (auto simp: number_def)
qed simp

lemma number_mono: "(\<And>x. x \<in> set xs \<Longrightarrow> P x \<Longrightarrow> Q x) \<Longrightarrow> number P xs \<le> number Q xs"
  unfolding number_def by (induction xs) (auto simp: le_SucI)

lemma number_lt:
  assumes "i < length xs" and "Q (xs ! i)" and "\<not> P (xs ! i)" and "\<And>x. P x \<Longrightarrow> Q x"
  shows "number P xs < number Q xs"
  using assms
proof (induction xs arbitrary: i)
  case (Cons x xs)
  have m: "number P xs \<le> number Q xs" using Cons.prems(4) by (rule number_mono)
  show ?case
  proof (cases i)
    case 0
    then show ?thesis using Cons.prems m by (simp add: number_def)
  next
    case (Suc j)
    then have "number P xs < number Q xs" using Cons by simp
    then show ?thesis using Cons.prems(4) by (simp add: number_def)
  qed
qed simp

text \<open>What a call does to the counter of \<open>p\<close>: whether it is to drop or to take a reference, whether
  it has done so, and whether it came back with the order to free.\<close>

definition drops :: "ptr \<Rightarrow> ref_call \<Rightarrow> bool" where
  "drops p c \<longleftrightarrow> call_dst c = Some p \<and> call_dst c \<noteq> call_src c"

definition takes :: "ptr \<Rightarrow> ref_call \<Rightarrow> bool" where
  "takes p c \<longleftrightarrow> call_src c = Some p \<and> call_dst c \<noteq> call_src c"

definition is_back :: "ref_call \<Rightarrow> bool" where
  "is_back c \<longleftrightarrow> (case call_at c of Returned _ \<Rightarrow> True | _ \<Rightarrow> False)"

definition dropped :: "ptr \<Rightarrow> ref_call \<Rightarrow> bool" where
  "dropped p c \<longleftrightarrow> drops p c \<and> is_back c"

definition taken :: "ptr \<Rightarrow> ref_call \<Rightarrow> bool" where
  "taken p c \<longleftrightarrow> takes p c \<and> call_at c \<noteq> Enter \<and> call_at c \<noteq> AddSrc"

definition frees :: "ptr \<Rightarrow> ref_call \<Rightarrow> bool" where
  "frees p c \<longleftrightarrow> call_dst c = Some p \<and> call_at c = Returned True"

text \<open>The references of a set of calls are held: every reference to be dropped is a different one
  of those counted, and what is copied is held by somebody who does not drop it meanwhile. Counters
  stay within 31 bits.\<close>

definition refs_held :: "counters \<Rightarrow> ref_call list \<Rightarrow> bool" where
  "refs_held cs calls \<longleftrightarrow>
     (\<forall>p. (case cs p of
             None \<Rightarrow> number (drops p) calls = 0 \<and> number (takes p) calls = 0
           | Some v \<Rightarrow>
               number (drops p) calls + of_bool (0 < number (takes p) calls) \<le> unat v
               \<and> unat v + number (takes p) calls < 2 ^ 31))"

section \<open>What every interleaving keeps\<close>

definition call_ok :: "ref_call \<Rightarrow> bool" where
  "call_ok c \<longleftrightarrow>
     (case call_at c of
        Enter \<Rightarrow> True
      | AddSrc \<Rightarrow> call_dst c \<noteq> call_src c \<and> call_src c \<noteq> None
      | AtDst \<Rightarrow> call_dst c \<noteq> call_src c
      | AddDst \<Rightarrow> call_dst c \<noteq> call_src c \<and> call_dst c \<noteq> None
      | Returned b \<Rightarrow> b \<longrightarrow> call_dst c \<noteq> call_src c \<and> call_dst c \<noteq> None)"

text \<open>A counter is what it was at first, with the references taken and without those dropped, and
  the order to free has been given once if it has come down to 0.\<close>

definition counter_inv :: "atomic_t \<Rightarrow> atomic_t \<Rightarrow> ptr \<Rightarrow> ref_call list \<Rightarrow> bool" where
  "counter_inv v w p calls \<longleftrightarrow>
     unat w + number (dropped p) calls = unat v + number (taken p) calls
     \<and> number (frees p) calls = of_bool (0 < unat v \<and> unat w = 0)"

definition race_inv :: "counters \<Rightarrow> counters \<Rightarrow> ref_call list \<Rightarrow> bool" where
  "race_inv cs0 cs calls \<longleftrightarrow>
     refs_held cs0 calls \<and> (\<forall>c \<in> set calls. call_ok c)
     \<and> (\<forall>p. case cs0 p of
               None \<Rightarrow> cs p = None
             | Some v \<Rightarrow> (case cs p of None \<Rightarrow> False | Some w \<Rightarrow> counter_inv v w p calls))"

lemma counter_of:
  assumes inv: "race_inv cs0 cs calls" and p: "drops p (calls ! i) \<or> takes p (calls ! i)"
    and i: "i < length calls"
  obtains v w where "cs0 p = Some v" "cs p = Some w" "counter_inv v w p calls"
    "number (drops p) calls + of_bool (0 < number (takes p) calls) \<le> unat v"
    "unat v + number (takes p) calls < 2 ^ 31"
proof -
  have "0 < number (drops p) calls \<or> 0 < number (takes p) calls"
    using p i by (auto simp: number_def filter_empty_conv)
  then show thesis
    using inv that unfolding race_inv_def refs_held_def
    by (auto split: option.splits dest!: spec [of _ p])
qed

lemma counter_room:
  assumes inv: "counter_inv v w p calls"
    and held: "number (drops p) calls + of_bool (0 < number (takes p) calls) \<le> unat v"
    and room: "unat v + number (takes p) calls < 2 ^ 31"
    and i: "i < length calls" and pending: "takes p (calls ! i) \<or> drops p (calls ! i) \<and> \<not> is_back (calls ! i)"
  shows "atomic_positive w" "0 < unat v"
proof -
  have td: "number (dropped p) calls \<le> number (drops p) calls"
    "number (taken p) calls \<le> number (takes p) calls"
    by (auto intro!: number_mono simp: dropped_def taken_def)
  have "0 < number (takes p) calls \<or> number (dropped p) calls < number (drops p) calls"
  proof (cases "takes p (calls ! i)")
    case True
    then show ?thesis using i by (auto simp: number_def filter_empty_conv)
  next
    case False
    then show ?thesis using pending i by (auto intro!: number_lt simp: dropped_def)
  qed
  then show "atomic_positive w" "0 < unat v"
    using inv held room td by (auto simp: counter_inv_def atomic_positive_iff)
qed

lemma pending_counter:
  assumes inv: "race_inv cs0 cs calls" and i: "i < length calls"
    and pending: "takes p (calls ! i) \<or> drops p (calls ! i) \<and> \<not> is_back (calls ! i)"
  obtains v w where "cs0 p = Some v" "cs p = Some w" "counter_inv v w p calls"
    "atomic_positive w" "0 < unat v"
  using counter_of [OF inv _ i, of p] counter_room [OF _ _ _ i, of _ _ p] pending by metis

lemma counter_inv_upd:
  assumes "counter_inv v w p calls" and "i < length calls"
    and "unat w' + of_bool (dropped p c') + of_bool (taken p (calls ! i))
       = unat w + of_bool (dropped p (calls ! i)) + of_bool (taken p c')"
    and "of_bool (frees p c') + of_bool (0 < unat v \<and> unat w = 0)
       = of_bool (frees p (calls ! i)) + (of_bool (0 < unat v \<and> unat w' = 0) :: nat)"
  shows "counter_inv v w' p (calls[i := c'])"
  using assms number_upd [of i calls "dropped p" c'] number_upd [of i calls "taken p" c']
    number_upd [of i calls "frees p" c']
  unfolding counter_inv_def by linarith

lemma race_inv_upd:
  assumes inv: "race_inv cs0 cs calls" and i: "i < length calls"
    and same: "call_dst c' = call_dst (calls ! i)" "call_src c' = call_src (calls ! i)"
    and ok: "call_ok c'"
    and none: "\<And>p. cs p = None \<Longrightarrow> cs' p = None"
    and each: "\<And>p v w. cs0 p = Some v \<Longrightarrow> cs p = Some w \<Longrightarrow> counter_inv v w p calls \<Longrightarrow>
      \<exists>w'. cs' p = Some w' \<and> counter_inv v w' p (calls[i := c'])"
  shows "race_inv cs0 cs' (calls[i := c'])"
proof -
  have "drops p c' = drops p (calls ! i)" "takes p c' = takes p (calls ! i)" for p
    using same by (simp_all add: drops_def takes_def)
  then have "number (drops p) (calls[i := c']) = number (drops p) calls"
    "number (takes p) (calls[i := c']) = number (takes p) calls" for p
    using number_upd [OF i, of "drops p" c'] number_upd [OF i, of "takes p" c'] by simp_all
  then have "refs_held cs0 (calls[i := c'])"
    using inv unfolding race_inv_def refs_held_def by (simp only: simp_thms)
  moreover have "\<forall>c \<in> set (calls[i := c']). call_ok c"
    using inv ok set_update_subset_insert [of calls i c'] unfolding race_inv_def by blast
  moreover have "case cs0 p of None \<Rightarrow> cs' p = None
      | Some v \<Rightarrow> (case cs' p of None \<Rightarrow> False | Some w \<Rightarrow> counter_inv v w p (calls[i := c']))" for p
  proof -
    have "case cs0 p of None \<Rightarrow> cs p = None
      | Some v \<Rightarrow> (case cs p of None \<Rightarrow> False | Some w \<Rightarrow> counter_inv v w p calls)"
      using inv by (simp add: race_inv_def)
    then show ?thesis using none [of p] each [of p] by (fastforce split: option.splits)
  qed
  ultimately show ?thesis by (simp add: race_inv_def)
qed

text \<open>A step that moves a call on without an addition.\<close>

lemma race_inv_move:
  assumes inv: "race_inv cs0 cs calls" and i: "i < length calls" and ok: "call_ok (c\<lparr>call_at := a\<rparr>)"
    and c: "c = calls ! i" and quiet: "\<And>p. dropped p (c\<lparr>call_at := a\<rparr>) = dropped p c"
      "\<And>p. taken p (c\<lparr>call_at := a\<rparr>) = taken p c" "\<And>p. frees p (c\<lparr>call_at := a\<rparr>) = frees p c"
  shows "race_inv cs0 cs (calls[i := c\<lparr>call_at := a\<rparr>])"
  by (rule race_inv_upd [OF inv i _ _ ok])
    (use c quiet i in \<open>auto intro!: counter_inv_upd\<close>)

text \<open>Steps left to a call.\<close>

definition steps_left :: "ref_call \<Rightarrow> nat" where
  "steps_left c = (case call_at c of Enter \<Rightarrow> 4 | AddSrc \<Rightarrow> 3 | AtDst \<Rightarrow> 2 | AddDst \<Rightarrow> 1 | Returned _ \<Rightarrow> 0)"

lemma is_back_iff: "is_back c \<longleftrightarrow> steps_left c = 0"
  by (simp add: is_back_def steps_left_def split: ref_at.split)

lemmas call_state = call_ok_def dropped_def taken_def frees_def drops_def takes_def is_back_def steps_left_def

text \<open>A step that adds to the counter of \<open>x\<close>.\<close>

lemma race_inv_count:
  assumes inv: "race_inv cs0 cs calls" and i: "i < length calls" and ok: "call_ok (c\<lparr>call_at := a\<rparr>)"
    and c: "c = calls ! i" and x: "cs x = Some w"
    and hit: "\<And>v. cs0 x = Some v \<Longrightarrow> counter_inv v w x calls \<Longrightarrow> counter_inv v u x (calls[i := c\<lparr>call_at := a\<rparr>])"
    and quiet: "\<And>p. p \<noteq> x \<Longrightarrow> dropped p (c\<lparr>call_at := a\<rparr>) = dropped p c
      \<and> taken p (c\<lparr>call_at := a\<rparr>) = taken p c \<and> frees p (c\<lparr>call_at := a\<rparr>) = frees p c"
  shows "race_inv cs0 (cs(x \<mapsto> u)) (calls[i := c\<lparr>call_at := a\<rparr>])"
proof (rule race_inv_upd [OF inv i])
  fix p v w'
  assume p: "cs0 p = Some v" "cs p = Some w'" "counter_inv v w' p calls"
  show "\<exists>u'. (cs(x \<mapsto> u)) p = Some u' \<and> counter_inv v u' p (calls[i := c\<lparr>call_at := a\<rparr>])"
  proof (cases "p = x")
    case True
    then show ?thesis using p x hit by simp
  next
    case False
    then have "counter_inv v w' p (calls[i := c\<lparr>call_at := a\<rparr>])"
      using quiet c by (intro counter_inv_upd [OF p(3) i]) simp_all
    then show ?thesis using False p by simp
  qed
qed (use c ok x in \<open>auto split: if_split_asm\<close>)

text \<open>Thread \<open>i\<close> can make its next step, and the invariant holds after it.\<close>

definition steps_on :: "counters \<Rightarrow> counters \<Rightarrow> ref_call list \<Rightarrow> nat \<Rightarrow> bool" where
  "steps_on cs0 cs calls i \<longleftrightarrow>
     (\<exists>c' cs'. ref_step (calls ! i) cs = Ret (c', cs') \<and> race_inv cs0 cs' (calls[i := c'])
        \<and> steps_left c' \<le> steps_left (calls ! i) - 1)"

lemmas step_result = steps_on_def ref_step_def steps_left_def at_counter_def

lemma race_enter:
  assumes inv: "race_inv cs0 cs calls" and i: "i < length calls" and at: "call_at (calls ! i) = Enter"
  shows "steps_on cs0 cs calls i"
proof -
  note move = race_inv_move [OF inv i _ refl]
  consider "call_dst (calls ! i) = call_src (calls ! i)" | "call_src (calls ! i) = None" "call_dst (calls ! i) \<noteq> None"
    | x where "call_src (calls ! i) = Some x" "call_dst (calls ! i) \<noteq> call_src (calls ! i)"
    by (cases "call_src (calls ! i)") force+
  then show ?thesis
  proof cases
    case 1
    then have "race_inv cs0 cs (calls[i := (calls ! i)\<lparr>call_at := Returned False\<rparr>])"
      by (intro move) (auto simp: call_state at)
    then show ?thesis using 1 at by (auto simp: step_result)
  next
    case 2
    then have "race_inv cs0 cs (calls[i := (calls ! i)\<lparr>call_at := AtDst\<rparr>])"
      by (intro move) (auto simp: call_state at)
    then show ?thesis using 2 at by (auto simp: step_result)
  next
    case (3 x)
    then have "takes x (calls ! i)" by (simp add: takes_def)
    then have "\<exists>w. cs x = Some w \<and> atomic_positive w" by (metis pending_counter [OF inv i])
    moreover have "race_inv cs0 cs (calls[i := (calls ! i)\<lparr>call_at := AddSrc\<rparr>])"
      using 3 by (intro move) (auto simp: call_state at)
    ultimately show ?thesis using 3 at by (auto simp: step_result)
  qed
qed

lemma race_add_src:
  assumes inv: "race_inv cs0 cs calls" and i: "i < length calls" and at: "call_at (calls ! i) = AddSrc"
    and x: "call_src (calls ! i) = Some x" "call_dst (calls ! i) \<noteq> call_src (calls ! i)"
  shows "steps_on cs0 cs calls i"
proof -
  have "takes x (calls ! i)" using x by (simp add: takes_def)
  then obtain w where cnt: "cs x = Some w" "atomic_positive w" by (metis pending_counter [OF inv i])
  then have w: "0 < unat w" "unat (w + 1) = unat w + 1" by (auto simp: atomic_positive_iff unat_add_less)
  have "race_inv cs0 (cs(x \<mapsto> w + 1)) (calls[i := (calls ! i)\<lparr>call_at := AtDst\<rparr>])"
    by (rule race_inv_count [OF inv i _ refl cnt(1)])
      (use x at w i in \<open>auto simp: call_state intro!: counter_inv_upd\<close>)
  then show ?thesis using x at cnt(1) by (auto simp: step_result)
qed

lemma race_at_dst:
  assumes inv: "race_inv cs0 cs calls" and i: "i < length calls" and at: "call_at (calls ! i) = AtDst"
    and ne: "call_dst (calls ! i) \<noteq> call_src (calls ! i)"
  shows "steps_on cs0 cs calls i"
proof (cases "call_dst (calls ! i)")
  case None
  then have "race_inv cs0 cs (calls[i := (calls ! i)\<lparr>call_at := Returned False\<rparr>])"
    by (intro race_inv_move [OF inv i _ refl]) (auto simp: call_state at)
  then show ?thesis using None at by (auto simp: step_result)
next
  case (Some x)
  then have "drops x (calls ! i) \<and> \<not> is_back (calls ! i)" using ne at by (simp add: drops_def is_back_def)
  then have "\<exists>w. cs x = Some w \<and> atomic_positive w" by (metis pending_counter [OF inv i])
  moreover have "race_inv cs0 cs (calls[i := (calls ! i)\<lparr>call_at := AddDst\<rparr>])"
    using Some ne by (intro race_inv_move [OF inv i _ refl]) (auto simp: call_state at)
  ultimately show ?thesis using Some at by (auto simp: step_result)
qed

lemma race_add_dst:
  assumes inv: "race_inv cs0 cs calls" and i: "i < length calls" and at: "call_at (calls ! i) = AddDst"
    and x: "call_dst (calls ! i) = Some x" "call_dst (calls ! i) \<noteq> call_src (calls ! i)"
  shows "steps_on cs0 cs calls i"
proof -
  have "drops x (calls ! i) \<and> \<not> is_back (calls ! i)" using x at by (simp add: drops_def is_back_def)
  then obtain v w where cnt: "cs x = Some w" "atomic_positive w" "cs0 x = Some v" "0 < unat v"
    by (metis pending_counter [OF inv i])
  then have w: "0 < unat w" "unat (w + (- 1)) + 1 = unat w" "w = 1 \<longleftrightarrow> unat (w + (- 1)) = 0"
    using unat_count_dec [of w] by (auto simp: atomic_positive_iff unat_eq_iff)
  have "race_inv cs0 (cs(x \<mapsto> w + (- 1))) (calls[i := (calls ! i)\<lparr>call_at := Returned (w = 1)\<rparr>])"
    by (rule race_inv_count [OF inv i _ refl cnt(1)])
      (use x at w cnt i in \<open>auto simp: call_state intro!: counter_inv_upd\<close>)
  then show ?thesis using x at cnt(1) by (auto simp: step_result)
qed

lemma race_step:
  assumes inv: "race_inv cs0 cs calls" and i: "i < length calls"
  shows "steps_on cs0 cs calls i"
proof -
  have ok: "call_ok (calls ! i)" using inv i by (simp add: race_inv_def)
  show ?thesis
  proof (cases "call_at (calls ! i)")
    case Enter
    then show ?thesis by (rule race_enter [OF inv i])
  next
    case AddSrc
    then show ?thesis using race_add_src [OF inv i] ok by (auto simp: call_ok_def)
  next
    case AtDst
    then show ?thesis using race_at_dst [OF inv i] ok by (simp add: call_ok_def)
  next
    case AddDst
    then show ?thesis using race_add_dst [OF inv i] ok by (auto simp: call_ok_def)
  next
    case (Returned b)
    then show ?thesis using inv i by (auto simp: step_result)
  qed
qed

lemma ref_step_same:
  "ref_step c cs = Ret (c', cs') \<Longrightarrow> call_dst c' = call_dst c \<and> call_src c' = call_src c"
  by (auto simp: ref_step_def at_counter_def split: ref_at.splits option.splits if_splits)

definition call_args :: "ref_call \<Rightarrow> ptr option \<times> ptr option" where
  "call_args c = (call_dst c, call_src c)"

lemma race_schedule:
  assumes "race_inv cs0 cs calls"
  shows "\<exists>cs' calls'. ref_schedule sch cs calls = Ret (cs', calls') \<and> race_inv cs0 cs' calls'
    \<and> map call_args calls' = map call_args calls
    \<and> (\<forall>i < length calls. steps_left (calls' ! i) \<le> steps_left (calls ! i) - count_list sch i)"
  using assms
proof (induction sch arbitrary: cs calls)
  case (Cons i sch)
  show ?case
  proof (cases "i < length calls")
    case True
    then obtain c' cs1 where step: "ref_step (calls ! i) cs = Ret (c', cs1)"
        "race_inv cs0 cs1 (calls[i := c'])" "steps_left c' \<le> steps_left (calls ! i) - 1"
      using race_step [OF Cons.prems] unfolding steps_on_def by blast
    have "map call_args (calls[i := c']) = map call_args calls"
      using ref_step_same [OF step(1)] True
      by (simp add: map_update call_args_def list_update_same_conv)
    moreover obtain cs' calls' where rest: "ref_schedule sch cs1 (calls[i := c']) = Ret (cs', calls')"
        "race_inv cs0 cs' calls'" "map call_args calls' = map call_args (calls[i := c'])"
        "\<And>j. j < length calls \<Longrightarrow> steps_left (calls' ! j) \<le> steps_left (calls[i := c'] ! j) - count_list sch j"
      using Cons.IH [OF step(2)] by auto
    moreover have "steps_left (calls' ! j) \<le> steps_left (calls ! j) - count_list (i # sch) j"
      if "j < length calls" for j
      using rest(4) [OF that] step(3) that by (cases "j = i") auto
    ultimately show ?thesis using True step(1) by auto
  next
    case False
    then show ?thesis using Cons.IH [OF Cons.prems] by auto
  qed
qed simp

lemma number_args:
  assumes "map call_args calls' = map call_args calls"
  shows "number (drops p) calls' = number (drops p) calls" "number (takes p) calls' = number (takes p) calls"
proof -
  have n: "number (\<lambda>c. P (call_args c)) xs = length (filter P (map call_args xs))" for P and xs :: "ref_call list"
    by (simp add: number_def filter_map comp_def)
  have "drops p = (\<lambda>c. (\<lambda>(d, s). d = Some p \<and> d \<noteq> s) (call_args c))"
    "takes p = (\<lambda>c. (\<lambda>(d, s). s = Some p \<and> d \<noteq> s) (call_args c))"
    by (auto simp: drops_def takes_def call_args_def fun_eq_iff)
  then show "number (drops p) calls' = number (drops p) calls" "number (takes p) calls' = number (takes p) calls"
    using assms by (simp_all only: n)
qed

lemma race_start:
  assumes "refs_held cs calls" and "\<forall>c \<in> set calls. call_at c = Enter"
  shows "race_inv cs cs calls"
proof -
  have z: "number (dropped p) calls = 0" "number (taken p) calls = 0" "number (frees p) calls = 0" for p
    using assms(2) by (auto simp: number_def filter_empty_conv call_state)
  then show ?thesis
    using assms by (auto simp: race_inv_def counter_inv_def call_ok_def split: option.splits)
qed

section \<open>Properties\<close>

text \<open>C21. Any number of concurrent assignments of references that are held, in any interleaving of
  their single reads and additions: no assertion fails, and at every moment the order to free an
  object has been given to exactly one caller if its counter has come down to 0, and to none
  otherwise. Once every caller has made its four steps all are back, and every counter is what it
  was with the references taken and without those dropped.\<close>

theorem concurrent_references_freed_once:
  assumes held: "refs_held cs calls" and enter: "\<forall>c \<in> set calls. call_at c = Enter"
  shows "\<exists>cs' calls'. ref_schedule sch cs calls = Ret (cs', calls')
    \<and> (\<forall>p v. cs p = Some v \<and> v \<noteq> 0 \<longrightarrow> number (frees p) calls' = (if cs' p = Some 0 then 1 else 0))
    \<and> ((\<forall>i < length calls. 4 \<le> count_list sch i) \<longrightarrow>
         (\<forall>c \<in> set calls'. is_back c)
         \<and> (\<forall>p v. cs p = Some v \<longrightarrow>
              map_option unat (cs' p) = Some (unat v + number (takes p) calls - number (drops p) calls)))"
proof -
  obtain cs' calls' where run: "ref_schedule sch cs calls = Ret (cs', calls')" "race_inv cs cs' calls'"
      "map call_args calls' = map call_args calls"
      "\<And>i. i < length calls \<Longrightarrow> steps_left (calls' ! i) \<le> steps_left (calls ! i) - count_list sch i"
    using race_schedule [OF race_start [OF held enter]] by blast
  have cnt: "\<exists>w. cs' p = Some w \<and> counter_inv v w p calls'" if "cs p = Some v" for p v
    using run(2) that unfolding race_inv_def by (force split: option.splits dest: spec [of _ p])
  have "number (frees p) calls' = (if cs' p = Some 0 then 1 else 0)" if "cs p = Some v" "v \<noteq> 0" for p v
    using cnt [OF that(1)] that(2) by (auto simp: counter_inv_def unat_gt_0 unat_eq_zero)
  moreover have "(\<forall>c \<in> set calls'. is_back c) \<and> (\<forall>p v. cs p = Some v \<longrightarrow>
      map_option unat (cs' p) = Some (unat v + number (takes p) calls - number (drops p) calls))"
    if "\<forall>i < length calls. 4 \<le> count_list sch i"
  proof -
    have "length calls' = length calls" using run(3) map_eq_imp_length_eq by blast
    moreover have "steps_left (calls ! i) \<le> 4" for i by (simp add: steps_left_def split: ref_at.split)
    ultimately have zero: "steps_left c = 0" if "c \<in> set calls'" for c
      using run(4) \<open>\<forall>i < length calls. 4 \<le> count_list sch i\<close> that
      by (metis diff_is_0_eq in_set_conv_nth le_trans le_zero_eq)
    then have b: "\<forall>c \<in> set calls'. is_back c" by (simp add: is_back_iff)
    then have "number (dropped p) calls' = number (drops p) calls'"
      "number (taken p) calls' = number (takes p) calls'" for p
      by (auto intro!: antisym number_mono simp: dropped_def taken_def is_back_def split: ref_at.splits)
    then show ?thesis
      using b cnt number_args [OF run(3)] by (force simp: counter_inv_def)
  qed
  ultimately show ?thesis using run(1) by blast
qed

definition demo_calls :: "ref_call list" where
  "demo_calls = [ref_enter (Some 1) (Some 2), ref_enter (Some 1) None, ref_enter None (Some 2)]"

theorem concurrent_references_freed_once_witness:
  "\<exists>cs' calls'. ref_schedule [0, 1, 0, 1, 2, 0, 1, 0, 2, 2, 1, 2, 9] [1 \<mapsto> 2, 2 \<mapsto> 1] demo_calls = Ret (cs', calls')
    \<and> number (frees 1) calls' = 1 \<and> number (frees 2) calls' = 0
    \<and> map_option unat (cs' 1) = Some 0 \<and> map_option unat (cs' 2) = Some 3"
proof -
  let ?cs = "[1 \<mapsto> 2, 2 \<mapsto> 1] :: counters" and ?sch = "[0, 1, 0, 1, 2, 0, 1, 0, 2, 2, 1, 2, 9] :: nat list"
  have held: "refs_held ?cs demo_calls" and enter: "\<forall>c \<in> set demo_calls. call_at c = Enter"
    by (auto simp: refs_held_def number_def drops_def takes_def ref_enter_def demo_calls_def)
  have sch: "\<forall>i < length demo_calls. 4 \<le> count_list ?sch i"
    by (simp add: demo_calls_def All_less_Suc)
  obtain cs' calls' where run: "ref_schedule ?sch ?cs demo_calls = Ret (cs', calls')"
    and frees: "\<And>p v. ?cs p = Some v \<and> v \<noteq> 0 \<Longrightarrow> number (frees p) calls' = (if cs' p = Some 0 then 1 else 0)"
    and cnt: "\<And>p v. ?cs p = Some v \<Longrightarrow>
      map_option unat (cs' p) = Some (unat v + number (takes p) demo_calls - number (drops p) demo_calls)"
    using concurrent_references_freed_once [OF held enter, of ?sch] sch by blast
  have "map_option unat (cs' 1) = Some 0" "map_option unat (cs' 2) = Some 3"
    using cnt [of 1] cnt [of 2]
    by (auto simp: number_def drops_def takes_def ref_enter_def demo_calls_def numeral_3_eq_3)
  moreover from this have "number (frees 1) calls' = 1" "number (frees 2) calls' = 0"
    using frees [of 1] frees [of 2] by (auto simp: unat_eq_zero)
  ultimately show ?thesis using run by blast
qed

end
