(* ===== verification/Bo.thy ===== *)
theory Bo imports Internal HandleTable "HOL-Library.Multiset" begin

text \<open>
  Buffer objects, \<open>amdgpu/amdgpu_bo.c\<close>: creation, import, export, reference counting, CPU mappings
  and GPU virtual address updates of the buffers of one device. The objects of the device are a heap
  indexed by pointer; \<open>bo->dev\<close> is implicit, since all of them belong to that device. The entries
  of the accelerant's two vtables and \<open>munmap\<close> are parameters over an abstract state \<open>'a\<close>; their
  results are 0 or an error code. \<open>bo_table_mutex\<close> and \<open>cpu_access_mutex\<close> make each operation
  atomic. The pointer \<open>calloc\<close> would return is an argument, \<open>newp\<close>.
\<close>

section \<open>Data\<close>

datatype amdgpu_bo_handle_type =
    amdgpu_bo_handle_type_gem_flink_name
  | amdgpu_bo_handle_type_kms
  | amdgpu_bo_handle_type_dma_buf_fd
  | amdgpu_bo_handle_type_kms_noimport
  | amdgpu_bo_handle_type_invalid int

record amdgpu_bo_alloc_request =
  req_alloc_size :: u64
  req_phys_alignment :: u64
  req_preferred_heap :: u32
  req_flags :: u64

record amdgpu_bo_metadata =
  md_flags :: u64
  md_tiling_info :: u64
  md_size_metadata :: u32
  md_umd_metadata :: "u32 list"

record amdgpu_bo_info =
  info_alloc_size :: u64
  info_phys_alignment :: u64
  info_preferred_heap :: u32
  info_alloc_flags :: u64
  info_metadata :: amdgpu_bo_metadata

record amdgpu_bo =
  bo_refcount :: atomic_t
  bo_alloc_size :: u64
  bo_handle :: u32
  bo_flink_name :: u32
  bo_cpu_ptr :: u64
  bo_cpu_map_count :: u64

text \<open>
  \<open>cpu_map_count\<close> is an \<open>int64_t\<close>, read with \<open>sint\<close>. It is no atomic counter: counting it up
  from its largest value is undefined in C, and a fault here.
\<close>

definition INT64_MAX :: u64 where "INT64_MAX = 0x7FFFFFFFFFFFFFFF"

text \<open>What the buffer code calls in the accelerant and in the C library.\<close>

record 'a bo_ops =
  AmdgpuBoAlloc :: "'a \<Rightarrow> amdgpu_bo_alloc_request \<Rightarrow> int \<times> u32 \<times> 'a"
  AmdgpuBoSetMetadata :: "'a \<Rightarrow> u32 \<Rightarrow> amdgpu_bo_metadata \<Rightarrow> int \<times> 'a"
  AmdgpuBoQueryInfo :: "'a \<Rightarrow> u32 \<Rightarrow> int \<times> amdgpu_bo_info \<times> 'a"
  AmdgpuBoCpuMap :: "'a \<Rightarrow> u32 \<Rightarrow> int \<times> u64 \<times> 'a"
  AmdgpuCreateBoFromUserMem :: "'a \<Rightarrow> u64 \<Rightarrow> u64 \<Rightarrow> int \<times> u32 \<times> 'a"
  AmdgpuBoVaOpRaw :: "'a \<Rightarrow> u32 \<Rightarrow> u64 \<Rightarrow> u64 \<Rightarrow> u64 \<Rightarrow> u64 \<Rightarrow> u32 \<Rightarrow> int \<times> 'a"
  DrmCloseBufferHandle :: "'a \<Rightarrow> u32 \<Rightarrow> 'a"
  DrmPrimeHandleToFD :: "'a \<Rightarrow> u32 \<Rightarrow> int \<times> u32 \<times> 'a"
  DrmPrimeFDToHandle :: "'a \<Rightarrow> u32 \<Rightarrow> int \<times> u32 \<times> 'a"
  drm_munmap :: "'a \<Rightarrow> u64 \<Rightarrow> u64 \<Rightarrow> int \<times> 'a"

text \<open>The part of \<open>struct amdgpu_device\<close> the buffer code works on, and the heap of its buffers.\<close>

record 'a bo_dev =
  acc :: 'a
  bo_handles :: "ptr handle_table"
  bo_flink_names :: "ptr handle_table"
  bos :: "ptr \<rightharpoonup> amdgpu_bo"

section \<open>Creation\<close>

text \<open>\<open>r\<close>, the object, the device and the rest of the script. The object is freed again when the
  handle table cannot grow.\<close>

definition amdgpu_bo_create ::
    "u64 \<Rightarrow> ptr \<Rightarrow> 'a bo_dev \<Rightarrow> u64 \<Rightarrow> u32 \<Rightarrow> alloc_script
     \<Rightarrow> (rc \<times> ptr option \<times> 'a bo_dev \<times> alloc_script) outcome" where
  "amdgpu_bo_create pagesize newp dev sz handle sc =
     (case calloc_next sc of
        (False, sc') \<Rightarrow> Ret (Err ENOMEM, None, dev, sc')
      | (True, sc') \<Rightarrow>
          bind_outcome (handle_table_insert pagesize (bo_handles dev) handle (Some newp) sc')
            (\<lambda>(r, table, sc'').
               if r \<noteq> OK then Ret (r, None, dev\<lparr>bo_handles := table\<rparr>, sc'')
               else
                 Ret (OK, Some newp,
                      dev\<lparr>bo_handles := table,
                          bos := (bos dev)(newp \<mapsto>
                            \<lparr>bo_refcount = 1, bo_alloc_size = sz, bo_handle = handle,
                             bo_flink_name = 0, bo_cpu_ptr = 0, bo_cpu_map_count = 0\<rparr>)\<rparr>,
                      sc'')))"

text \<open>The common end of \<open>amdgpu_bo_alloc\<close> and \<open>amdgpu_create_bo_from_user_mem\<close>.\<close>

definition bo_create_or_close ::
    "'a bo_ops \<Rightarrow> u64 \<Rightarrow> ptr \<Rightarrow> 'a bo_dev \<Rightarrow> u64 \<Rightarrow> u32 \<Rightarrow> alloc_script
     \<Rightarrow> (rc \<times> ptr option \<times> 'a bo_dev \<times> alloc_script) outcome" where
  "bo_create_or_close ops pagesize newp dev sz handle sc =
     bind_outcome (amdgpu_bo_create pagesize newp dev sz handle sc)
       (\<lambda>(r, bo, dev', sc').
          if r \<noteq> OK then
            Ret (r, bo, dev'\<lparr>acc := DrmCloseBufferHandle ops (acc dev') handle\<rparr>, sc')
          else Ret (r, bo, dev', sc'))"

definition amdgpu_bo_alloc ::
    "'a bo_ops \<Rightarrow> u64 \<Rightarrow> ptr \<Rightarrow> 'a bo_dev \<Rightarrow> amdgpu_bo_alloc_request \<Rightarrow> alloc_script
     \<Rightarrow> (rc \<times> ptr option \<times> 'a bo_dev \<times> alloc_script) outcome" where
  "amdgpu_bo_alloc ops pagesize newp dev alloc_buffer sc =
     (case AmdgpuBoAlloc ops (acc dev) alloc_buffer of
        (r, handle, a) \<Rightarrow>
          if r \<noteq> 0 then Ret (ext_rc r, None, dev\<lparr>acc := a\<rparr>, sc)
          else bo_create_or_close ops pagesize newp (dev\<lparr>acc := a\<rparr>)
                 (req_alloc_size alloc_buffer) handle sc)"

definition amdgpu_create_bo_from_user_mem ::
    "'a bo_ops \<Rightarrow> u64 \<Rightarrow> ptr \<Rightarrow> 'a bo_dev \<Rightarrow> u64 \<Rightarrow> u64 \<Rightarrow> alloc_script
     \<Rightarrow> (rc \<times> ptr option \<times> 'a bo_dev \<times> alloc_script) outcome" where
  "amdgpu_create_bo_from_user_mem ops pagesize newp dev cpu sz sc =
     (case AmdgpuCreateBoFromUserMem ops (acc dev) cpu sz of
        (r, handle, a) \<Rightarrow>
          if r \<noteq> 0 then Ret (ext_rc r, None, dev\<lparr>acc := a\<rparr>, sc)
          else bo_create_or_close ops pagesize newp (dev\<lparr>acc := a\<rparr>) sz handle sc)"

section \<open>Calls passed on to the accelerant\<close>

definition amdgpu_bo_set_metadata ::
    "'a bo_ops \<Rightarrow> 'a bo_dev \<Rightarrow> ptr \<Rightarrow> amdgpu_bo_metadata \<Rightarrow> (rc \<times> 'a bo_dev) outcome" where
  "amdgpu_bo_set_metadata ops dev p info =
     (case bos dev p of
        None \<Rightarrow> Fault
      | Some bo \<Rightarrow>
          (case AmdgpuBoSetMetadata ops (acc dev) (bo_handle bo) info of
             (r, a) \<Rightarrow> Ret (ext_rc r, dev\<lparr>acc := a\<rparr>)))"

definition amdgpu_bo_query_info ::
    "'a bo_ops \<Rightarrow> 'a bo_dev \<Rightarrow> ptr \<Rightarrow> (rc \<times> amdgpu_bo_info \<times> 'a bo_dev) outcome" where
  "amdgpu_bo_query_info ops dev p =
     (case bos dev p of
        None \<Rightarrow> Fault
      | Some bo \<Rightarrow>
          (case AmdgpuBoQueryInfo ops (acc dev) (bo_handle bo) of
             (r, info, a) \<Rightarrow> Ret (ext_rc r, info, dev\<lparr>acc := a\<rparr>)))"

definition amdgpu_bo_export_flink :: "amdgpu_bo \<Rightarrow> rc" where
  "amdgpu_bo_export_flink bo = Err ENOSYS"

text \<open>The shared handle is \<open>None\<close> when the function does not write it.\<close>

definition amdgpu_bo_export ::
    "'a bo_ops \<Rightarrow> 'a bo_dev \<Rightarrow> ptr \<Rightarrow> amdgpu_bo_handle_type
     \<Rightarrow> (rc \<times> u32 option \<times> 'a bo_dev) outcome" where
  "amdgpu_bo_export ops dev p type =
     (case bos dev p of
        None \<Rightarrow> Fault
      | Some bo \<Rightarrow>
          (case type of
             amdgpu_bo_handle_type_gem_flink_name \<Rightarrow>
               (let r = amdgpu_bo_export_flink bo
                in if r \<noteq> OK then Ret (r, None, dev) else Ret (OK, Some (bo_flink_name bo), dev))
           | amdgpu_bo_handle_type_kms \<Rightarrow> Ret (OK, Some (bo_handle bo), dev)
           | amdgpu_bo_handle_type_kms_noimport \<Rightarrow> Ret (OK, Some (bo_handle bo), dev)
           | amdgpu_bo_handle_type_dma_buf_fd \<Rightarrow>
               (case DrmPrimeHandleToFD ops (acc dev) (bo_handle bo) of
                  (r, fd, a) \<Rightarrow> Ret (ext_rc r, Some fd, dev\<lparr>acc := a\<rparr>))
           | amdgpu_bo_handle_type_invalid _ \<Rightarrow> Ret (Err EINVAL, None, dev)))"

section \<open>References\<close>

text \<open>\<open>atomic_add(&bo->refcount, 1)\<close>\<close>

definition amdgpu_bo_inc_ref :: "'a bo_dev \<Rightarrow> ptr \<Rightarrow> 'a bo_dev outcome" where
  "amdgpu_bo_inc_ref dev p =
     (case bos dev p of
        None \<Rightarrow> Fault
      | Some bo \<Rightarrow> Ret (dev\<lparr>bos := (bos dev)(p \<mapsto> bo\<lparr>bo_refcount := bo_refcount bo + 1\<rparr>)\<rparr>))"

section \<open>CPU mappings\<close>

text \<open>\<open>amdgpu_bo_cpu_map\<close>; the null pointer is 0.\<close>

definition amdgpu_bo_cpu_map ::
    "'a bo_ops \<Rightarrow> 'a bo_dev \<Rightarrow> ptr \<Rightarrow> (rc \<times> u64 option \<times> 'a bo_dev) outcome" where
  "amdgpu_bo_cpu_map ops dev p =
     (case bos dev p of
        None \<Rightarrow> Fault
      | Some bo \<Rightarrow>
          if bo_cpu_ptr bo \<noteq> 0 then
            (if sint (bo_cpu_map_count bo) > 0 \<and> bo_cpu_map_count bo \<noteq> INT64_MAX then
               Ret (OK, Some (bo_cpu_ptr bo),
                    dev\<lparr>bos := (bos dev)(p \<mapsto> bo\<lparr>bo_cpu_map_count := bo_cpu_map_count bo + 1\<rparr>)\<rparr>)
             else Fault)
          else if bo_cpu_map_count bo \<noteq> 0 then Fault
          else
            (case AmdgpuBoCpuMap ops (acc dev) (bo_handle bo) of
               (r, cpu, a) \<Rightarrow>
                 if r \<noteq> 0 then Ret (ext_rc r, None, dev\<lparr>acc := a\<rparr>)
                 else Ret (OK, Some cpu,
                           dev\<lparr>acc := a,
                               bos := (bos dev)(p \<mapsto> bo\<lparr>bo_cpu_ptr := cpu, bo_cpu_map_count := 1\<rparr>)\<rparr>)))"

definition amdgpu_bo_cpu_unmap ::
    "'a bo_ops \<Rightarrow> 'a bo_dev \<Rightarrow> ptr \<Rightarrow> (rc \<times> 'a bo_dev) outcome" where
  "amdgpu_bo_cpu_unmap ops dev p =
     (case bos dev p of
        None \<Rightarrow> Fault
      | Some bo \<Rightarrow>
          if sint (bo_cpu_map_count bo) < 0 then Fault
          else if bo_cpu_map_count bo = 0 then Ret (Err EINVAL, dev)
          else
            (let count = bo_cpu_map_count bo - 1
             in if sint count > 0 then
                  Ret (OK, dev\<lparr>bos := (bos dev)(p \<mapsto> bo\<lparr>bo_cpu_map_count := count\<rparr>)\<rparr>)
                else
                  (case drm_munmap ops (acc dev) (bo_cpu_ptr bo) (bo_alloc_size bo) of
                     (e, a) \<Rightarrow>
                       Ret (if e = 0 then OK else Err (Ext (- e)),
                            dev\<lparr>acc := a,
                                bos := (bos dev)(p \<mapsto>
                                  bo\<lparr>bo_cpu_map_count := count, bo_cpu_ptr := 0\<rparr>)\<rparr>))))"

section \<open>Free\<close>

text \<open>
  What \<open>amdgpu_bo_free\<close> does once the last reference is gone: the tables forget the object, a CPU
  mapping is released whatever its count, the handle is closed and the object freed.
\<close>

definition bo_release ::
    "'a bo_ops \<Rightarrow> 'a bo_dev \<Rightarrow> ptr \<Rightarrow> amdgpu_bo \<Rightarrow> 'a bo_dev outcome" where
  "bo_release ops dev p bo =
     bind_outcome (handle_table_remove (bo_handles dev) (bo_handle bo)) (\<lambda>handles.
     bind_outcome
       (if bo_flink_name bo \<noteq> 0 then handle_table_remove (bo_flink_names dev) (bo_flink_name bo)
        else Ret (bo_flink_names dev)) (\<lambda>names.
     bind_outcome
       (if sint (bo_cpu_map_count bo) > 0 then
          bind_outcome
            (amdgpu_bo_cpu_unmap ops
               (dev\<lparr>bo_handles := handles, bo_flink_names := names,
                    bos := (bos dev)(p \<mapsto> bo\<lparr>bo_cpu_map_count := 1\<rparr>)\<rparr>) p)
            (\<lambda>(_, dev'). Ret dev')
        else Ret (dev\<lparr>bo_handles := handles, bo_flink_names := names\<rparr>)) (\<lambda>dev'.
     Ret (dev'\<lparr>acc := DrmCloseBufferHandle ops (acc dev') (bo_handle bo),
               bos := (bos dev')(p := None)\<rparr>))))"

definition amdgpu_bo_free :: "'a bo_ops \<Rightarrow> 'a bo_dev \<Rightarrow> ptr \<Rightarrow> (rc \<times> 'a bo_dev) outcome" where
  "amdgpu_bo_free ops dev p =
     bind_outcome (update_references (cells_of bo_refcount (bos dev)) (Some p) None) (\<lambda>(last, cs).
       let heap = with_cells (\<lambda>v bo. bo\<lparr>bo_refcount := v\<rparr>) (bos dev) cs;
           dev' = dev\<lparr>bos := heap\<rparr>
       in if last then
            (case heap p of
               None \<Rightarrow> Fault
             | Some bo \<Rightarrow>
                 bind_outcome (bo_release ops dev' p bo) (\<lambda>dev''. Ret (OK, dev'')))
          else Ret (OK, dev'))"

section \<open>Import\<close>

text \<open>
  The DMA-buf part at the start: \<open>Inl\<close> is an early \<open>goto unlock\<close>, \<open>Inr\<close> gives the KMS handle
  and the buffer size.
\<close>

definition import_prime ::
    "'a bo_ops \<Rightarrow> 'a bo_dev \<Rightarrow> u32 \<Rightarrow> (rc \<times> 'a bo_dev) + (u32 \<times> u64 \<times> 'a bo_dev)" where
  "import_prime ops dev fd =
     (case DrmPrimeFDToHandle ops (acc dev) fd of
        (r, handle, a) \<Rightarrow>
          if r \<noteq> 0 then Inl (ext_rc r, dev\<lparr>acc := a\<rparr>)
          else
            (case AmdgpuBoQueryInfo ops a handle of
               (r, info, a') \<Rightarrow>
                 if r \<noteq> 0 then Inl (ext_rc r, dev\<lparr>acc := a'\<rparr>)
                 else Inr (handle, info_alloc_size info, dev\<lparr>acc := a'\<rparr>)))"

text \<open>\<open>output\<close>: the object and its size.\<close>

definition import_found :: "'a bo_dev \<Rightarrow> ptr \<Rightarrow> alloc_script
     \<Rightarrow> (rc \<times> (ptr \<times> u64) option \<times> 'a bo_dev \<times> alloc_script) outcome" where
  "import_found dev p sc =
     bind_outcome (amdgpu_bo_inc_ref dev p) (\<lambda>dev'.
       case bos dev' p of
         None \<Rightarrow> Fault
       | Some bo \<Rightarrow> Ret (OK, Some (p, bo_alloc_size bo), dev', sc))"

text \<open>
  \<open>flink_name\<close> is 0 throughout, so the insertion into the table of flink names after the creation,
  and with it the call of \<open>amdgpu_bo_free\<close> under the lock, is never reached: a failed creation
  closes the handle.
\<close>

definition import_new ::
    "'a bo_ops \<Rightarrow> u64 \<Rightarrow> ptr \<Rightarrow> 'a bo_dev \<Rightarrow> u64 \<Rightarrow> u32 \<Rightarrow> alloc_script
     \<Rightarrow> (rc \<times> (ptr \<times> u64) option \<times> 'a bo_dev \<times> alloc_script) outcome" where
  "import_new ops pagesize newp dev sz handle sc =
     bind_outcome (amdgpu_bo_create pagesize newp dev sz handle sc)
       (\<lambda>(r, bo, dev', sc').
          case bo of
            None \<Rightarrow>
              Ret (r, None, dev'\<lparr>acc := DrmCloseBufferHandle ops (acc dev') handle\<rparr>, sc')
          | Some p \<Rightarrow>
              (case bos dev' p of
                 None \<Rightarrow> Fault
               | Some b \<Rightarrow> Ret (OK, Some (p, bo_alloc_size b), dev', sc')))"

definition amdgpu_bo_import ::
    "'a bo_ops \<Rightarrow> u64 \<Rightarrow> ptr \<Rightarrow> 'a bo_dev \<Rightarrow> amdgpu_bo_handle_type \<Rightarrow> u32 \<Rightarrow> alloc_script
     \<Rightarrow> (rc \<times> (ptr \<times> u64) option \<times> 'a bo_dev \<times> alloc_script) outcome" where
  "amdgpu_bo_import ops pagesize newp dev type shared_handle sc =
     (case type of
        amdgpu_bo_handle_type_dma_buf_fd \<Rightarrow>
          (case import_prime ops dev shared_handle of
             Inl (r, dev') \<Rightarrow> Ret (r, None, dev', sc)
           | Inr (handle, sz, dev') \<Rightarrow>
               bind_outcome (handle_table_lookup (bo_handles dev') handle) (\<lambda>bo.
                 case bo of
                   Some p \<Rightarrow> import_found dev' p sc
                 | None \<Rightarrow> import_new ops pagesize newp dev' sz handle sc))
      | amdgpu_bo_handle_type_gem_flink_name \<Rightarrow>
          bind_outcome (handle_table_lookup (bo_flink_names dev) shared_handle) (\<lambda>bo.
            case bo of
              Some p \<Rightarrow> import_found dev p sc
            | None \<Rightarrow> Ret (Err ENOSYS, None, dev, sc))
      | amdgpu_bo_handle_type_kms \<Rightarrow> Ret (Err EPERM, None, dev, sc)
      | amdgpu_bo_handle_type_kms_noimport \<Rightarrow> Ret (Err EPERM, None, dev, sc)
      | amdgpu_bo_handle_type_invalid _ \<Rightarrow> Ret (Err EINVAL, None, dev, sc))"

section \<open>Search by CPU address\<close>

text \<open>
  The test of the loop body; the end of the mapping is computed in 64-bit pointer arithmetic.
\<close>

definition cpu_mapping_contains :: "amdgpu_bo \<Rightarrow> u64 \<Rightarrow> u64 \<Rightarrow> bool" where
  "cpu_mapping_contains bo cpu sz \<longleftrightarrow>
     \<not> (bo_cpu_ptr bo = 0 \<or> sz > bo_alloc_size bo)
     \<and> cpu \<ge> bo_cpu_ptr bo \<and> cpu < bo_cpu_ptr bo + bo_alloc_size bo"

fun find_bo_loop ::
    "ptr handle_table \<Rightarrow> (ptr \<rightharpoonup> amdgpu_bo) \<Rightarrow> u64 \<Rightarrow> u64 \<Rightarrow> nat list \<Rightarrow> ptr option outcome" where
  "find_bo_loop table heap cpu sz [] = Ret None"
| "find_bo_loop table heap cpu sz (i # ns) =
     bind_outcome (handle_table_lookup table (of_nat i)) (\<lambda>entry.
       case entry of
         None \<Rightarrow> find_bo_loop table heap cpu sz ns
       | Some p \<Rightarrow>
           (case heap p of
              None \<Rightarrow> Fault
            | Some bo \<Rightarrow>
                if cpu_mapping_contains bo cpu sz then Ret (Some p)
                else find_bo_loop table heap cpu sz ns))"

definition amdgpu_find_bo_by_cpu_mapping ::
    "'a bo_dev \<Rightarrow> u64 \<Rightarrow> u64 \<Rightarrow> (rc \<times> (ptr option \<times> u64) option \<times> 'a bo_dev) outcome" where
  "amdgpu_find_bo_by_cpu_mapping dev cpu sz =
     (if cpu = 0 \<or> sz = 0 then Ret (Err EINVAL, None, dev)
      else
        bind_outcome
          (find_bo_loop (bo_handles dev) (bos dev) cpu sz [0..<unat (max_key (bo_handles dev))])
          (\<lambda>found.
             case found of
               None \<Rightarrow> Ret (Err ENXIO, Some (None, 0), dev)
             | Some p \<Rightarrow>
                 (case bos dev p of
                    None \<Rightarrow> Fault
                  | Some bo \<Rightarrow>
                      bind_outcome (amdgpu_bo_inc_ref dev p) (\<lambda>dev'.
                        Ret (OK, Some (Some p, cpu - bo_cpu_ptr bo), dev')))))"

section \<open>GPU virtual addresses, and what is not supported\<close>

definition AMDGPU_VM_PAGE_READABLE :: u64 where "AMDGPU_VM_PAGE_READABLE = 2"
definition AMDGPU_VM_PAGE_WRITEABLE :: u64 where "AMDGPU_VM_PAGE_WRITEABLE = 4"
definition AMDGPU_VM_PAGE_EXECUTABLE :: u64 where "AMDGPU_VM_PAGE_EXECUTABLE = 8"

definition AMDGPU_VA_OP_MAP :: u32 where "AMDGPU_VA_OP_MAP = 1"
definition AMDGPU_VA_OP_UNMAP :: u32 where "AMDGPU_VA_OP_UNMAP = 2"
definition AMDGPU_VA_OP_CLEAR :: u32 where "AMDGPU_VA_OP_CLEAR = 3"
definition AMDGPU_VA_OP_REPLACE :: u32 where "AMDGPU_VA_OP_REPLACE = 4"

definition amdgpu_bo_va_op_raw ::
    "'a bo_ops \<Rightarrow> 'a bo_dev \<Rightarrow> ptr option \<Rightarrow> u64 \<Rightarrow> u64 \<Rightarrow> u64 \<Rightarrow> u64 \<Rightarrow> u32
     \<Rightarrow> (rc \<times> 'a bo_dev) outcome" where
  "amdgpu_bo_va_op_raw ops dev bo offset sz addr flags op =
     (if op \<noteq> AMDGPU_VA_OP_MAP \<and> op \<noteq> AMDGPU_VA_OP_UNMAP
         \<and> op \<noteq> AMDGPU_VA_OP_REPLACE \<and> op \<noteq> AMDGPU_VA_OP_CLEAR
      then Ret (Err EINVAL, dev)
      else
        bind_outcome
          (case bo of
             None \<Rightarrow> Ret 0
           | Some p \<Rightarrow> (case bos dev p of None \<Rightarrow> Fault | Some b \<Rightarrow> Ret (bo_handle b)))
          (\<lambda>handle. case AmdgpuBoVaOpRaw ops (acc dev) handle offset sz addr flags op of
                      (r, a) \<Rightarrow> Ret (ext_rc r, dev\<lparr>acc := a\<rparr>)))"

text \<open>\<open>page\<close> is what \<open>getpagesize()\<close> returns. The \<open>flags\<close> of the caller are not used.\<close>

definition amdgpu_bo_va_op ::
    "'a bo_ops \<Rightarrow> u32 \<Rightarrow> 'a bo_dev \<Rightarrow> ptr \<Rightarrow> u64 \<Rightarrow> u64 \<Rightarrow> u64 \<Rightarrow> u64 \<Rightarrow> u32
     \<Rightarrow> (rc \<times> 'a bo_dev) outcome" where
  "amdgpu_bo_va_op ops page dev p offset sz addr flags op =
     (case bos dev p of
        None \<Rightarrow> Fault
      | Some _ \<Rightarrow>
          amdgpu_bo_va_op_raw ops dev (Some p) offset (ALIGN64 sz page) addr
            (AMDGPU_VM_PAGE_READABLE OR AMDGPU_VM_PAGE_WRITEABLE OR AMDGPU_VM_PAGE_EXECUTABLE) op)"

definition amdgpu_bo_wait_for_idle :: "ptr \<Rightarrow> u64 \<Rightarrow> rc" where
  "amdgpu_bo_wait_for_idle bo timeout_ns = Err ENOSYS"

definition amdgpu_bo_list_create_raw :: "u32 \<Rightarrow> rc" where
  "amdgpu_bo_list_create_raw number_of_buffers = Err ENOSYS"

definition amdgpu_bo_list_destroy_raw :: "u32 \<Rightarrow> rc" where
  "amdgpu_bo_list_destroy_raw bo_list = Err ENOSYS"

definition amdgpu_bo_list_create :: "ptr list \<Rightarrow> u8 list \<Rightarrow> rc" where
  "amdgpu_bo_list_create resources resource_prios = Err ENOSYS"

definition amdgpu_bo_list_destroy :: "ptr \<Rightarrow> rc" where
  "amdgpu_bo_list_destroy list = Err ENOSYS"

definition amdgpu_bo_list_update :: "ptr \<Rightarrow> ptr list \<Rightarrow> u8 list \<Rightarrow> rc" where
  "amdgpu_bo_list_update handle resources resource_prios = Err ENOSYS"

section \<open>The invariant\<close>

definition bo_key :: "(ptr \<rightharpoonup> amdgpu_bo) \<Rightarrow> ptr \<Rightarrow> u32" where
  "bo_key heap p = bo_handle (the (heap p))"

definition bo_fine :: "amdgpu_bo \<Rightarrow> bool" where
  "bo_fine bo \<longleftrightarrow>
     bo_flink_name bo = 0 \<and> 0 \<le> sint (bo_cpu_map_count bo)
     \<and> (bo_cpu_ptr bo \<noteq> 0 \<longleftrightarrow> sint (bo_cpu_map_count bo) > 0)"

text \<open>The counter as a number.\<close>

lemma sint_inject: "sint v = sint w \<longleftrightarrow> v = w" for v w :: "'l::len word"
  by (auto intro: signed_word_eqI)

lemma sint_eq_0: "sint w = 0 \<longleftrightarrow> w = 0"
  using sint_inject [of w 0] by simp

lemma map_count_max: "w = INT64_MAX \<longleftrightarrow> sint w = 2 ^ 63 - 1"
proof -
  have "sint INT64_MAX = 2 ^ 63 - 1" by (simp add: INT64_MAX_def)
  then show ?thesis using sint_inject [of w INT64_MAX] by simp
qed

lemma map_count_inc: "w \<noteq> INT64_MAX \<Longrightarrow> sint (w + 1) = sint (w :: u64) + 1"
  using sint_lt [of w] sint_ge [of w]
  by (simp add: map_count_max sint_word_add signed_take_bit_int_eq_self)

lemma map_count_dec: "0 < sint w \<Longrightarrow> sint (w - 1) = sint (w :: u64) - 1"
  using sint_lt [of w] by (simp add: sint_word_diff signed_take_bit_int_eq_self)

text \<open>
  The handle table tracks the live objects: it maps the handle of each to it, no two share a
  handle, and it has no other entry.
\<close>

definition bo_ok :: "'a bo_dev \<Rightarrow> bool" where
  "bo_ok dev \<longleftrightarrow>
     wf_table (bo_flink_names dev) \<and> table_map (bo_flink_names dev) = Map.empty
     \<and> ht.tracks (bo_key (bos dev)) (dom (bos dev)) (bo_handles dev)
     \<and> (\<forall>p bo. bos dev p = Some bo \<longrightarrow> bo_fine bo)"

text \<open>The references held by clients, with multiplicity, against the counters.\<close>

definition refs_ok :: "(ptr \<rightharpoonup> amdgpu_bo) \<Rightarrow> ptr multiset \<Rightarrow> bool" where
  "refs_ok heap refs \<longleftrightarrow>
     (\<forall>p. heap p = None \<longrightarrow> count refs p = 0)
     \<and> (\<forall>p bo. heap p = Some bo \<longrightarrow>
          count refs p = unat (bo_refcount bo) \<and> 0 < unat (bo_refcount bo)
          \<and> unat (bo_refcount bo) < 2 ^ 31)"

lemma bo_ok_acc [simp]: "bo_ok (dev\<lparr>acc := a\<rparr>) = bo_ok dev"
  by (simp add: bo_ok_def)

lemma tracks_cong:
  "ht.tracks key live t \<Longrightarrow> \<forall>v\<in>live. key' v = key v \<Longrightarrow> ht.tracks key' live t"
  unfolding ht.tracks_def inj_on_def by metis

lemma bo_ok_tracks:
  "bo_ok dev \<Longrightarrow> ht.tracks (bo_key (bos dev)) (dom (bos dev)) (bo_handles dev)"
  by (simp add: bo_ok_def)

lemma bo_ok_table:
  assumes "bo_ok dev"
  shows "wf_table (bo_handles dev)"
    and "table_map (bo_handles dev) h = Some p \<longleftrightarrow> (\<exists>bo. bos dev p = Some bo \<and> bo_handle bo = h)"
proof -
  from assms have t: "ht.tracks (bo_key (bos dev)) (dom (bos dev)) (bo_handles dev)"
    by (simp add: bo_ok_def)
  then show "wf_table (bo_handles dev)" by (simp add: ht.tracks_def)
  have "table_map (bo_handles dev) h = Some p \<longleftrightarrow> p \<in> dom (bos dev) \<and> bo_key (bos dev) p = h"
    using t unfolding ht.tracks_def by blast
  then show "table_map (bo_handles dev) h = Some p \<longleftrightarrow> (\<exists>bo. bos dev p = Some bo \<and> bo_handle bo = h)"
    by (cases "bos dev p") (simp_all add: bo_key_def domIff)
qed

lemma bo_ok_lookup:
  "bo_ok dev \<Longrightarrow> handle_table_lookup (bo_handles dev) h = Ret (table_map (bo_handles dev) h)"
  by (simp add: lookup_table_map bo_ok_table(1))

lemma bo_ok_modify:
  assumes ok: "bo_ok dev" and p: "bos dev p = Some bo"
    and bo': "bo_handle bo' = bo_handle bo" "bo_fine bo'"
  shows "bo_ok (dev\<lparr>bos := (bos dev)(p \<mapsto> bo')\<rparr>)"
proof -
  have "ht.tracks (bo_key ((bos dev)(p \<mapsto> bo'))) (dom (bos dev)) (bo_handles dev)"
    by (rule tracks_cong [OF bo_ok_tracks [OF ok]]) (use p bo' in \<open>auto simp: bo_key_def\<close>)
  moreover have "dom ((bos dev)(p \<mapsto> bo')) = dom (bos dev)" using p by auto
  ultimately show ?thesis using ok bo' by (auto simp: bo_ok_def)
qed

lemma bo_ok_fine: "bo_ok dev \<Longrightarrow> bos dev p = Some bo \<Longrightarrow> bo_fine bo"
  by (simp add: bo_ok_def)

subsection \<open>Creation\<close>

definition new_bo :: "u64 \<Rightarrow> u32 \<Rightarrow> amdgpu_bo" where
  "new_bo sz handle =
     \<lparr>bo_refcount = 1, bo_alloc_size = sz, bo_handle = handle, bo_flink_name = 0,
      bo_cpu_ptr = 0, bo_cpu_map_count = 0\<rparr>"

lemma bo_create_correct:
  assumes ok: "bo_ok dev" and fresh: "newp \<notin> dom (bos dev)"
    and h: "table_map (bo_handles dev) handle = None" "key_ok pagesize handle"
  obtains (created) dev' sc' where
      "amdgpu_bo_create pagesize newp dev sz handle sc = Ret (OK, Some newp, dev', sc')"
      "bo_ok dev'" "bos dev' = (bos dev)(newp \<mapsto> new_bo sz handle)" "acc dev' = acc dev"
      "table_map (bo_handles dev') = (table_map (bo_handles dev))(handle \<mapsto> newp)"
      "bo_flink_names dev' = bo_flink_names dev"
    | (no_memory) sc' where
      "amdgpu_bo_create pagesize newp dev sz handle sc = Ret (Err ENOMEM, None, dev, sc')"
      "\<not> no_alloc_failure sc"
proof (cases "calloc_next sc")
  case (Pair b sc1)
  show ?thesis
  proof (cases b)
    case False
    then have "\<not> no_alloc_failure sc" using Pair calloc_next_script [of sc] by blast
    with False Pair show ?thesis by (intro no_memory [of sc1]) (simp_all add: amdgpu_bo_create_def)
  next
    case True
    obtain ret t' sc' where i:
      "handle_table_insert pagesize (bo_handles dev) handle (Some newp) sc1 = Ret (ret, t', sc')"
      "wf_table t'"
      "ret = OK \<and> table_map t' = (table_map (bo_handles dev))(handle := Some newp)
         \<and> (sc' = sc1 \<or> calloc_next sc1 = (True, sc'))
       \<or> ret = Err ENOMEM \<and> t' = bo_handles dev \<and> handle \<ge> max_key (bo_handles dev)
         \<and> calloc_next sc1 = (False, sc')"
      by (rule insert_table_map [OF bo_ok_table(1) [OF ok] h(2)])
    show ?thesis
    proof (cases "ret = OK")
      case False
      then have "\<not> no_alloc_failure sc"
        using i(3) Pair calloc_next_script [of sc] calloc_next_script [of sc1] by blast
      with False True Pair i show ?thesis
        by (intro no_memory [of sc']) (auto simp: amdgpu_bo_create_def)
    next
      case rOK: True
      let ?heap = "(bos dev)(newp \<mapsto> new_bo sz handle)"
      let ?d = "dev\<lparr>bo_handles := t', bos := ?heap\<rparr>"
      have tr: "ht.tracks (bo_key ?heap) (dom (bos dev)) (bo_handles dev)"
        by (rule tracks_cong [OF bo_ok_tracks [OF ok]]) (use fresh in \<open>auto simp: bo_key_def\<close>)
      have "ht.tracks (bo_key ?heap) (insert newp (dom (bos dev))) t'"
        using h i rOK
        by (intro ht.tracks_put [OF tr, of newp pagesize]) (auto simp: bo_key_def new_bo_def ht_put_def)
      then have "bo_ok ?d"
        using ok by (auto simp: bo_ok_def bo_fine_def new_bo_def)
      with rOK True Pair i show ?thesis
        by (intro created [of ?d sc']) (auto simp: amdgpu_bo_create_def new_bo_def)
    qed
  qed
qed

lemma refs_ok_new:
  "refs_ok heap refs \<Longrightarrow> p \<notin> dom heap \<Longrightarrow> refs_ok (heap(p \<mapsto> new_bo sz h)) (add_mset p refs)"
  unfolding refs_ok_def by (auto simp: new_bo_def)

subsection \<open>References\<close>

lemma refs_ok_held:
  assumes "refs_ok heap refs" and "p \<in># refs"
  obtains bo where "heap p = Some bo" "count refs p = unat (bo_refcount bo)"
    "0 < unat (bo_refcount bo)" "unat (bo_refcount bo) < 2 ^ 31"
  using assms unfolding refs_ok_def by (cases "heap p") (auto simp flip: count_greater_zero_iff)

lemma inc_ref_correct:
  assumes ok: "bo_ok dev" and refs: "refs_ok (bos dev) refs" and p: "bos dev p = Some bo"
    and small: "count refs p < 2 ^ 31 - 1"
  shows "amdgpu_bo_inc_ref dev p
      = Ret (dev\<lparr>bos := (bos dev)(p \<mapsto> bo\<lparr>bo_refcount := bo_refcount bo + 1\<rparr>)\<rparr>)"
    and "bo_ok (dev\<lparr>bos := (bos dev)(p \<mapsto> bo\<lparr>bo_refcount := bo_refcount bo + 1\<rparr>)\<rparr>)"
    and "refs_ok ((bos dev)(p \<mapsto> bo\<lparr>bo_refcount := bo_refcount bo + 1\<rparr>)) (add_mset p refs)"
proof -
  show "amdgpu_bo_inc_ref dev p
      = Ret (dev\<lparr>bos := (bos dev)(p \<mapsto> bo\<lparr>bo_refcount := bo_refcount bo + 1\<rparr>)\<rparr>)"
    using p by (simp add: amdgpu_bo_inc_ref_def)
  show "bo_ok (dev\<lparr>bos := (bos dev)(p \<mapsto> bo\<lparr>bo_refcount := bo_refcount bo + 1\<rparr>)\<rparr>)"
    using bo_ok_fine [OF ok p] by (intro bo_ok_modify [OF ok p]) (simp_all add: bo_fine_def)
  have c: "unat (bo_refcount bo) = count refs p"
    using refs p by (simp add: refs_ok_def)
  then have "unat (bo_refcount bo + 1) = Suc (count refs p)"
    using small by (subst unat_count_inc) (simp_all add: count_ok_def)
  then show "refs_ok ((bos dev)(p \<mapsto> bo\<lparr>bo_refcount := bo_refcount bo + 1\<rparr>)) (add_mset p refs)"
    using refs small p unfolding refs_ok_def by auto
qed

subsection \<open>Free\<close>

text \<open>The accelerant's state after the last reference: unmapped when mapped, then closed.\<close>

definition release_acc :: "'a bo_ops \<Rightarrow> 'a \<Rightarrow> amdgpu_bo \<Rightarrow> 'a" where
  "release_acc ops a bo =
     DrmCloseBufferHandle ops
       (if sint (bo_cpu_map_count bo) > 0 then snd (drm_munmap ops a (bo_cpu_ptr bo) (bo_alloc_size bo)) else a)
       (bo_handle bo)"

lemma bo_release_correct:
  assumes ok: "bo_ok dev" and p: "bos dev p = Some bo0" and h: "bo_handle bo = bo_handle bo0"
    and fine: "bo_fine bo"
  obtains dev' where "bo_release ops (dev\<lparr>bos := (bos dev)(p \<mapsto> bo)\<rparr>) p bo = Ret dev'" "bo_ok dev'"
    "bos dev' = (bos dev)(p := None)" "acc dev' = release_acc ops (acc dev) bo"
    "table_map (bo_handles dev') = (table_map (bo_handles dev))(bo_handle bo := None)"
proof -
  obtain t' where t': "handle_table_remove (bo_handles dev) (bo_handle bo) = Ret t'" "wf_table t'"
    "table_map t' = (table_map (bo_handles dev))(bo_handle bo := None)"
    using remove_table_map [OF bo_ok_table(1) [OF ok]] by metis
  let ?dev' = "dev\<lparr>acc := release_acc ops (acc dev) bo, bo_handles := t', bos := (bos dev)(p := None)\<rparr>"
  have rel: "bo_release ops (dev\<lparr>bos := (bos dev)(p \<mapsto> bo)\<rparr>) p bo = Ret ?dev'"
    using t'(1) fine
    by (auto simp: bo_release_def bo_fine_def amdgpu_bo_cpu_unmap_def release_acc_def split: prod.split)
  have "ht.tracks (bo_key (bos dev)) (dom (bos dev) - {p}) t'"
  proof (rule ht.tracks_del [OF bo_ok_tracks [OF ok]])
    show "ht_del (bo_handles dev) (bo_key (bos dev) p) t'"
      using t'(1) p h by (simp add: ht_del_def bo_key_def)
  qed (use p in auto)
  then have "ht.tracks (bo_key ((bos dev)(p := None))) (dom (bos dev) - {p}) t'"
    by (rule tracks_cong) (auto simp: bo_key_def)
  moreover have "dom ((bos dev)(p := None)) = dom (bos dev) - {p}" by simp
  ultimately have "bo_ok ?dev'" using ok by (auto simp: bo_ok_def)
  with rel t'(3) show thesis by (intro that [of ?dev']) simp_all
qed

lemma bo_free_correct:
  assumes ok: "bo_ok dev" and refs: "refs_ok (bos dev) refs" and held: "p \<in># refs"
    and p: "bos dev p = Some bo"
  obtains dev' where "amdgpu_bo_free ops dev p = Ret (OK, dev')" "bo_ok dev'"
    "refs_ok (bos dev') (refs - {#p#})"
    "if count refs p = 1
     then bos dev' = (bos dev)(p := None) \<and> acc dev' = release_acc ops (acc dev) bo
       \<and> table_map (bo_handles dev') = (table_map (bo_handles dev))(bo_handle bo := None)
     else bos dev' = (bos dev)(p \<mapsto> bo\<lparr>bo_refcount := bo_refcount bo - 1\<rparr>) \<and> acc dev' = acc dev
       \<and> bo_handles dev' = bo_handles dev"
proof -
  let ?bo = "bo\<lparr>bo_refcount := bo_refcount bo - 1\<rparr>" and ?heap = "(bos dev)(p \<mapsto> bo\<lparr>bo_refcount := bo_refcount bo - 1\<rparr>)"
  have c: "count refs p = unat (bo_refcount bo)" "0 < unat (bo_refcount bo)" "unat (bo_refcount bo) < 2 ^ 31"
    using refs p by (simp_all add: refs_ok_def)
  then have pos: "atomic_positive (bo_refcount bo)" by (simp add: atomic_positive_iff)
  have one: "bo_refcount bo = 1 \<longleftrightarrow> count refs p = 1" using c(1) by (simp add: unat_eq_iff)
  have upd: "update_references (cells_of bo_refcount (bos dev)) (Some p) None
      = Ret (count refs p = 1, (cells_of bo_refcount (bos dev))(p \<mapsto> bo_refcount bo - 1))"
    using update_references_drop [of "cells_of bo_refcount (bos dev)" p "bo_refcount bo"] p pos one
    by (simp add: cells_of_Some)
  have heap: "with_cells (\<lambda>v bo. bo\<lparr>bo_refcount := v\<rparr>) (bos dev)
      ((cells_of bo_refcount (bos dev))(p \<mapsto> bo_refcount bo - 1)) = ?heap"
    using p by (intro with_cells_one) simp_all
  have fine: "bo_fine ?bo" using bo_ok_fine [OF ok p] by (simp add: bo_fine_def)
  show thesis
  proof (cases "count refs p = 1")
    case True
    obtain dev' where d: "bo_release ops (dev\<lparr>bos := ?heap\<rparr>) p ?bo = Ret dev'" "bo_ok dev'"
      "bos dev' = (bos dev)(p := None)" "acc dev' = release_acc ops (acc dev) ?bo"
      "table_map (bo_handles dev') = (table_map (bo_handles dev))(bo_handle ?bo := None)"
      by (rule bo_release_correct [OF ok p _ fine]) simp_all
    have "refs_ok (bos dev') (refs - {#p#})"
      using refs True d(3) by (auto simp: refs_ok_def)
    moreover have "release_acc ops (acc dev) ?bo = release_acc ops (acc dev) bo" by (simp add: release_acc_def)
    ultimately show thesis
      using d upd heap True by (intro that [of dev']) (simp_all add: amdgpu_bo_free_def)
  next
    case False
    have "Suc 0 < unat (bo_refcount bo)" using c False by linarith
    moreover have "unat (bo_refcount bo) - Suc 0 < 2147483648"
      using c(3) by (simp add: less_imp_diff_less)
    ultimately have "refs_ok ?heap (refs - {#p#})"
      using refs p c unat_count_dec [OF pos] by (auto simp: refs_ok_def)
    moreover have "bo_ok (dev\<lparr>bos := ?heap\<rparr>)" by (rule bo_ok_modify [OF ok p _ fine]) simp
    ultimately show thesis
      using upd heap False by (intro that [of "dev\<lparr>bos := ?heap\<rparr>"]) (simp_all add: amdgpu_bo_free_def)
  qed
qed

subsection \<open>Import\<close>

text \<open>What an import of a DMA buffer does once the accelerant has named its handle.\<close>

lemma bo_import_dma_buf:
  assumes ok: "bo_ok dev" and prime: "import_prime ops dev fd = Inr (handle, sz, dev1)"
  shows "amdgpu_bo_import ops pagesize newp dev amdgpu_bo_handle_type_dma_buf_fd fd sc =
    (case table_map (bo_handles dev1) handle of
       Some p \<Rightarrow> import_found dev1 p sc
     | None \<Rightarrow> import_new ops pagesize newp dev1 sz handle sc)"
    and "bo_ok dev1" and "bos dev1 = bos dev" and "bo_handles dev1 = bo_handles dev"
proof -
  obtain a where d: "dev1 = dev\<lparr>acc := a\<rparr>"
    using prime by (auto simp: import_prime_def split: prod.splits if_splits)
  then show "bo_ok dev1" "bos dev1 = bos dev" "bo_handles dev1 = bo_handles dev" using ok by simp_all
  then show "amdgpu_bo_import ops pagesize newp dev amdgpu_bo_handle_type_dma_buf_fd fd sc =
    (case table_map (bo_handles dev1) handle of
       Some p \<Rightarrow> import_found dev1 p sc
     | None \<Rightarrow> import_new ops pagesize newp dev1 sz handle sc)"
    using prime bo_ok_lookup [of dev1 handle] by (simp add: amdgpu_bo_import_def)
qed

lemma import_found_correct:
  assumes ok: "bo_ok dev" and refs: "refs_ok (bos dev) refs" and p: "bos dev p = Some bo"
    and small: "count refs p < 2 ^ 31 - 1"
  obtains dev' where "import_found dev p sc = Ret (OK, Some (p, bo_alloc_size bo), dev', sc)"
    "bo_ok dev'" "refs_ok (bos dev') (add_mset p refs)" "dom (bos dev') = dom (bos dev)"
    "bo_handles dev' = bo_handles dev"
  using inc_ref_correct [OF ok refs p small] p
  by (intro that [of "dev\<lparr>bos := (bos dev)(p \<mapsto> bo\<lparr>bo_refcount := bo_refcount bo + 1\<rparr>)\<rparr>"])
     (auto simp: import_found_def)

lemma import_new_correct:
  assumes ok: "bo_ok dev" and refs: "refs_ok (bos dev) refs" and fresh: "newp \<notin> dom (bos dev)"
    and h: "table_map (bo_handles dev) handle = None" "key_ok pagesize handle"
  obtains (created) dev' sc' where
      "import_new ops pagesize newp dev sz handle sc = Ret (OK, Some (newp, sz), dev', sc')"
      "bo_ok dev'" "refs_ok (bos dev') (add_mset newp refs)"
      "table_map (bo_handles dev') = (table_map (bo_handles dev))(handle \<mapsto> newp)"
      "acc dev' = acc dev" "bos dev' = (bos dev)(newp \<mapsto> new_bo sz handle)"
    | (no_memory) sc' where
      "import_new ops pagesize newp dev sz handle sc
         = Ret (Err ENOMEM, None, dev\<lparr>acc := DrmCloseBufferHandle ops (acc dev) handle\<rparr>, sc')"
      "\<not> no_alloc_failure sc"
proof (rule bo_create_correct [OF ok fresh h, of sz sc])
  fix dev' sc'
  assume a: "amdgpu_bo_create pagesize newp dev sz handle sc = Ret (OK, Some newp, dev', sc')"
    "bo_ok dev'" "bos dev' = (bos dev)(newp \<mapsto> new_bo sz handle)" "acc dev' = acc dev"
    "table_map (bo_handles dev') = (table_map (bo_handles dev))(handle \<mapsto> newp)"
  then show thesis
    using refs_ok_new [OF refs fresh, of sz handle]
    by (intro created [of dev' sc']) (simp_all add: import_new_def new_bo_def)
next
  fix sc'
  assume "amdgpu_bo_create pagesize newp dev sz handle sc = Ret (Err ENOMEM, None, dev, sc')"
    "\<not> no_alloc_failure sc"
  then show thesis by (intro no_memory [of sc']) (simp_all add: import_new_def)
qed

subsection \<open>CPU mappings\<close>

text \<open>A mapping the accelerant reports as successful is not at the null address.\<close>

definition maps_nonnull :: "'a bo_ops \<Rightarrow> bool" where
  "maps_nonnull ops \<longleftrightarrow> (\<forall>a h a' cpu. AmdgpuBoCpuMap ops a h = (0, cpu, a') \<longrightarrow> cpu \<noteq> 0)"

lemma refs_ok_same_count:
  "refs_ok heap refs \<Longrightarrow> heap p = Some bo \<Longrightarrow> bo_refcount bo' = bo_refcount bo \<Longrightarrow>
     refs_ok (heap(p \<mapsto> bo')) refs"
  by (auto simp: refs_ok_def)

lemma cpu_map_correct:
  assumes ok: "bo_ok dev" and refs: "refs_ok (bos dev) refs" and p: "bos dev p = Some bo"
    and nn: "maps_nonnull ops"
  obtains (mapped) r out dev' where "amdgpu_bo_cpu_map ops dev p = Ret (r, out, dev')" "bo_ok dev'"
      "refs_ok (bos dev') refs"
    | (overflow) "amdgpu_bo_cpu_map ops dev p = Fault" "bo_cpu_map_count bo = INT64_MAX"
proof -
  have f: "bo_fine bo" by (rule bo_ok_fine [OF ok p])
  obtain r cpu a where m: "AmdgpuBoCpuMap ops (acc dev) (bo_handle bo) = (r, cpu, a)" by (metis prod_cases3)
  have nz: "r = 0 \<Longrightarrow> cpu \<noteq> 0" using nn m by (auto simp: maps_nonnull_def)
  let ?b1 = "bo\<lparr>bo_cpu_map_count := bo_cpu_map_count bo + 1\<rparr>" and ?b2 = "bo\<lparr>bo_cpu_ptr := cpu, bo_cpu_map_count := 1\<rparr>"
  consider (limit) "bo_cpu_ptr bo \<noteq> 0" "bo_cpu_map_count bo = INT64_MAX"
    | (more) "bo_cpu_ptr bo \<noteq> 0" "bo_cpu_map_count bo \<noteq> INT64_MAX" | (fail) "bo_cpu_ptr bo = 0" "r \<noteq> 0" | (first) "bo_cpu_ptr bo = 0" "r = 0"
    by blast
  then show thesis
  proof cases
    case limit
    then show thesis using p by (intro overflow) (auto simp: amdgpu_bo_cpu_map_def)
  next
    case more
    have "bo_ok (dev\<lparr>bos := (bos dev)(p \<mapsto> ?b1)\<rparr>)"
      using f more by (intro bo_ok_modify [OF ok p]) (auto simp: bo_fine_def map_count_inc)
    then show thesis
      using more f p refs_ok_same_count [OF refs p, of ?b1]
      by (intro mapped [of OK "Some (bo_cpu_ptr bo)" "dev\<lparr>bos := (bos dev)(p \<mapsto> ?b1)\<rparr>"])
         (auto simp: amdgpu_bo_cpu_map_def bo_fine_def)
  next
    case fail
    then show thesis
      using f p m ok refs
      by (intro mapped [of "ext_rc r" None "dev\<lparr>acc := a\<rparr>"]) (auto simp: amdgpu_bo_cpu_map_def bo_fine_def sint_eq_0)
  next
    case first
    have "bo_ok (dev\<lparr>bos := (bos dev)(p \<mapsto> ?b2)\<rparr>\<lparr>acc := a\<rparr>)"
      using f nz first unfolding bo_ok_acc by (intro bo_ok_modify [OF ok p]) (auto simp: bo_fine_def)
    then show thesis
      using first f p m refs_ok_same_count [OF refs p, of ?b2]
      by (intro mapped [of OK "Some cpu" "dev\<lparr>bos := (bos dev)(p \<mapsto> ?b2)\<rparr>\<lparr>acc := a\<rparr>"])
         (auto simp: amdgpu_bo_cpu_map_def bo_fine_def sint_eq_0)
  qed
qed

lemma cpu_unmap_correct:
  assumes ok: "bo_ok dev" and refs: "refs_ok (bos dev) refs" and p: "bos dev p = Some bo"
  obtains r dev' where "amdgpu_bo_cpu_unmap ops dev p = Ret (r, dev')" "bo_ok dev'"
    "refs_ok (bos dev') refs"
proof -
  have f: "bo_fine bo" by (rule bo_ok_fine [OF ok p])
  obtain e a where m: "drm_munmap ops (acc dev) (bo_cpu_ptr bo) (bo_alloc_size bo) = (e, a)" by fastforce
  let ?b1 = "bo\<lparr>bo_cpu_map_count := bo_cpu_map_count bo - 1\<rparr>"
    and ?b2 = "bo\<lparr>bo_cpu_map_count := bo_cpu_map_count bo - 1, bo_cpu_ptr := 0\<rparr>"
  consider (none) "bo_cpu_map_count bo = 0" | (more) "sint (bo_cpu_map_count bo) > 1" | (last) "bo_cpu_map_count bo = 1"
  proof -
    have "sint (bo_cpu_map_count bo) = 0 \<or> sint (bo_cpu_map_count bo) = 1 \<or> sint (bo_cpu_map_count bo) > 1"
      using f unfolding bo_fine_def by linarith
    moreover have "sint (bo_cpu_map_count bo) = 1 \<longleftrightarrow> bo_cpu_map_count bo = 1"
      using sint_inject [of "bo_cpu_map_count bo" 1] by simp
    ultimately show thesis using none last more sint_eq_0 by blast
  qed
  then show thesis
  proof cases
    case none
    then show thesis using p ok refs by (intro that [of "Err EINVAL" dev]) (simp_all add: amdgpu_bo_cpu_unmap_def)
  next
    case more
    have "bo_ok (dev\<lparr>bos := (bos dev)(p \<mapsto> ?b1)\<rparr>)"
      using f more by (intro bo_ok_modify [OF ok p]) (auto simp: bo_fine_def map_count_dec)
    then show thesis
      using more p refs_ok_same_count [OF refs p, of ?b1]
      by (intro that [of OK "dev\<lparr>bos := (bos dev)(p \<mapsto> ?b1)\<rparr>"])
         (auto simp: amdgpu_bo_cpu_unmap_def map_count_dec)
  next
    case last
    have "bo_ok (dev\<lparr>bos := (bos dev)(p \<mapsto> ?b2)\<rparr>\<lparr>acc := a\<rparr>)"
      using f last unfolding bo_ok_acc by (intro bo_ok_modify [OF ok p]) (auto simp: bo_fine_def)
    then show thesis
      using last p m refs_ok_same_count [OF refs p, of ?b2]
      by (intro that [of "if e = 0 then OK else Err (Ext (- e))" "dev\<lparr>bos := (bos dev)(p \<mapsto> ?b2)\<rparr>\<lparr>acc := a\<rparr>"])
         (auto simp: amdgpu_bo_cpu_unmap_def)
  qed
qed

subsection \<open>Search\<close>

lemma find_bo_loop_correct:
  assumes ok: "bo_ok dev" and ns: "set ns \<subseteq> {0..<2 ^ 32}"
  obtains r where "find_bo_loop (bo_handles dev) (bos dev) cpu sz ns = Ret r"
    and "case r of
           Some p \<Rightarrow> \<exists>bo. bos dev p = Some bo \<and> cpu_mapping_contains bo cpu sz
         | None \<Rightarrow> \<forall>n\<in>set ns. \<forall>p bo. bos dev p = Some bo \<and> bo_handle bo = of_nat n \<longrightarrow>
                     \<not> cpu_mapping_contains bo cpu sz"
  using ns
proof (induction ns arbitrary: thesis)
  case (Cons n ns)
  from Cons.prems(2) have "set ns \<subseteq> {0..<2 ^ 32}" by simp
  then obtain r where r: "find_bo_loop (bo_handles dev) (bos dev) cpu sz ns = Ret r"
    "case r of
           Some p \<Rightarrow> \<exists>bo. bos dev p = Some bo \<and> cpu_mapping_contains bo cpu sz
         | None \<Rightarrow> \<forall>n\<in>set ns. \<forall>p bo. bos dev p = Some bo \<and> bo_handle bo = of_nat n \<longrightarrow>
                     \<not> cpu_mapping_contains bo cpu sz"
    using Cons.IH by blast
  let ?e = "table_map (bo_handles dev) (of_nat n)"
  note iff = bo_ok_table(2) [OF ok, of "of_nat n"]
  show ?case
  proof (cases ?e)
    case None
    then show ?thesis
      using r iff Cons.prems(1) [of r] bo_ok_lookup [OF ok] by (auto split: option.splits)
  next
    case (Some p)
    then obtain bo where bo: "bos dev p = Some bo" "bo_handle bo = of_nat n" using iff by blast
    have u: "\<And>q b. bos dev q = Some b \<and> bo_handle b = of_nat n \<Longrightarrow> b = bo"
      using iff Some bo by auto (metis option.inject iff)
    show ?thesis
    proof (cases "cpu_mapping_contains bo cpu sz")
      case True
      then show ?thesis
        using Some bo Cons.prems(1) [of "Some p"] bo_ok_lookup [OF ok] by auto
    next
      case False
      have "find_bo_loop (bo_handles dev) (bos dev) cpu sz (n # ns) = Ret r"
        using Some bo(1) False r(1) by (simp add: bo_ok_lookup [OF ok])
      then show ?thesis
      proof (rule Cons.prems(1))
        show "case r of
            Some p \<Rightarrow> \<exists>bo. bos dev p = Some bo \<and> cpu_mapping_contains bo cpu sz
          | None \<Rightarrow> \<forall>n\<in>set (n # ns). \<forall>p bo. bos dev p = Some bo \<and> bo_handle bo = of_nat n \<longrightarrow>
                      \<not> cpu_mapping_contains bo cpu sz"
          using r(2) u False by (cases r) (simp, metis, simp)
      qed
    qed
  qed
qed simp

lemma find_bo_correct:
  assumes ok: "bo_ok dev"
  obtains r where "find_bo_loop (bo_handles dev) (bos dev) cpu sz [0..<unat (max_key (bo_handles dev))] = Ret r"
    and "case r of
           Some p \<Rightarrow> \<exists>bo. bos dev p = Some bo \<and> cpu_mapping_contains bo cpu sz
         | None \<Rightarrow> \<forall>p bo. bos dev p = Some bo \<longrightarrow> \<not> cpu_mapping_contains bo cpu sz"
proof -
  let ?m = "max_key (bo_handles dev)"
  have "unat ?m < 2 ^ 32" using unsigned_less [of ?m, where ?'a = nat] by simp
  then have "set [0..<unat ?m] \<subseteq> {0..<2 ^ 32}" by auto
  then obtain r where r: "find_bo_loop (bo_handles dev) (bos dev) cpu sz [0..<unat ?m] = Ret r"
    "case r of
           Some p \<Rightarrow> \<exists>bo. bos dev p = Some bo \<and> cpu_mapping_contains bo cpu sz
         | None \<Rightarrow> \<forall>n\<in>set [0..<unat ?m]. \<forall>p bo. bos dev p = Some bo \<and> bo_handle bo = of_nat n \<longrightarrow>
                     \<not> cpu_mapping_contains bo cpu sz"
    using find_bo_loop_correct [OF ok] by blast
  have "unat (bo_handle bo) < unat ?m" if "bos dev p = Some bo" for p bo
  proof -
    have "table_map (bo_handles dev) (bo_handle bo) = Some p" using bo_ok_table(2) [OF ok] that by blast
    then show ?thesis
      using bo_ok_table(1) [OF ok] by (auto simp: table_map_def wf_table_def split: if_splits)
  qed
  then have "\<exists>n\<in>set [0..<unat ?m]. bo_handle bo = of_nat n" if "bos dev p = Some bo" for p bo
    using that by (intro bexI [of _ "unat (bo_handle bo)"]) auto
  with r(2) have "case r of
           Some p \<Rightarrow> \<exists>bo. bos dev p = Some bo \<and> cpu_mapping_contains bo cpu sz
         | None \<Rightarrow> \<forall>p bo. bos dev p = Some bo \<longrightarrow> \<not> cpu_mapping_contains bo cpu sz"
    by (cases r) (simp; metis)+
  with r(1) show thesis by (rule that)
qed

section \<open>Runs\<close>

text \<open>
  A system is the device and the references its clients hold. \<open>calloc\<close> returns memory that is not in
  use, a new buffer of the accelerant has a handle no live buffer has, handles are small enough
  for the handle table, and clients use only the references they hold, fewer than \<open>2 ^ 31\<close> of them.
\<close>

definition fresh_handle :: "u64 \<Rightarrow> 'a bo_dev \<Rightarrow> u32 \<Rightarrow> bool" where
  "fresh_handle pagesize dev h \<longleftrightarrow> table_map (bo_handles dev) h = None \<and> key_ok pagesize h"

fun add_ref :: "ptr option \<Rightarrow> ptr multiset \<Rightarrow> ptr multiset" where
  "add_ref None refs = refs"
| "add_ref (Some p) refs = add_mset p refs"

type_synonym 'a bo_sys = "'a bo_dev \<times> ptr multiset"

inductive bo_step :: "'a bo_ops \<Rightarrow> u64 \<Rightarrow> 'a bo_sys \<Rightarrow> 'a bo_sys \<Rightarrow> bool" for ops pagesize where
  alloc: "\<lbrakk>newp \<notin> dom (bos dev);
           \<forall>h a. AmdgpuBoAlloc ops (acc dev) req = (0, h, a) \<longrightarrow> fresh_handle pagesize dev h;
           amdgpu_bo_alloc ops pagesize newp dev req sc = Ret (r, out, dev', sc')\<rbrakk> \<Longrightarrow>
     bo_step ops pagesize (dev, refs) (dev', add_ref out refs)"
| user_mem: "\<lbrakk>newp \<notin> dom (bos dev);
           \<forall>h a. AmdgpuCreateBoFromUserMem ops (acc dev) cpu sz = (0, h, a) \<longrightarrow> fresh_handle pagesize dev h;
           amdgpu_create_bo_from_user_mem ops pagesize newp dev cpu sz sc = Ret (r, out, dev', sc')\<rbrakk> \<Longrightarrow>
     bo_step ops pagesize (dev, refs) (dev', add_ref out refs)"
| bo_import: "\<lbrakk>newp \<notin> dom (bos dev); size refs < 2 ^ 31 - 1;
           \<forall>h sz d. import_prime ops dev fd = Inr (h, sz, d) \<longrightarrow> key_ok pagesize h;
           amdgpu_bo_import ops pagesize newp dev type fd sc = Ret (r, out, dev', sc')\<rbrakk> \<Longrightarrow>
     bo_step ops pagesize (dev, refs) (dev', add_ref (map_option fst out) refs)"
| inc_ref: "\<lbrakk>p \<in># refs; size refs < 2 ^ 31 - 1; amdgpu_bo_inc_ref dev p = Ret dev'\<rbrakk> \<Longrightarrow>
     bo_step ops pagesize (dev, refs) (dev', add_mset p refs)"
| find: "\<lbrakk>size refs < 2 ^ 31 - 1;
          amdgpu_find_bo_by_cpu_mapping dev cpu sz = Ret (r, out, dev')\<rbrakk> \<Longrightarrow>
     bo_step ops pagesize (dev, refs) (dev', add_ref (Option.bind out fst) refs)"
| free: "\<lbrakk>p \<in># refs; amdgpu_bo_free ops dev p = Ret (r, dev')\<rbrakk> \<Longrightarrow>
     bo_step ops pagesize (dev, refs) (dev', refs - {#p#})"
| cpu_map: "\<lbrakk>p \<in># refs; amdgpu_bo_cpu_map ops dev p = Ret (r, out, dev')\<rbrakk> \<Longrightarrow>
     bo_step ops pagesize (dev, refs) (dev', refs)"
| cpu_unmap: "\<lbrakk>p \<in># refs; amdgpu_bo_cpu_unmap ops dev p = Ret (r, dev')\<rbrakk> \<Longrightarrow>
     bo_step ops pagesize (dev, refs) (dev', refs)"

inductive_cases bo_stepE: "bo_step ops pagesize (dev, refs) s'"

definition bo_sys_ok :: "'a bo_sys \<Rightarrow> bool" where
  "bo_sys_ok s \<longleftrightarrow> bo_ok (fst s) \<and> refs_ok (bos (fst s)) (snd s)"

lemma create_or_close_ok:
  assumes "bo_ok dev" and "refs_ok (bos dev) refs" and "newp \<notin> dom (bos dev)"
    and "fresh_handle pagesize dev h"
    and "bo_create_or_close ops pagesize newp dev sz h sc = Ret (r, out, dev', sc')"
  shows "bo_ok dev' \<and> refs_ok (bos dev') (add_ref out refs)"
proof -
  have h: "table_map (bo_handles dev) h = None" "key_ok pagesize h"
    using assms(4) by (simp_all add: fresh_handle_def)
  show ?thesis
  proof (rule bo_create_correct [OF assms(1,3) h, of sz sc])
    fix d s
    assume "amdgpu_bo_create pagesize newp dev sz h sc = Ret (OK, Some newp, d, s)" "bo_ok d"
      "bos d = (bos dev)(newp \<mapsto> new_bo sz h)"
    then show ?thesis
      using assms(5) refs_ok_new [OF assms(2,3), of sz h] by (auto simp: bo_create_or_close_def)
  next
    fix s
    assume "amdgpu_bo_create pagesize newp dev sz h sc = Ret (Err ENOMEM, None, dev, s)"
    then show ?thesis using assms(1,2,5) by (auto simp: bo_create_or_close_def)
  qed
qed

lemma bo_import_ok:
  assumes ok: "bo_ok dev" and refs: "refs_ok (bos dev) refs" and fresh: "newp \<notin> dom (bos dev)"
    and small: "size refs < 2 ^ 31 - 1"
    and key: "\<forall>h sz d. import_prime ops dev fd = Inr (h, sz, d) \<longrightarrow> key_ok pagesize h"
    and res: "amdgpu_bo_import ops pagesize newp dev type fd sc = Ret (r, out, dev', sc')"
  shows "bo_ok dev' \<and> refs_ok (bos dev') (add_ref (map_option fst out) refs)"
proof (cases "type = amdgpu_bo_handle_type_dma_buf_fd")
  case False
  have "handle_table_lookup (bo_flink_names dev) fd = Ret None"
    using ok by (simp add: bo_ok_def lookup_table_map)
  with False res have "dev' = dev \<and> out = None"
    by (cases type) (auto simp: amdgpu_bo_import_def)
  with ok refs show ?thesis by simp
next
  case True
  show ?thesis
  proof (cases "import_prime ops dev fd")
    case (Inl e)
    then obtain a where "dev' = dev\<lparr>acc := a\<rparr>" "out = None"
      using res True by (auto simp: amdgpu_bo_import_def import_prime_def split: prod.splits if_splits)
    with ok refs show ?thesis by simp
  next
    case (Inr x)
    then obtain h sz d where x: "import_prime ops dev fd = Inr (h, sz, d)" by (metis prod_cases3)
    note im = bo_import_dma_buf [OF ok x]
    have refs': "refs_ok (bos d) refs" and fresh': "newp \<notin> dom (bos d)" using refs fresh im(3) by simp_all
    show ?thesis
    proof (cases "table_map (bo_handles d) h")
      case None
      have "key_ok pagesize h" using key x by blast
      show ?thesis
        by (rule import_new_correct [OF im(2) refs' fresh' None \<open>key_ok pagesize h\<close>, of ops sz sc])
           (use res im(1) None True im(2) refs' in auto)
    next
      case (Some p)
      then obtain bo where bo: "bos d p = Some bo" using bo_ok_table(2) [OF im(2)] by blast
      have "count refs p < 2 ^ 31 - 1" using small count_le_size [of refs p] by linarith
      show ?thesis
        by (rule import_found_correct [OF im(2) refs' bo \<open>count refs p < 2 ^ 31 - 1\<close>, of sc])
           (use res im(1) Some True in auto)
    qed
  qed
qed

lemma find_bo_ok:
  assumes ok: "bo_ok dev" and refs: "refs_ok (bos dev) refs" and small: "size refs < 2 ^ 31 - 1"
    and res: "amdgpu_find_bo_by_cpu_mapping dev cpu sz = Ret (r, out, dev')"
  shows "bo_ok dev' \<and> refs_ok (bos dev') (add_ref (Option.bind out fst) refs)"
proof -
  obtain f where f: "find_bo_loop (bo_handles dev) (bos dev) cpu sz [0..<unat (max_key (bo_handles dev))] = Ret f"
    "case f of
           Some p \<Rightarrow> \<exists>bo. bos dev p = Some bo \<and> cpu_mapping_contains bo cpu sz
         | None \<Rightarrow> \<forall>p bo. bos dev p = Some bo \<longrightarrow> \<not> cpu_mapping_contains bo cpu sz"
    using find_bo_correct [OF ok] .
  consider (inval) "cpu = 0 \<or> sz = 0" | (nothing) "f = None" "\<not> (cpu = 0 \<or> sz = 0)"
    | (found) p where "f = Some p" "\<not> (cpu = 0 \<or> sz = 0)" by (cases f) auto
  then show ?thesis
  proof cases
    case (found p)
    then obtain bo where bo: "bos dev p = Some bo" using f(2) by auto
    have "count refs p < 2 ^ 31 - 1" using small count_le_size [of refs p] by linarith
    from inc_ref_correct [OF ok refs bo this] show ?thesis
      using res f(1) found bo by (auto simp: amdgpu_find_bo_by_cpu_mapping_def)
  qed (use res f(1) ok refs in \<open>auto simp: amdgpu_find_bo_by_cpu_mapping_def\<close>)
qed

lemma bo_step_ok:
  assumes "bo_step ops pagesize s s'" and "bo_sys_ok s" and "maps_nonnull ops"
  shows "bo_sys_ok s'"
  using assms
proof (induction rule: bo_step.induct)
  case (alloc newp dev req sc r out dev' sc' refs)
  obtain x h a where k: "AmdgpuBoAlloc ops (acc dev) req = (x, h, a)" by (metis prod_cases3)
  show ?case
    using alloc k create_or_close_ok [of "dev\<lparr>acc := a\<rparr>" refs newp pagesize h ops _ sc r out dev' sc']
    by (auto simp: bo_sys_ok_def amdgpu_bo_alloc_def fresh_handle_def split: if_splits)
next
  case (user_mem newp dev cpu sz sc r out dev' sc' refs)
  obtain x h a where k: "AmdgpuCreateBoFromUserMem ops (acc dev) cpu sz = (x, h, a)" by (metis prod_cases3)
  show ?case
    using user_mem k create_or_close_ok [of "dev\<lparr>acc := a\<rparr>" refs newp pagesize h ops _ sc r out dev' sc']
    by (auto simp: bo_sys_ok_def amdgpu_create_bo_from_user_mem_def fresh_handle_def split: if_splits)
next
  case (bo_import newp dev refs fd type sc r out dev' sc')
  then show ?case
    using bo_import_ok [of dev refs newp ops fd pagesize type sc r out dev' sc']
    by (simp add: bo_sys_ok_def)
next
  case (inc_ref p refs dev dev')
  then obtain bo where bo: "bos dev p = Some bo" by (auto simp: bo_sys_ok_def elim: refs_ok_held)
  have "count refs p < 2 ^ 31 - 1" using inc_ref(2) count_le_size [of refs p] by linarith
  with inc_ref inc_ref_correct [of dev refs p bo] bo show ?case by (auto simp: bo_sys_ok_def)
next
  case (find refs dev cpu sz r out dev')
  then show ?case using find_bo_ok [of dev refs cpu sz r out dev'] by (simp add: bo_sys_ok_def)
next
  case (free p refs dev r dev')
  then have ok: "bo_ok dev" "refs_ok (bos dev) refs" by (simp_all add: bo_sys_ok_def)
  obtain bo where bo: "bos dev p = Some bo" using ok(2) free(1) by (rule refs_ok_held)
  show ?case
    by (rule bo_free_correct [OF ok free(1) bo, of ops]) (use free(2) in \<open>simp add: bo_sys_ok_def\<close>)
next
  case (cpu_map p refs dev r out dev')
  then have ok: "bo_ok dev" "refs_ok (bos dev) refs" by (simp_all add: bo_sys_ok_def)
  obtain bo where bo: "bos dev p = Some bo" using ok(2) cpu_map(1) by (rule refs_ok_held)
  show ?case
    by (rule cpu_map_correct [OF ok bo cpu_map(4)]) (use cpu_map(2) in \<open>simp_all add: bo_sys_ok_def\<close>)
next
  case (cpu_unmap p refs dev r dev')
  then have ok: "bo_ok dev" "refs_ok (bos dev) refs" by (simp_all add: bo_sys_ok_def)
  obtain bo where bo: "bos dev p = Some bo" using ok(2) cpu_unmap(1) by (rule refs_ok_held)
  show ?case
    by (rule cpu_unmap_correct [OF ok bo, of ops]) (use cpu_unmap(2) in \<open>simp add: bo_sys_ok_def\<close>)
qed

section \<open>Properties\<close>

text \<open>
  The accelerant of the witnesses: its state lists the handles closed so far; the next buffer has
  handle 7, a file descriptor names the handle of the same number, buffers are mapped at
  \<open>0x10000\<close>.
\<close>

definition demo_info :: amdgpu_bo_info where
  "demo_info =
     \<lparr>info_alloc_size = 0x1000, info_phys_alignment = 0, info_preferred_heap = 0,
      info_alloc_flags = 0,
      info_metadata = \<lparr>md_flags = 0, md_tiling_info = 0, md_size_metadata = 0, md_umd_metadata = []\<rparr>\<rparr>"

definition demo_ops :: "u32 list bo_ops" where
  "demo_ops =
     \<lparr>AmdgpuBoAlloc = (\<lambda>a req. (0, 7, a)),
      AmdgpuBoSetMetadata = (\<lambda>a h m. (0, a)),
      AmdgpuBoQueryInfo = (\<lambda>a h. (0, demo_info, a)),
      AmdgpuBoCpuMap = (\<lambda>a h. (0, 0x10000, a)),
      AmdgpuCreateBoFromUserMem = (\<lambda>a cpu sz. (0, 8, a)),
      AmdgpuBoVaOpRaw = (\<lambda>a h off sz addr fl op. (0, a)),
      DrmCloseBufferHandle = (\<lambda>a h. h # a),
      DrmPrimeHandleToFD = (\<lambda>a h. (0, h, a)),
      DrmPrimeFDToHandle = (\<lambda>a fd. (0, fd, a)),
      drm_munmap = (\<lambda>a p sz. (0, a))\<rparr>"

lemma demo_ops_fields [simp]:
  "AmdgpuBoAlloc demo_ops a req = (0, 7, a)" "AmdgpuBoQueryInfo demo_ops a h = (0, demo_info, a)"
  "AmdgpuBoCpuMap demo_ops a h = (0, 0x10000, a)" "DrmCloseBufferHandle demo_ops a h = h # a"
  "DrmPrimeFDToHandle demo_ops a fd = (0, fd, a)" "drm_munmap demo_ops a c sz = (0, a)"
  by (simp_all add: demo_ops_def)

definition demo_dev :: "u32 list bo_dev" where
  "demo_dev = \<lparr>acc = [], bo_handles = empty_table, bo_flink_names = empty_table, bos = Map.empty\<rparr>"

lemma bo_ok_empty: "bos dev = Map.empty \<Longrightarrow> bo_handles dev = empty_table \<Longrightarrow>
    bo_flink_names dev = empty_table \<Longrightarrow> bo_ok dev"
  by (simp add: bo_ok_def ht.tracks_def)

lemma bo_ok_demo [simp]: "bo_ok demo_dev" "refs_ok (bos demo_dev) {#}"
  by (simp_all add: bo_ok_empty demo_dev_def refs_ok_def)

lemma demo_maps_nonnull: "maps_nonnull demo_ops"
  by (simp add: maps_nonnull_def demo_ops_def)

lemma bo_run_ok:
  "(bo_step ops pagesize)\<^sup>*\<^sup>* s s' \<Longrightarrow> bo_sys_ok s \<Longrightarrow> maps_nonnull ops \<Longrightarrow> bo_sys_ok s'"
  by (induction rule: rtranclp_induct) (use bo_step_ok in blast)+

text \<open>C7. In every run of the buffer operations from a fresh device, whichever allocations fail, an object is live exactly when clients hold references to it, its counter is
  the number of those references, and the handle table answers the handle of each live object with
  that object, and with nothing else. The accelerant may fail any call, but a buffer it creates has a
  handle that no live buffer has, its handles are small enough for the size of the table to be computed at 32 bits,
  a mapping it reports as made is not at the null address, and clients hold fewer than \<open>2 ^ 31\<close>
  references.\<close>

theorem bo_runs_track_references:
  assumes "(bo_step ops pagesize)\<^sup>*\<^sup>* (dev0, {#}) (dev, refs)" and "maps_nonnull ops"
    and "bos dev0 = Map.empty" and "bo_handles dev0 = empty_table" and "bo_flink_names dev0 = empty_table"
  shows "(\<forall>p. p \<in># refs \<longleftrightarrow> p \<in> dom (bos dev))
    \<and> (\<forall>p bo. bos dev p = Some bo \<longrightarrow> unat (bo_refcount bo) = count refs p)
    \<and> (\<forall>h p. handle_table_lookup (bo_handles dev) h = Ret (Some p)
         \<longleftrightarrow> (\<exists>bo. bos dev p = Some bo \<and> bo_handle bo = h))"
proof -
  have "bo_sys_ok (dev0, {#})"
    using assms(3-5) by (simp add: bo_sys_ok_def bo_ok_empty refs_ok_def)
  from bo_run_ok [OF assms(1) this assms(2)] have ok: "bo_ok dev" "refs_ok (bos dev) refs"
    by (simp_all add: bo_sys_ok_def)
  have "p \<in># refs \<longleftrightarrow> p \<in> dom (bos dev)" for p
    using ok(2) unfolding refs_ok_def by (cases "bos dev p") (auto simp flip: count_greater_zero_iff)
  then show ?thesis
    using ok(2) bo_ok_lookup [OF ok(1)] bo_ok_table(2) [OF ok(1)] by (simp add: refs_ok_def)
qed

lemma demo_alloc:
  "amdgpu_bo_alloc demo_ops 4096 1 demo_dev
     \<lparr>req_alloc_size = 0x2000, req_phys_alignment = 0, req_preferred_heap = 0, req_flags = 0\<rparr> []
   = Ret (OK, Some 1,
       demo_dev\<lparr>bo_handles := \<lparr>max_key = 512, vals = (replicate 512 None)[7 := Some 1]\<rparr>,
                bos := [1 \<mapsto> new_bo 0x2000 7]\<rparr>, [])"
  by (simp add: amdgpu_bo_alloc_def bo_create_or_close_def amdgpu_bo_create_def demo_ops_def
      demo_dev_def handle_table_insert_def table_store_def empty_table_def ALIGN32_def align_mask_def
      new_bo_def Let_def)

theorem bo_runs_track_references_witness:
  "handle_table_lookup \<lparr>max_key = 512, vals = (replicate 512 None)[7 := Some 1]\<rparr> 7 = Ret (Some (1 :: ptr))"
proof -
  let ?d = "demo_dev\<lparr>bo_handles := \<lparr>max_key = 512, vals = (replicate 512 None)[7 := Some 1]\<rparr>,
                bos := [1 \<mapsto> new_bo 0x2000 7]\<rparr>"
  have "bo_step demo_ops 4096 (demo_dev, {#}) (?d, {#1#})"
    using bo_step.alloc [OF _ _ demo_alloc, of "{#}"] key_ok_4096 [of 7]
    by (simp add: demo_dev_def demo_ops_def fresh_handle_def)
  then have "(bo_step demo_ops 4096)\<^sup>*\<^sup>* (demo_dev, {#}) (?d, {#1#})" by (rule r_into_rtranclp)
  from bo_runs_track_references [OF this demo_maps_nonnull, THEN conjunct2, THEN conjunct2]
  show ?thesis by (simp add: demo_dev_def new_bo_def)
qed

text \<open>C14. Importing a DMA buffer whose handle belongs to a live object returns that very object,
  with its size and one more reference, and creates nothing.\<close>

theorem bo_import_same_object:
  assumes "bo_ok dev" and "bos dev p = Some bo"
    and "import_prime ops dev fd = Inr (bo_handle bo, sz, dev1)"
  shows "amdgpu_bo_import ops pagesize newp dev amdgpu_bo_handle_type_dma_buf_fd fd sc
    = Ret (OK, Some (p, bo_alloc_size bo),
           dev1\<lparr>bos := (bos dev)(p \<mapsto> bo\<lparr>bo_refcount := bo_refcount bo + 1\<rparr>)\<rparr>, sc)"
proof -
  note im = bo_import_dma_buf [OF assms(1,3)]
  have "table_map (bo_handles dev1) (bo_handle bo) = Some p"
    using bo_ok_table(2) [OF im(2), of "bo_handle bo" p] im(3) assms(2) by simp
  then show ?thesis
    using im(1,3) assms(2) by (simp add: import_found_def amdgpu_bo_inc_ref_def)
qed

lemma demo_dev1_ok:
  "bo_ok (demo_dev\<lparr>bo_handles := \<lparr>max_key = 512, vals = (replicate 512 None)[7 := Some 1]\<rparr>,
                   bos := [1 \<mapsto> new_bo 0x2000 7]\<rparr>)"
  and "refs_ok [1 \<mapsto> new_bo 0x2000 7] {#1#}"
proof -
  have "bo_sys_ok (demo_dev, {#})" by (simp add: bo_sys_ok_def)
  moreover have "bo_step demo_ops 4096 (demo_dev, {#})
    (demo_dev\<lparr>bo_handles := \<lparr>max_key = 512, vals = (replicate 512 None)[7 := Some 1]\<rparr>,
                   bos := [1 \<mapsto> new_bo 0x2000 7]\<rparr>, {#1#})"
    using bo_step.alloc [OF _ _ demo_alloc, of "{#}"] key_ok_4096 [of 7]
    by (simp add: demo_dev_def demo_ops_def fresh_handle_def)
  ultimately have "bo_sys_ok (demo_dev\<lparr>bo_handles := \<lparr>max_key = 512, vals = (replicate 512 None)[7 := Some 1]\<rparr>,
                   bos := [1 \<mapsto> new_bo 0x2000 7]\<rparr>, {#1#})"
    using bo_step_ok demo_maps_nonnull by blast
  then show "bo_ok (demo_dev\<lparr>bo_handles := \<lparr>max_key = 512, vals = (replicate 512 None)[7 := Some 1]\<rparr>,
                   bos := [1 \<mapsto> new_bo 0x2000 7]\<rparr>)" "refs_ok [1 \<mapsto> new_bo 0x2000 7] {#1#}"
    by (simp add: bo_sys_ok_def) (simp add: refs_ok_def new_bo_def)
qed

definition demo_dev1 :: "u32 list bo_dev" where
  "demo_dev1 =
     demo_dev\<lparr>bo_handles := \<lparr>max_key = 512, vals = (replicate 512 None)[7 := Some 1]\<rparr>,
              bos := [1 \<mapsto> new_bo 0x2000 7]\<rparr>"

theorem bo_import_same_object_witness:
  "\<exists>d. amdgpu_bo_import demo_ops 4096 2 demo_dev1 amdgpu_bo_handle_type_dma_buf_fd 7 []
        = Ret (OK, Some (1, 0x2000), d, [])"
  using bo_import_same_object [OF demo_dev1_ok(1), of 1 "new_bo 0x2000 7" demo_ops 7 "0x1000" _ 4096 2 "[]"]
  by (simp add: import_prime_def demo_ops_def demo_info_def demo_dev1_def new_bo_def)

text \<open>C13. Freeing a held reference never faults. While other references remain only the counter
  drops; with the last one the handle is forgotten and closed, after the CPU mapping has been
  released however often it was mapped, and the object is gone; all other objects stay.\<close>

theorem bo_free_last_reference:
  assumes "bo_ok dev" and "refs_ok (bos dev) refs" and "p \<in># refs" and "bos dev p = Some bo"
  shows "\<exists>dev'. amdgpu_bo_free ops dev p = Ret (OK, dev') \<and> bo_ok dev'
    \<and> (if count refs p = 1
       then bos dev' = (bos dev)(p := None)
         \<and> handle_table_lookup (bo_handles dev') (bo_handle bo) = Ret None
         \<and> acc dev' = DrmCloseBufferHandle ops
             (if sint (bo_cpu_map_count bo) > 0
              then snd (drm_munmap ops (acc dev) (bo_cpu_ptr bo) (bo_alloc_size bo)) else acc dev)
             (bo_handle bo)
       else bos dev' = (bos dev)(p \<mapsto> bo\<lparr>bo_refcount := bo_refcount bo - 1\<rparr>)
         \<and> bo_handles dev' = bo_handles dev \<and> acc dev' = acc dev)"
proof (rule bo_free_correct [OF assms, of ops])
  fix dev'
  assume "amdgpu_bo_free ops dev p = Ret (OK, dev')" "bo_ok dev'"
    "if count refs p = 1
     then bos dev' = (bos dev)(p := None) \<and> acc dev' = release_acc ops (acc dev) bo
       \<and> table_map (bo_handles dev') = (table_map (bo_handles dev))(bo_handle bo := None)
     else bos dev' = (bos dev)(p \<mapsto> bo\<lparr>bo_refcount := bo_refcount bo - 1\<rparr>) \<and> acc dev' = acc dev
       \<and> bo_handles dev' = bo_handles dev"
  then show ?thesis
    by (intro exI [of _ dev']) (simp add: release_acc_def bo_ok_lookup split: if_splits)
qed

theorem bo_free_last_reference_witness:
  "\<exists>dev'. amdgpu_bo_free demo_ops demo_dev1 1 = Ret (OK, dev') \<and> bos dev' 1 = None \<and> acc dev' = [7]"
proof -
  have "bo_ok demo_dev1" "bos demo_dev1 1 = Some (new_bo 0x2000 7)"
    using demo_dev1_ok(1) by (simp_all add: demo_dev1_def)
  moreover have "refs_ok (bos demo_dev1) {#1#}"
    by (simp add: refs_ok_def new_bo_def demo_dev1_def)
  ultimately show ?thesis
    using bo_free_last_reference [of demo_dev1 "{#1#}" 1 "new_bo 0x2000 7" demo_ops]
    by (auto simp: new_bo_def demo_dev1_def demo_dev_def demo_ops_def)
qed

text \<open>C15. Allocating a buffer and freeing the one reference leaves the objects and every answer of
  the handle table as they were, and the accelerant with the new handle closed once; when the
  allocation of the object or of the table fails, ENOMEM is returned and the handle is closed too.\<close>

theorem bo_alloc_free_restores:
  assumes "bo_ok dev" and "refs_ok (bos dev) refs" and "newp \<notin> dom (bos dev)"
    and "AmdgpuBoAlloc ops (acc dev) req = (0, h, a)" and "fresh_handle pagesize dev h"
  shows "(\<exists>dev' sc'. amdgpu_bo_alloc ops pagesize newp dev req sc = Ret (OK, Some newp, dev', sc')
        \<and> handle_table_lookup (bo_handles dev') h = Ret (Some newp)
        \<and> (\<exists>dev''. amdgpu_bo_free ops dev' newp = Ret (OK, dev'') \<and> bos dev'' = bos dev
             \<and> acc dev'' = DrmCloseBufferHandle ops a h
             \<and> (\<forall>k. handle_table_lookup (bo_handles dev'') k = handle_table_lookup (bo_handles dev) k)))
    \<or> (\<exists>sc'. amdgpu_bo_alloc ops pagesize newp dev req sc
          = Ret (Err ENOMEM, None, dev\<lparr>acc := DrmCloseBufferHandle ops a h\<rparr>, sc')
        \<and> \<not> no_alloc_failure sc)"
proof -
  let ?d = "dev\<lparr>acc := a\<rparr>"
  have h: "table_map (bo_handles ?d) h = None" "key_ok pagesize h"
    using assms(5) by (simp_all add: fresh_handle_def)
  have ok: "bo_ok ?d" and fresh: "newp \<notin> dom (bos ?d)" using assms(1,3) by simp_all
  have al: "amdgpu_bo_alloc ops pagesize newp dev req sc
      = bo_create_or_close ops pagesize newp ?d (req_alloc_size req) h sc"
    by (simp add: amdgpu_bo_alloc_def assms(4))
  show ?thesis
  proof (rule bo_create_correct [OF ok fresh h, of "req_alloc_size req" sc])
    fix dev' sc'
    assume c: "amdgpu_bo_create pagesize newp ?d (req_alloc_size req) h sc = Ret (OK, Some newp, dev', sc')"
      "bo_ok dev'" "bos dev' = (bos ?d)(newp \<mapsto> new_bo (req_alloc_size req) h)" "acc dev' = acc ?d"
      "table_map (bo_handles dev') = (table_map (bo_handles ?d))(h \<mapsto> newp)"
    have r: "refs_ok (bos dev') (add_mset newp refs)"
      using refs_ok_new [OF assms(2,3)] c(3) by simp
    have p: "bos dev' newp = Some (new_bo (req_alloc_size req) h)" using c(3) by simp
    have one: "count (add_mset newp refs) newp = 1" using assms(2,3) by (auto simp: refs_ok_def)
    obtain dev'' where f: "amdgpu_bo_free ops dev' newp = Ret (OK, dev'')" "bo_ok dev''"
      "bos dev'' = (bos dev')(newp := None)"
      "acc dev'' = release_acc ops (acc dev') (new_bo (req_alloc_size req) h)"
      "table_map (bo_handles dev'') = (table_map (bo_handles dev'))(h := None)"
      by (rule bo_free_correct [OF c(2) r _ p, of ops]) (use one in \<open>auto simp: new_bo_def\<close>)
    have "table_map (bo_handles dev'') = table_map (bo_handles dev)" "bos dev'' = bos dev"
      using f c h(1) assms(3) by (auto simp: fun_eq_iff)
    then show ?thesis
      using c f al assms(1) by (auto simp: bo_create_or_close_def release_acc_def new_bo_def bo_ok_lookup)
  next
    fix sc'
    assume "amdgpu_bo_create pagesize newp ?d (req_alloc_size req) h sc = Ret (Err ENOMEM, None, ?d, sc')"
      "\<not> no_alloc_failure sc"
    then show ?thesis using al by (auto simp: bo_create_or_close_def)
  qed
qed

theorem bo_alloc_free_restores_witness:
  "\<exists>dev' sc' dev''. amdgpu_bo_alloc demo_ops 4096 1 demo_dev
       \<lparr>req_alloc_size = 0x2000, req_phys_alignment = 0, req_preferred_heap = 0, req_flags = 0\<rparr> []
     = Ret (OK, Some 1, dev', sc') \<and> amdgpu_bo_free demo_ops dev' 1 = Ret (OK, dev'') \<and> acc dev'' = [7]"
  using bo_alloc_free_restores [OF bo_ok_demo, of 1 demo_ops
      "\<lparr>req_alloc_size = 0x2000, req_phys_alignment = 0, req_preferred_heap = 0, req_flags = 0\<rparr>" 7 "[]" 4096 "[]"]
    key_ok_4096 [of 7]
  by (auto simp: fresh_handle_def) (auto simp: demo_dev_def demo_ops_def)

fun bo_map_times :: "'a bo_ops \<Rightarrow> nat \<Rightarrow> 'a bo_dev \<Rightarrow> ptr \<Rightarrow> u64 list \<Rightarrow> (u64 list \<times> 'a bo_dev) outcome" where
  "bo_map_times ops 0 dev p outs = Ret (outs, dev)"
| "bo_map_times ops (Suc n) dev p outs =
     bind_outcome (amdgpu_bo_cpu_map ops dev p) (\<lambda>(r, out, dev').
       case out of None \<Rightarrow> Ret (outs, dev') | Some c \<Rightarrow> bo_map_times ops n dev' p (c # outs))"

fun bo_unmap_times :: "'a bo_ops \<Rightarrow> nat \<Rightarrow> 'a bo_dev \<Rightarrow> ptr \<Rightarrow> 'a bo_dev outcome" where
  "bo_unmap_times ops 0 dev p = Ret dev"
| "bo_unmap_times ops (Suc n) dev p =
     bind_outcome (amdgpu_bo_cpu_unmap ops dev p) (\<lambda>(r, dev'). bo_unmap_times ops n dev' p)"

lemma map_more:
  "bos dev p = Some bo \<Longrightarrow> bo_cpu_ptr bo = c \<Longrightarrow> c \<noteq> 0 \<Longrightarrow> 0 < sint (bo_cpu_map_count bo) \<Longrightarrow>
     sint (bo_cpu_map_count bo) + int n < 2 ^ 63 \<Longrightarrow>
     bo_map_times ops n dev p outs
       = Ret (replicate n c @ outs,
              dev\<lparr>bos := (bos dev)(p \<mapsto> bo\<lparr>bo_cpu_map_count := bo_cpu_map_count bo + of_nat n\<rparr>)\<rparr>)"
proof (induction n arbitrary: dev bo outs)
  case 0
  then show ?case by (simp add: fun_upd_idem)
next
  case (Suc n)
  let ?bo = "bo\<lparr>bo_cpu_map_count := bo_cpu_map_count bo + 1\<rparr>"
  have "replicate n c @ c # outs = c # replicate n c @ outs" by (simp add: replicate_app_Cons_same)
  moreover have max: "bo_cpu_map_count bo \<noteq> INT64_MAX" using Suc.prems by (simp add: map_count_max)
  ultimately show ?case
    using Suc.prems Suc.IH [of "dev\<lparr>bos := (bos dev)(p \<mapsto> ?bo)\<rparr>" ?bo "c # outs"] map_count_inc [OF max]
    by (simp add: amdgpu_bo_cpu_map_def algebra_simps cong: if_cong)
qed

lemma unmap_more:
  "bos dev p = Some bo \<Longrightarrow> int n < sint (bo_cpu_map_count bo) \<Longrightarrow>
     bo_unmap_times ops n dev p
       = Ret (dev\<lparr>bos := (bos dev)(p \<mapsto> bo\<lparr>bo_cpu_map_count := bo_cpu_map_count bo - of_nat n\<rparr>)\<rparr>)"
proof (induction n arbitrary: dev bo)
  case 0
  then show ?case by (simp add: fun_upd_idem)
next
  case (Suc n)
  let ?bo = "bo\<lparr>bo_cpu_map_count := bo_cpu_map_count bo - 1\<rparr>"
  have "0 < sint (bo_cpu_map_count bo)" using Suc.prems by simp
  from map_count_dec [OF this] show ?case
    using Suc.prems Suc.IH [of "dev\<lparr>bos := (bos dev)(p \<mapsto> ?bo)\<rparr>" ?bo]
    by (auto simp: amdgpu_bo_cpu_unmap_def algebra_simps cong: if_cong)
qed

lemma sint_of_nat_small: "n < 2 ^ 63 \<Longrightarrow> sint (of_nat n :: u64) = int n"
  by (simp add: signed_of_nat signed_take_bit_int_eq_self)

lemma unmap_times_Suc:
  "bo_unmap_times ops (Suc n) dev p
     = bind_outcome (bo_unmap_times ops n dev p) (\<lambda>dev'. bo_unmap_times ops 1 dev' p)"
proof (induction n arbitrary: dev)
  case (Suc n)
  show ?case
    by (subst bo_unmap_times.simps(2)) (cases "amdgpu_bo_cpu_unmap ops dev p"; simp add: Suc.IH [simplified] split: prod.split)
qed simp

text \<open>C26. CPU mappings nest: of \<open>n + 1\<close> maps of an unmapped object, as many as the 64-bit signed
  counter can count (at most \<open>2 ^ 63 - 1\<close>), only the first asks the
  accelerant and all return its address, and of \<open>n + 1\<close> unmaps only the last calls \<open>munmap\<close>, after
  which the object is as before; one unmap more is refused with EINVAL.\<close>

theorem bo_cpu_maps_nest:
  assumes "bos dev p = Some bo" and "bo_cpu_ptr bo = 0" and "bo_cpu_map_count bo = 0"
    and "AmdgpuBoCpuMap ops (acc dev) (bo_handle bo) = (0, c, a)" and "c \<noteq> 0"
    and "n + 1 < 2 ^ 63"
  shows "\<exists>dev' dev''. bo_map_times ops (Suc n) dev p [] = Ret (replicate (Suc n) c, dev')
    \<and> acc dev' = a
    \<and> bo_unmap_times ops (Suc n) dev' p = Ret dev''
    \<and> dev'' = dev\<lparr>acc := snd (drm_munmap ops a c (bo_alloc_size bo))\<rparr>
    \<and> amdgpu_bo_cpu_unmap ops dev'' p = Ret (Err EINVAL, dev'')"
proof -
  let ?b1 = "bo\<lparr>bo_cpu_ptr := c, bo_cpu_map_count := 1\<rparr>"
  let ?d1 = "dev\<lparr>acc := a, bos := (bos dev)(p \<mapsto> ?b1)\<rparr>"
  let ?b2 = "bo\<lparr>bo_cpu_ptr := c, bo_cpu_map_count := 1 + of_nat n\<rparr>"
  let ?d2 = "dev\<lparr>acc := a, bos := (bos dev)(p \<mapsto> ?b2)\<rparr>"
  have m: "bo_map_times ops (Suc n) dev p [] = Ret (replicate (Suc n) c, ?d2)"
    using assms map_more [of ?d1 p ?b1 c n ops "[c]"]
    by (simp add: amdgpu_bo_cpu_map_def replicate_append_same)
  have "sint (1 + of_nat n :: u64) = 1 + int n"
    using assms(6) sint_of_nat_small [of "Suc n"] by simp
  then have "bo_unmap_times ops n ?d2 p = Ret ?d1"
    using unmap_more [of ?d2 p ?b2 n ops] by simp
  moreover have "dev\<lparr>bos := (bos dev)(p \<mapsto> bo)\<rparr> = dev" using assms(1) by (simp add: fun_upd_idem)
  moreover have "bo\<lparr>bo_cpu_map_count := 0, bo_cpu_ptr := 0\<rparr> = bo" using assms(2,3) by simp
  ultimately have u: "bo_unmap_times ops (Suc n) ?d2 p
      = Ret (dev\<lparr>acc := snd (drm_munmap ops a c (bo_alloc_size bo))\<rparr>)"
    using assms(1) by (simp only: unmap_times_Suc)
      (simp add: amdgpu_bo_cpu_unmap_def fun_upd_idem split: prod.split)
  show ?thesis
    by (rule exI [of _ ?d2], rule exI [of _ "dev\<lparr>acc := snd (drm_munmap ops a c (bo_alloc_size bo))\<rparr>"])
       (use m u assms(1,3) in \<open>simp add: amdgpu_bo_cpu_unmap_def\<close>)
qed

theorem bo_cpu_maps_nest_witness:
  "\<exists>dev'. bo_map_times demo_ops 3 demo_dev1 1 [] = Ret (replicate 3 0x10000, dev')
     \<and> bo_unmap_times demo_ops 3 dev' 1 = Ret demo_dev1"
proof -
  have b: "bos demo_dev1 1 = Some (new_bo 0x2000 7)" by (simp add: demo_dev1_def)
  have "AmdgpuBoCpuMap demo_ops (acc demo_dev1) (bo_handle (new_bo 0x2000 7)) = (0, 0x10000, acc demo_dev1)"
    by (simp add: demo_ops_def)
  have three: "Suc 2 = (3 :: nat)" by simp
  note nest = bo_cpu_maps_nest [OF b _ _ \<open>AmdgpuBoCpuMap demo_ops _ _ = _\<close>, of 2]
  from nest show ?thesis unfolding three by (auto simp: new_bo_def simp del: replicate.simps)
qed

text \<open>
  What the search looks for, over numbers: an object that is mapped at addresses among which the
  one asked for is, and that has the size asked for.
\<close>

definition maps_address :: "amdgpu_bo \<Rightarrow> nat \<Rightarrow> nat \<Rightarrow> bool" where
  "maps_address bo adr n \<longleftrightarrow>
     0 < sint (bo_cpu_map_count bo) \<and> n \<le> unat (bo_alloc_size bo)
     \<and> adr \<in> {unat (bo_cpu_ptr bo) ..< unat (bo_cpu_ptr bo) + unat (bo_alloc_size bo)}"

definition mapping_ends :: "amdgpu_bo \<Rightarrow> bool" where
  "mapping_ends bo \<longleftrightarrow> unat (bo_cpu_ptr bo) + unat (bo_alloc_size bo) < 2 ^ 64"

lemma cpu_mapping_contains_iff:
  assumes "bo_fine bo"
  shows "cpu_mapping_contains bo cpu sz \<longleftrightarrow> maps_address bo (unat cpu) (unat sz) \<and> mapping_ends bo"
proof -
  let ?e = "unat (bo_cpu_ptr bo) + unat (bo_alloc_size bo)"
  have "unat (bo_cpu_ptr bo) < 2 ^ 64" "unat (bo_alloc_size bo) < 2 ^ 64"
    using unsigned_less [where 'a = nat, of "bo_cpu_ptr bo"] unsigned_less [where 'a = nat, of "bo_alloc_size bo"]
    by simp_all
  then have "unat (bo_cpu_ptr bo + bo_alloc_size bo) = (if ?e < 2 ^ 64 then ?e else ?e - 2 ^ 64)"
    using unat_plus_if' [of "bo_cpu_ptr bo" "bo_alloc_size bo"] by simp
  then show ?thesis
    using assms \<open>unat (bo_alloc_size bo) < 2 ^ 64\<close>
    by (auto simp: cpu_mapping_contains_def maps_address_def mapping_ends_def bo_fine_def
        word_less_nat_alt word_le_nat_alt)
qed

text \<open>C27. The search by CPU address finds an object whenever one is mapped, has at least the size
  asked for and has the address among those of its mapping, provided the mapping ends before the last
  64-bit address (the end of one that goes beyond it is computed with a wrap-around, and such an object is never
  found); what it returns is such an object, with one more reference, and the offset of the address
  in its mapping; otherwise it returns ENXIO with the null pointer, and changes nothing. The search for
  the null address or for no bytes is refused.\<close>

theorem find_bo_by_cpu_mapping_correct:
  assumes "bo_ok dev"
  shows "if cpu = 0 \<or> sz = 0 then amdgpu_find_bo_by_cpu_mapping dev cpu sz = Ret (Err EINVAL, None, dev)
    else (\<exists>p bo. bos dev p = Some bo \<and> maps_address bo (unat cpu) (unat sz) \<and> mapping_ends bo
        \<and> amdgpu_find_bo_by_cpu_mapping dev cpu sz
          = Ret (OK, Some (Some p, cpu - bo_cpu_ptr bo),
                 dev\<lparr>bos := (bos dev)(p \<mapsto> bo\<lparr>bo_refcount := bo_refcount bo + 1\<rparr>)\<rparr>))
    \<or> (\<forall>p bo. bos dev p = Some bo \<longrightarrow> \<not> (maps_address bo (unat cpu) (unat sz) \<and> mapping_ends bo))
        \<and> amdgpu_find_bo_by_cpu_mapping dev cpu sz = Ret (Err ENXIO, Some (None, 0), dev)"
proof -
  obtain f where f: "find_bo_loop (bo_handles dev) (bos dev) cpu sz [0..<unat (max_key (bo_handles dev))] = Ret f"
    "case f of
           Some p \<Rightarrow> \<exists>bo. bos dev p = Some bo \<and> cpu_mapping_contains bo cpu sz
         | None \<Rightarrow> \<forall>p bo. bos dev p = Some bo \<longrightarrow> \<not> cpu_mapping_contains bo cpu sz"
    using find_bo_correct [OF assms(1)] .
  then show ?thesis
    using bo_ok_fine [OF assms(1)] cpu_mapping_contains_iff
    by (cases f) (auto simp: amdgpu_find_bo_by_cpu_mapping_def amdgpu_bo_inc_ref_def)
qed

theorem find_bo_by_cpu_mapping_correct_witness:
  "\<exists>d. amdgpu_find_bo_by_cpu_mapping
        (demo_dev1\<lparr>bos := [1 \<mapsto> (new_bo 0x2000 7)\<lparr>bo_cpu_ptr := 0x10000, bo_cpu_map_count := 1\<rparr>]\<rparr>)
        0x10800 16 = Ret (OK, Some (Some 1, 0x800), d)"
proof -
  let ?bo = "(new_bo 0x2000 7)\<lparr>bo_cpu_ptr := 0x10000, bo_cpu_map_count := 1\<rparr>"
  let ?d = "demo_dev1\<lparr>bos := [1 \<mapsto> ?bo]\<rparr>"
  have "bo_ok (demo_dev1\<lparr>bos := (bos demo_dev1)(1 \<mapsto> ?bo)\<rparr>)"
    using demo_dev1_ok(1)
    by (intro bo_ok_modify [of _ _ "new_bo 0x2000 7"]) (simp_all add: demo_dev1_def bo_fine_def new_bo_def)
  then have ok: "bo_ok ?d" by (simp add: demo_dev1_def)
  have c: "maps_address ?bo (unat (0x10800 :: u64)) (unat (16 :: u64))" "mapping_ends ?bo"
    by (simp_all add: maps_address_def mapping_ends_def new_bo_def)
  have one: "bos ?d p = Some b \<longleftrightarrow> p = 1 \<and> b = ?bo" for p b by auto
  from find_bo_by_cpu_mapping_correct [OF ok, of "0x10800" 16, unfolded one] c
  show ?thesis by (auto simp: new_bo_def)
qed

end
