(* ===== verification/VaRange.thy ===== *)
theory VaRange imports VaMgr Internal begin

text \<open>
  The address ranges a client of a device gets: \<open>amdgpu_va_range_query\<close>, \<open>_alloc\<close> and \<open>_free\<close> of
  \<open>amdgpu/amdgpu_vamgr.c\<close> on the four managers of \<open>struct amdgpu_device\<close>, and the part of
  \<open>amdgpu_device_initialize_haiku\<close> that sets these managers up. A handle is a pointer to a
  \<open>struct amdgpu_va\<close> on a heap; its field \<open>vamgr\<close>, a pointer to one of the four managers of the
  device, is the name of that field.
\<close>

section \<open>State\<close>

datatype va_mgr_id = VAMGR | VAMGR_32 | VAMGR_HIGH | VAMGR_HIGH_32

text \<open>A statement about all four managers of a device computes.\<close>

lemma va_mgr_all: "(\<forall>k. P k) \<longleftrightarrow> P VAMGR \<and> P VAMGR_32 \<and> P VAMGR_HIGH \<and> P VAMGR_HIGH_32"
  by (metis va_mgr_id.exhaust)

lemma va_mgr_ex: "(\<exists>k. P k) \<longleftrightarrow> P VAMGR \<or> P VAMGR_32 \<or> P VAMGR_HIGH \<or> P VAMGR_HIGH_32"
  by (metis va_mgr_id.exhaust)

instantiation va_mgr_id :: enum
begin

definition enum_va_mgr_id :: "va_mgr_id list" where
  "enum_va_mgr_id = [VAMGR, VAMGR_32, VAMGR_HIGH, VAMGR_HIGH_32]"

definition enum_all_va_mgr_id :: "(va_mgr_id \<Rightarrow> bool) \<Rightarrow> bool" where
  "enum_all_va_mgr_id P \<longleftrightarrow> P VAMGR \<and> P VAMGR_32 \<and> P VAMGR_HIGH \<and> P VAMGR_HIGH_32"

definition enum_ex_va_mgr_id :: "(va_mgr_id \<Rightarrow> bool) \<Rightarrow> bool" where
  "enum_ex_va_mgr_id P \<longleftrightarrow> P VAMGR \<or> P VAMGR_32 \<or> P VAMGR_HIGH \<or> P VAMGR_HIGH_32"

instance
proof
  show "(UNIV :: va_mgr_id set) = set enum_class.enum"
    unfolding enum_va_mgr_id_def by (auto intro: va_mgr_id.exhaust)
  show "distinct (enum_class.enum :: va_mgr_id list)" by (simp add: enum_va_mgr_id_def)
  show "enum_class.enum_all P \<longleftrightarrow> Ball UNIV P" for P :: "va_mgr_id \<Rightarrow> bool"
    by (simp add: enum_all_va_mgr_id_def va_mgr_all)
  show "enum_class.enum_ex P \<longleftrightarrow> Bex UNIV P" for P :: "va_mgr_id \<Rightarrow> bool"
    by (simp add: enum_ex_va_mgr_id_def va_mgr_ex)
qed

end

datatype amdgpu_gpu_va_range = amdgpu_gpu_va_range_general | amdgpu_gpu_va_range_invalid int

record amdgpu_va =
  va_address :: u64
  va_size :: u64
  va_range_type :: amdgpu_gpu_va_range
  va_vamgr :: va_mgr_id

record va_dev =
  virtual_address_offset :: u64
  virtual_address_max :: u64
  vamgr :: amdgpu_bo_va_mgr
  vamgr_32 :: amdgpu_bo_va_mgr
  vamgr_high :: amdgpu_bo_va_mgr
  vamgr_high_32 :: amdgpu_bo_va_mgr
  vas :: "ptr \<rightharpoonup> amdgpu_va"

fun get_mgr :: "va_dev \<Rightarrow> va_mgr_id \<Rightarrow> amdgpu_bo_va_mgr" where
  "get_mgr dev VAMGR = vamgr dev"
| "get_mgr dev VAMGR_32 = vamgr_32 dev"
| "get_mgr dev VAMGR_HIGH = vamgr_high dev"
| "get_mgr dev VAMGR_HIGH_32 = vamgr_high_32 dev"

fun set_mgr :: "va_dev \<Rightarrow> va_mgr_id \<Rightarrow> amdgpu_bo_va_mgr \<Rightarrow> va_dev" where
  "set_mgr dev VAMGR m = dev\<lparr>vamgr := m\<rparr>"
| "set_mgr dev VAMGR_32 m = dev\<lparr>vamgr_32 := m\<rparr>"
| "set_mgr dev VAMGR_HIGH m = dev\<lparr>vamgr_high := m\<rparr>"
| "set_mgr dev VAMGR_HIGH_32 m = dev\<lparr>vamgr_high_32 := m\<rparr>"

definition AMDGPU_VA_RANGE_32_BIT :: u64 where "AMDGPU_VA_RANGE_32_BIT = 1"
definition AMDGPU_VA_RANGE_HIGH :: u64 where "AMDGPU_VA_RANGE_HIGH = 2"
definition AMDGPU_VA_RANGE_REPLAYABLE :: u64 where "AMDGPU_VA_RANGE_REPLAYABLE = 4"

section \<open>Operations\<close>

definition amdgpu_va_range_query ::
    "va_dev \<Rightarrow> amdgpu_gpu_va_range \<Rightarrow> rc \<times> (u64 \<times> u64) option" where
  "amdgpu_va_range_query dev type =
     (if type \<noteq> amdgpu_gpu_va_range_general then (Err EINVAL, None)
      else (OK, Some (virtual_address_offset dev, virtual_address_max dev)))"

text \<open>The flags after the high flag has been cleared on a device without high addresses.\<close>

definition va_flags :: "va_dev \<Rightarrow> u64 \<Rightarrow> u64" where
  "va_flags dev flags =
     (if flags AND AMDGPU_VA_RANGE_HIGH \<noteq> 0 \<and> va_max (vamgr_high_32 dev) = 0
      then flags AND NOT AMDGPU_VA_RANGE_HIGH else flags)"

definition va_select :: "u64 \<Rightarrow> va_mgr_id" where
  "va_select flags =
     (if flags AND AMDGPU_VA_RANGE_HIGH \<noteq> 0 then
        (if flags AND AMDGPU_VA_RANGE_32_BIT \<noteq> 0 then VAMGR_HIGH_32 else VAMGR_HIGH)
      else (if flags AND AMDGPU_VA_RANGE_32_BIT \<noteq> 0 then VAMGR_32 else VAMGR))"

definition va_select_32 :: "u64 \<Rightarrow> va_mgr_id" where
  "va_select_32 flags = (if flags AND AMDGPU_VA_RANGE_HIGH \<noteq> 0 then VAMGR_HIGH_32 else VAMGR_32)"

text \<open>\<open>amdgpu_vamgr_find_va\<close> on one of the managers of the device.\<close>

definition dev_find_va ::
    "va_dev \<Rightarrow> va_mgr_id \<Rightarrow> u64 \<Rightarrow> u64 \<Rightarrow> u64 \<Rightarrow> bool \<Rightarrow> u64 \<Rightarrow> alloc_script
     \<Rightarrow> (rc \<times> u64 \<times> va_dev \<times> alloc_script) outcome" where
  "dev_find_va dev k sz alignment base from_top out sc =
     bind_outcome (amdgpu_vamgr_find_va (get_mgr dev k) sz alignment base from_top out sc)
       (\<lambda>(ret, out', mgr', sc'). Ret (ret, out', set_mgr dev k mgr', sc'))"

text \<open>The end of the function, once a range was found or not.\<close>

definition va_range_finish ::
    "ptr \<Rightarrow> va_dev \<Rightarrow> va_mgr_id \<Rightarrow> amdgpu_gpu_va_range \<Rightarrow> u64 \<Rightarrow> rc \<Rightarrow> u64 \<Rightarrow> alloc_script
     \<Rightarrow> rc \<times> u64 \<times> ptr option \<times> va_dev \<times> alloc_script" where
  "va_range_finish newp dev k type sz ret out sc =
     (if ret = OK then
        (case calloc_next sc of
           (False, sc') \<Rightarrow>
             (case amdgpu_vamgr_free_va (get_mgr dev k) out sz sc' of
                (mgr', sc'') \<Rightarrow> (Err ENOMEM, out, None, set_mgr dev k mgr', sc''))
         | (True, sc') \<Rightarrow>
             (OK, out, Some newp,
              dev\<lparr>vas := (vas dev)(newp \<mapsto>
                    \<lparr>va_address = out, va_size = sz, va_range_type = type, va_vamgr = k\<rparr>)\<rparr>,
              sc'))
      else (ret, out, None, dev, sc))"

definition amdgpu_va_range_alloc ::
    "ptr \<Rightarrow> va_dev \<Rightarrow> amdgpu_gpu_va_range \<Rightarrow> u64 \<Rightarrow> u64 \<Rightarrow> u64 \<Rightarrow> u64 \<Rightarrow> u64 \<Rightarrow> alloc_script
     \<Rightarrow> (rc \<times> u64 \<times> ptr option \<times> va_dev \<times> alloc_script) outcome" where
  "amdgpu_va_range_alloc newp dev type sz alignment base out flags sc =
     (let from_top = (flags AND AMDGPU_VA_RANGE_REPLAYABLE \<noteq> 0);
          flags' = va_flags dev flags;
          k = va_select flags';
          alignment' = MAX2 alignment (ucast (va_alignment (get_mgr dev k)));
          sz' = ALIGN64 sz (va_alignment (get_mgr dev k))
      in bind_outcome (dev_find_va dev k sz' alignment' base from_top out sc)
           (\<lambda>(ret, out1, dev1, sc1).
              if flags' AND AMDGPU_VA_RANGE_32_BIT = 0 \<and> ret \<noteq> OK then
                bind_outcome
                  (dev_find_va dev1 (va_select_32 flags') sz' alignment' base from_top out1 sc1)
                  (\<lambda>(ret2, out2, dev2, sc2).
                     Ret (va_range_finish newp dev2 (va_select_32 flags') type sz' ret2 out2 sc2))
              else Ret (va_range_finish newp dev1 k type sz' ret out1 sc1)))"

text \<open>A null handle and a handle with address 0 are accepted and ignored; the latter is not freed.\<close>

definition amdgpu_va_range_free ::
    "va_dev \<Rightarrow> ptr option \<Rightarrow> alloc_script \<Rightarrow> (rc \<times> va_dev \<times> alloc_script) outcome" where
  "amdgpu_va_range_free dev handle sc =
     (case handle of
        None \<Rightarrow> Ret (OK, dev, sc)
      | Some p \<Rightarrow>
          (case vas dev p of
             None \<Rightarrow> Fault
           | Some va \<Rightarrow>
               if va_address va = 0 then Ret (OK, dev, sc)
               else
                 (case amdgpu_vamgr_free_va (get_mgr dev (va_vamgr va)) (va_address va) (va_size va) sc of
                    (mgr', sc') \<Rightarrow>
                      Ret (OK, (set_mgr dev (va_vamgr va) mgr')\<lparr>vas := (vas dev)(p := None)\<rparr>, sc'))))"

text \<open>
  The managers as \<open>amdgpu_device_initialize_haiku\<close> sets them up from the device information, in its
  order. The bound of a 32-bit manager is 4 GiB above the start of its 4 GiB window.
\<close>

definition device_vamgr_init ::
    "u64 \<Rightarrow> u64 \<Rightarrow> u64 \<Rightarrow> u64 \<Rightarrow> u32 \<Rightarrow> alloc_script \<Rightarrow> (va_dev \<times> alloc_script) outcome" where
  "device_vamgr_init va_offset va_limit high_va_offset high_va_max alignment sc =
     (let max1 = MIN2 va_limit 0x100000000
      in bind_outcome (amdgpu_vamgr_init va_offset max1 (ucast alignment) sc) (\<lambda>(m32, sc).
         let start2 = max1; max2 = MAX2 va_limit 0x100000000
         in bind_outcome (amdgpu_vamgr_init start2 max2 (ucast alignment) sc) (\<lambda>(m, sc).
         let start3 = high_va_offset;
             max3 = MIN2 high_va_max ((start3 AND NOT 0xffffffff) + 0x100000000)
         in bind_outcome (amdgpu_vamgr_init start3 max3 (ucast alignment) sc) (\<lambda>(mh32, sc).
         let start4 = max3; max4 = MAX2 high_va_max ((start4 AND NOT 0xffffffff) + 0x100000000)
         in bind_outcome (amdgpu_vamgr_init start4 max4 (ucast alignment) sc) (\<lambda>(mh, sc).
         Ret (\<lparr>virtual_address_offset = va_offset, virtual_address_max = va_limit,
               vamgr = m, vamgr_32 = m32, vamgr_high = mh, vamgr_high_32 = mh32,
               vas = Map.empty\<rparr>, sc))))))"

section \<open>Frame lemmas\<close>

lemma get_set_mgr [simp]:
  "get_mgr (set_mgr dev k m) j = (if j = k then m else get_mgr dev j)"
  by (cases j; cases k) simp_all

lemma vas_set_mgr [simp]: "vas (set_mgr dev k m) = vas dev"
  by (cases k) simp_all

lemma get_mgr_vas [simp]: "get_mgr (dev\<lparr>vas := v\<rparr>) k = get_mgr dev k"
  by (cases k) simp_all

lemma set_mgr_same [simp]: "set_mgr dev k (get_mgr dev k) = dev"
  by (cases k) simp_all

section \<open>The invariant of the four managers\<close>

text \<open>The high managers are used only when the device has high addresses.\<close>

definition va_usable :: "va_dev \<Rightarrow> va_mgr_id \<Rightarrow> bool" where
  "va_usable dev k \<longleftrightarrow> k = VAMGR \<or> k = VAMGR_32 \<or> va_max (vamgr_high_32 dev) \<noteq> 0"

definition va_range_of :: "va_dev \<Rightarrow> ptr \<Rightarrow> va_range" where
  "va_range_of dev p = (va_address (the (vas dev p)), va_size (the (vas dev p)))"

definition va_mgr_of :: "va_dev \<Rightarrow> ptr \<Rightarrow> va_mgr_id" where
  "va_mgr_of dev p = va_vamgr (the (vas dev p))"

definition va_ranges :: "va_dev \<Rightarrow> va_mgr_id \<Rightarrow> ptr list \<Rightarrow> va_range list" where
  "va_ranges dev k hs = map (va_range_of dev) (filter (\<lambda>p. va_mgr_of dev p = k) hs)"

text \<open>
  The handles \<open>hs\<close> are those on the heap; the ranges of the handles of a usable manager are its live
  ranges; manager \<open>k\<close> hands out addresses of the region \<open>R k\<close> only. All managers have alignment \<open>A\<close>.
\<close>

definition va_dev_ok :: "(va_mgr_id \<Rightarrow> nat set) \<Rightarrow> u32 \<Rightarrow> va_dev \<Rightarrow> ptr list \<Rightarrow> bool" where
  "va_dev_ok R A dev hs \<longleftrightarrow>
     distinct hs \<and> set hs = dom (vas dev)
     \<and> (\<forall>p\<in>set hs. va_usable dev (va_mgr_of dev p))
     \<and> (\<forall>k. va_alignment (get_mgr dev k) = A)
     \<and> (\<forall>k. va_usable dev k \<longrightarrow>
          va.live_ok (get_mgr dev k) (va_ranges dev k hs)
          \<and> mgr_free (get_mgr dev k) \<union> (\<Union>r\<in>set (va_ranges dev k hs). va_span (get_mgr dev k) r) \<subseteq> R k)"

definition range_request_ok :: "va_dev \<Rightarrow> u32 \<Rightarrow> u64 \<Rightarrow> u64 \<Rightarrow> u64 \<Rightarrow> bool" where
  "range_request_ok dev A sz al base \<longleftrightarrow>
     sz \<noteq> 0 \<and> unat sz + 2 * unat A \<le> 2 ^ 64
     \<and> (if base \<noteq> 0 then unat base + align_nat (unat sz) (unat A) < 2 ^ 64
         else \<forall>k. va_usable dev k \<longrightarrow> unat (va_max (get_mgr dev k)) + max (unat al) (unat A) \<le> 2 ^ 64)"

lemma va_dev_ok_mgr:
  assumes "va_dev_ok R A dev hs" and "va_usable dev k"
  shows "va.live_ok (get_mgr dev k) (va_ranges dev k hs)" and "wf_mgr (get_mgr dev k)"
    and "va_alignment (get_mgr dev k) = A" and "pow2 A"
  using assms by (auto simp: va_dev_ok_def va.live_ok_def wf_mgr_def)

text \<open>The rounding in \<open>amdgpu_va_range_alloc\<close> and the one in the manager are the same.\<close>

lemma ALIGN64_idem:
  assumes "pow2 A" and "unat sz + 2 * unat A \<le> 2 ^ 64"
  shows "unat (ALIGN64 sz A) = align_nat (unat sz) (unat A)"
    and "align_nat (unat (ALIGN64 sz A)) (unat A) = align_nat (unat sz) (unat A)"
    and "unat (ALIGN64 sz A) + unat A \<le> 2 ^ 64"
proof -
  have pos: "0 < unat A" by (rule pow2_pos [OF assms(1)])
  show u: "unat (ALIGN64 sz A) = align_nat (unat sz) (unat A)"
    using assms by (intro unat_ALIGN64) simp_all
  then show "align_nat (unat (ALIGN64 sz A)) (unat A) = align_nat (unat sz) (unat A)"
    using pos by (simp add: align_nat_idem)
  show "unat (ALIGN64 sz A) + unat A \<le> 2 ^ 64"
    using u align_nat_less [OF pos, of "unat sz"] assms(2) by simp
qed

lemma inner_request_ok:
  assumes ok: "va_dev_ok R A dev hs" and k: "va_usable dev k"
    and req: "range_request_ok dev A sz al base"
  shows "va_request_ok (get_mgr dev k) (ALIGN64 sz A) (MAX2 al (ucast A)) base"
    and "va_len (get_mgr dev k) (ALIGN64 sz A) = align_nat (unat sz) (unat A)"
    and "va_align (get_mgr dev k) (MAX2 al (ucast A)) = max (unat al) (unat A)"
proof -
  note m = va_dev_ok_mgr [OF ok k]
  have pos: "0 < unat A" by (rule pow2_pos [OF m(4)])
  note i = ALIGN64_idem [OF m(4), of sz]
  have "0 < align_nat (unat sz) (unat A)"
    using req align_nat_ge [OF pos, of "unat sz"] by (auto simp: range_request_ok_def unat_eq_iff)
  then have "ALIGN64 sz A \<noteq> 0" using i req by (auto simp: range_request_ok_def)
  then show "va_request_ok (get_mgr dev k) (ALIGN64 sz A) (MAX2 al (ucast A)) base"
    using req i k m(3) by (auto simp: range_request_ok_def va_request_ok_def va_len_def va_align_def unat_MAX2)
  show "va_len (get_mgr dev k) (ALIGN64 sz A) = align_nat (unat sz) (unat A)"
    using req i m(3) by (simp add: range_request_ok_def va_len_def)
  show "va_align (get_mgr dev k) (MAX2 al (ucast A)) = max (unat al) (unat A)"
    using m(3) by (simp add: va_align_def unat_MAX2)
qed

section \<open>One manager changes\<close>

lemma va_usable_set:
  "va_max m = va_max (get_mgr dev k) \<Longrightarrow> va_usable (set_mgr dev k m) j = va_usable dev j"
  by (cases k) (simp_all add: va_usable_def)

lemma va_views_set [simp]:
  "va_range_of (set_mgr dev k m) = va_range_of dev" "va_mgr_of (set_mgr dev k m) = va_mgr_of dev"
  "va_ranges (set_mgr dev k m) j hs = va_ranges dev j hs"
  by (simp_all add: va_range_of_def va_mgr_of_def va_ranges_def fun_eq_iff)

lemma va_usable_vas [simp]: "va_usable (dev\<lparr>vas := v\<rparr>) k = va_usable dev k"
  by (simp add: va_usable_def)

text \<open>
  Replacing manager \<open>k\<close> by one of the same bounds: the other managers are not touched.
\<close>

lemma va_dev_ok_set:
  assumes ok: "va_dev_ok R A dev hs" and k: "va_usable dev k"
    and same: "va_max m = va_max (get_mgr dev k)" "va_alignment m = A"
    and live: "va.live_ok m (va_ranges dev k hs)"
    and region: "mgr_free m \<union> (\<Union>r\<in>set (va_ranges dev k hs). va_span m r) \<subseteq> R k"
  shows "va_dev_ok R A (set_mgr dev k m) hs"
  using assms by (auto simp: va_dev_ok_def va_usable_set [OF same(1)])

text \<open>What one search does: nothing unless it succeeds, and then it allocates in its manager.\<close>

lemma dev_find_va_cases:
  assumes ok: "va_dev_ok R A dev hs" and k: "va_usable dev k"
    and req: "va_request_ok (get_mgr dev k) sz al base"
  obtains (found) out' m sc' where
      "dev_find_va dev k sz al base from_top out sc = Ret (OK, out', set_mgr dev k m, sc')"
      "amdgpu_vamgr_find_va (get_mgr dev k) sz al base from_top out sc = Ret (OK, out', m, sc')"
    | (failed) ret out' sc' where
      "dev_find_va dev k sz al base from_top out sc = Ret (ret, out', dev, sc')" "ret \<noteq> OK"
proof -
  note m = va_dev_ok_mgr [OF ok k]
  obtain res where r: "amdgpu_vamgr_find_va (get_mgr dev k) sz al base from_top out sc = Ret res"
    using find_va_correct [OF m(2) req] .
  obtain ret out' m' sc' where res: "res = (ret, out', m', sc')" by (metis prod_cases4)
  show thesis
  proof (cases "ret = OK")
    case True
    then show thesis using r res by (intro found [of out' m' sc']) (simp_all add: dev_find_va_def)
  next
    case False
    have "m' = get_mgr dev k" using find_va_not_OK [OF m(2) req False] r res by blast
    then show thesis
      using r res False by (intro failed [of ret out' sc']) (simp_all add: dev_find_va_def)
  qed
qed

section \<open>Allocation keeps the invariant\<close>

lemma va_live_bounds:
  assumes "va.live_ok m rs"
  shows "wf_mgr m" and "\<And>r. r \<in> set rs \<Longrightarrow> va_valid m r \<and> va_span m r \<inter> mgr_free m = {}"
  using assms by (auto simp: va.live_ok_def)

text \<open>A range found in manager \<open>k\<close> joins its live ranges.\<close>

lemma find_joins:
  assumes ok: "va_dev_ok R A dev hs" and k: "va_usable dev k"
    and req: "va_request_ok (get_mgr dev k) sz al base"
    and fnd: "amdgpu_vamgr_find_va (get_mgr dev k) sz al base from_top out sc = Ret (OK, off, m, sc')"
  shows "va.live_ok m ((off, sz) # va_ranges dev k hs)" and "va_max m = va_max (get_mgr dev k)"
    and "va_alignment m = A" and "va_span m = va_span (get_mgr dev k)"
    and "mgr_free m \<union> va_span m (off, sz) = mgr_free (get_mgr dev k)"
proof -
  note d = va_dev_ok_mgr [OF ok k] and f = find_va_OK [OF va_dev_ok_mgr(2) [OF ok k] req fnd]
  have "va_alloc (get_mgr dev k) (off, sz) m" using req fnd by (simp add: va_alloc_def) blast
  with d(1) show "va.live_ok m ((off, sz) # va_ranges dev k hs)" by (rule va.live_alloc)
  show "va_max m = va_max (get_mgr dev k)" by (rule f(4))
  show "va_alignment m = A" using f(5) d(3) by simp
  show s: "va_span m = va_span (get_mgr dev k)" by (rule va_frame(1) [OF f(4,5)])
  show "mgr_free m \<union> va_span m (off, sz) = mgr_free (get_mgr dev k)" using f(2,3) s by auto
qed

lemma region_split:
  assumes "va_dev_ok R A dev hs" and "va_usable dev k"
  shows "mgr_free (get_mgr dev k) \<subseteq> R k"
    and "(\<Union>r\<in>set (va_ranges dev k hs). va_span (get_mgr dev k) r) \<subseteq> R k"
  using assms by (auto simp: va_dev_ok_def)

lemma finish_handle_ok:
  assumes ok: "va_dev_ok R A dev hs" and k: "va_usable dev k" and fresh: "newp \<notin> dom (vas dev)"
    and live: "va.live_ok m ((off, sz) # va_ranges dev k hs)" and same: "va_max m = va_max (get_mgr dev k)"
      "va_alignment m = A" "va_span m = va_span (get_mgr dev k)"
      "mgr_free m \<union> va_span m (off, sz) = mgr_free (get_mgr dev k)"
  shows "va_dev_ok R A ((set_mgr dev k m)\<lparr>vas := (vas dev)(newp \<mapsto>
      \<lparr>va_address = off, va_size = sz, va_range_type = type, va_vamgr = k\<rparr>)\<rparr>) (newp # hs)"
    (is "va_dev_ok R A ?d _")
proof -
  have hs: "newp \<notin> set hs" "distinct hs" "set hs = dom (vas dev)" using ok fresh by (auto simp: va_dev_ok_def)
  have views: "\<And>p. p \<in> set hs \<Longrightarrow> va_range_of ?d p = va_range_of dev p"
    "\<And>p. p \<in> set hs \<Longrightarrow> va_mgr_of ?d p = va_mgr_of dev p"
    "va_range_of ?d newp = (off, sz)" "va_mgr_of ?d newp = k"
    using hs by (auto simp: va_range_of_def va_mgr_of_def)
  have old: "va_ranges ?d j hs = va_ranges dev j hs" for j
    using views unfolding va_ranges_def by (intro map_cong filter_cong) auto
  have new: "va_ranges ?d j (newp # hs) = (if j = k then (off, sz) # va_ranges dev j hs else va_ranges dev j hs)" for j
    using views(3,4) old [of j, unfolded va_ranges_def] by (cases "j = k") (simp_all add: va_ranges_def)
  have us: "va_usable ?d j = va_usable dev j" for j
    using va_usable_set [OF same(1)] by simp
  have reg: "mgr_free (get_mgr ?d j) \<union> (\<Union>r\<in>set (va_ranges ?d j (newp # hs)). va_span (get_mgr ?d j) r) \<subseteq> R j"
    if "va_usable dev j" for j
    using region_split [OF ok that] same(3,4) unfolding new by auto
  have "va.live_ok (get_mgr ?d j) (va_ranges ?d j (newp # hs))" if "va_usable dev j" for j
    using va_dev_ok_mgr(1) [OF ok that] live unfolding new by simp
  moreover have "\<forall>p\<in>set (newp # hs). va_usable ?d (va_mgr_of ?d p)"
    unfolding us using ok k views by (auto simp: va_dev_ok_def)
  moreover have "\<forall>j. va_alignment (get_mgr ?d j) = A" using ok same(2) by (simp add: va_dev_ok_def)
  ultimately show ?thesis
    unfolding va_dev_ok_def us using reg hs by auto
qed

lemma finish_undo_ok:
  assumes ok: "va_dev_ok R A dev hs" and k: "va_usable dev k"
    and live: "va.live_ok m ((off, sz) # va_ranges dev k hs)" and same: "va_max m = va_max (get_mgr dev k)"
      "va_alignment m = A" "va_span m = va_span (get_mgr dev k)"
      "mgr_free m \<union> va_span m (off, sz) = mgr_free (get_mgr dev k)"
    and free: "amdgpu_vamgr_free_va m off sz sc = (m', sc')"
  shows "va_dev_ok R A (set_mgr dev k m') hs" and "no_alloc_failure sc \<Longrightarrow> set_mgr dev k m' = dev"
proof -
  have r: "va_valid m (off, sz)" "va_span m (off, sz) \<inter> mgr_free m = {}" "wf_mgr m"
    using va_live_bounds [OF live] by auto
  have free': "amdgpu_vamgr_free_va m (fst (off, sz)) (snd (off, sz)) sc = (m', sc')" using free by simp
  note f = free_va_laws [OF r(3,1,2) free']
  have "va_release m (off, sz) m'" using free by (auto simp: va_release_def)
  then have live': "va.live_ok m' (va_ranges dev k hs)"
    using va.live_release [of m "[]" "(off, sz)" "va_ranges dev k hs" m'] live by simp
  have sub: "mgr_free m' \<subseteq> mgr_free (get_mgr dev k)" using f(4) same(4) by auto
  have span: "va_span m' = va_span (get_mgr dev k)" using va_frame(1) [OF f(2,3)] same(3) by simp
  have reg: "mgr_free m' \<union> (\<Union>r\<in>set (va_ranges dev k hs). va_span m' r) \<subseteq> R k"
    using region_split [OF ok k] sub unfolding span by blast
  show "va_dev_ok R A (set_mgr dev k m') hs"
    using va_dev_ok_set [OF ok k _ _ live' reg] f(2,3) same(1,2) by simp
  assume "no_alloc_failure sc"
  then have "mgr_free m' = mgr_free (get_mgr dev k)" using f(5) same(4) by simp
  then have "m' = get_mgr dev k"
    using wf_mgr_canonical [OF f(1) va_dev_ok_mgr(2) [OF ok k]] f(2,3) same(1,2) va_dev_ok_mgr(3) [OF ok k] by simp
  then show "set_mgr dev k m' = dev" by simp
qed

text \<open>The two ends of an allocation that found a range.\<close>

lemma finish_ok:
  assumes ok: "va_dev_ok R A dev hs" and k: "va_usable dev k" and fresh: "newp \<notin> dom (vas dev)"
    and req: "va_request_ok (get_mgr dev k) sz al base"
    and fnd: "amdgpu_vamgr_find_va (get_mgr dev k) sz al base from_top out sc0 = Ret (OK, off, m, sc)"
    and fin: "va_range_finish newp (set_mgr dev k m) k type sz OK off sc = (ret, out', h, dev', sc')"
  shows "va_dev_ok R A dev' (case h of None \<Rightarrow> hs | Some p \<Rightarrow> p # hs)"
    and "h = Some newp \<Longrightarrow> ret = OK \<and> out' = off \<and> va_range_of dev' newp = (off, sz) \<and> va_mgr_of dev' newp = k"
    and "h \<noteq> Some newp \<Longrightarrow> ret = Err ENOMEM \<and> h = None
      \<and> (\<exists>sc1. calloc_next sc = (False, sc1) \<and> (no_alloc_failure sc1 \<longrightarrow> dev' = dev))"
proof -
  note j = find_joins [OF ok k req fnd]
  obtain b sc1 where c: "calloc_next sc = (b, sc1)" by fastforce
  have "va_dev_ok R A dev' (case h of None \<Rightarrow> hs | Some p \<Rightarrow> p # hs)
    \<and> (h = Some newp \<longrightarrow> ret = OK \<and> out' = off \<and> va_range_of dev' newp = (off, sz) \<and> va_mgr_of dev' newp = k)
    \<and> (h \<noteq> Some newp \<longrightarrow> ret = Err ENOMEM \<and> h = None \<and> (\<exists>sc1. calloc_next sc = (False, sc1)
         \<and> (no_alloc_failure sc1 \<longrightarrow> dev' = dev)))"
  proof (cases b)
    case True
    then show ?thesis
      using fin c finish_handle_ok [OF ok k fresh j(1,2,3,4,5), of type]
      by (auto simp: va_range_finish_def va_range_of_def va_mgr_of_def)
  next
    case False
    obtain m' sc2 where fr: "amdgpu_vamgr_free_va m off sz sc1 = (m', sc2)" by fastforce
    have idem: "set_mgr (set_mgr dev k m) k m' = set_mgr dev k m'" by (cases k) simp_all
    from finish_undo_ok [OF ok k j(1,2,3,4,5) fr] show ?thesis
      using fin c False fr by (auto simp: va_range_finish_def idem)
  qed
  then show "va_dev_ok R A dev' (case h of None \<Rightarrow> hs | Some p \<Rightarrow> p # hs)"
    and "h = Some newp \<Longrightarrow> ret = OK \<and> out' = off \<and> va_range_of dev' newp = (off, sz) \<and> va_mgr_of dev' newp = k"
    and "h \<noteq> Some newp \<Longrightarrow> ret = Err ENOMEM \<and> h = None
      \<and> (\<exists>sc1. calloc_next sc = (False, sc1) \<and> (no_alloc_failure sc1 \<longrightarrow> dev' = dev))" by blast+
qed

lemma dev_find_va_script:
  "dev_find_va dev k sz al base from_top out sc = Ret (ret, out', dev', sc') \<Longrightarrow>
     no_alloc_failure sc \<Longrightarrow> no_alloc_failure sc'"
  by (auto simp: dev_find_va_def bind_outcome_Ret_iff intro: find_va_script)

lemma va_flags_usable:
  "va_usable dev (va_select (va_flags dev flags))" "va_usable dev (va_select_32 (va_flags dev flags))"
proof -
  have "(flags AND NOT AMDGPU_VA_RANGE_HIGH) AND AMDGPU_VA_RANGE_HIGH = 0"
    by (simp add: bit_eq_iff bit_simps)
  then show "va_usable dev (va_select (va_flags dev flags))" "va_usable dev (va_select_32 (va_flags dev flags))"
    by (auto simp: va_usable_def va_select_def va_select_32_def va_flags_def)
qed

text \<open>What a successful allocation hands out.\<close>

lemma va_select_high:
  "k = va_select f \<or> k = va_select_32 f \<Longrightarrow> k \<in> {VAMGR_HIGH, VAMGR_HIGH_32} \<longleftrightarrow> f AND AMDGPU_VA_RANGE_HIGH \<noteq> 0"
  by (cases "f AND AMDGPU_VA_RANGE_HIGH = 0"; cases "f AND AMDGPU_VA_RANGE_32_BIT = 0")
     (auto simp: va_select_def va_select_32_def)

lemma va_select_low:
  "k = va_select f \<or> k = va_select_32 f \<Longrightarrow> f AND AMDGPU_VA_RANGE_32_BIT \<noteq> 0 \<Longrightarrow>
     k \<in> {VAMGR_32, VAMGR_HIGH_32}"
  by (cases "f AND AMDGPU_VA_RANGE_HIGH = 0") (auto simp: va_select_def va_select_32_def)

definition va_granted ::
    "va_dev \<Rightarrow> u32 \<Rightarrow> u64 \<Rightarrow> u64 \<Rightarrow> u64 \<Rightarrow> u64 \<Rightarrow> va_dev \<Rightarrow> ptr \<Rightarrow> u64 \<Rightarrow> bool" where
  "va_granted dev A sz al base flags dev' p out \<longleftrightarrow>
     va_range_of dev' p = (out, ALIGN64 sz A) \<and> max (unat al) (unat A) dvd unat out
     \<and> (base \<noteq> 0 \<longrightarrow> out = base)
     \<and> (va_mgr_of dev' p \<in> {VAMGR_HIGH, VAMGR_HIGH_32} \<longleftrightarrow> va_flags dev flags AND AMDGPU_VA_RANGE_HIGH \<noteq> 0)
     \<and> (va_flags dev flags AND AMDGPU_VA_RANGE_32_BIT \<noteq> 0 \<longrightarrow>
          va_mgr_of dev' p \<in> {VAMGR_32, VAMGR_HIGH_32})"

text \<open>What an allocation may end with.\<close>

definition range_alloc_post ::
    "(va_mgr_id \<Rightarrow> nat set) \<Rightarrow> u32 \<Rightarrow> va_dev \<Rightarrow> ptr list \<Rightarrow> ptr \<Rightarrow> u64 \<Rightarrow> u64 \<Rightarrow> u64 \<Rightarrow> u64 \<Rightarrow> alloc_script
     \<Rightarrow> rc \<times> u64 \<times> ptr option \<times> va_dev \<times> alloc_script \<Rightarrow> bool" where
  "range_alloc_post R A dev hs newp sz al base flags sc res \<longleftrightarrow>
     (case res of (ret, out', h, dev', sc') \<Rightarrow>
        va_dev_ok R A dev' (case h of None \<Rightarrow> hs | Some p \<Rightarrow> p # hs)
        \<and> (ret = OK \<longleftrightarrow> h = Some newp) \<and> (h = None \<or> h = Some newp)
        \<and> (ret = OK \<longrightarrow> va_granted dev A sz al base flags dev' newp out')
        \<and> (ret \<noteq> OK \<longrightarrow> no_alloc_failure sc \<longrightarrow> dev' = dev))"

lemma range_granted:
  assumes ok: "va_dev_ok R A dev hs" and fresh: "newp \<notin> dom (vas dev)"
    and req: "range_request_ok dev A sz al base"
    and k: "va_usable dev k" "k = va_select (va_flags dev flags) \<or> k = va_select_32 (va_flags dev flags)"
    and fnd: "amdgpu_vamgr_find_va (get_mgr dev k) (ALIGN64 sz A) (MAX2 al (ucast A)) base from_top o1 s1
      = Ret (OK, off, m, s2)"
    and script: "no_alloc_failure sc \<Longrightarrow> no_alloc_failure s2"
  shows "range_alloc_post R A dev hs newp sz al base flags sc
    (va_range_finish newp (set_mgr dev k m) k type (ALIGN64 sz A) OK off s2)"
proof -
  note iq = inner_request_ok [OF ok k(1) req]
  obtain ret out' h dev' sc' where fin:
    "va_range_finish newp (set_mgr dev k m) k type (ALIGN64 sz A) OK off s2 = (ret, out', h, dev', sc')"
    by (metis prod_cases5)
  note e = finish_ok [OF ok k(1) fresh iq(1) fnd fin]
  note f = find_va_OK [OF va_dev_ok_mgr(2) [OF ok k(1)] iq(1) fnd]
  have "va_granted dev A sz al base flags dev' newp out'" if "ret = OK"
  proof -
    have "va_mgr_of dev' newp = k" using that e(2,3) by auto
    then show ?thesis
      using that e(2,3) f(6,7) iq(3) k(2) va_select_high [of k "va_flags dev flags"]
        va_select_low [of k "va_flags dev flags"]
      unfolding va_granted_def by (intro conjI) auto
  qed
  moreover have "dev' = dev" if "ret \<noteq> OK" "no_alloc_failure sc"
    using that e(2,3) script calloc_next_script [of s2] by blast
  ultimately show ?thesis using e unfolding fin range_alloc_post_def by auto
qed

lemma range_failed:
  assumes "va_dev_ok R A dev hs" and "r \<noteq> OK"
  shows "range_alloc_post R A dev hs newp sz al base flags sc (va_range_finish newp dev k type sz' r o1 s1)"
  using assms by (simp add: va_range_finish_def range_alloc_post_def)

lemma va_range_alloc_returns:
  assumes ok: "va_dev_ok R A dev hs" and fresh: "newp \<notin> dom (vas dev)"
    and req: "range_request_ok dev A sz al base"
  shows "\<exists>res. amdgpu_va_range_alloc newp dev type sz al base out flags sc = Ret res
    \<and> range_alloc_post R A dev hs newp sz al base flags sc res"
proof -
  let ?top = "flags AND AMDGPU_VA_RANGE_REPLAYABLE \<noteq> 0" and ?f = "va_flags dev flags"
  let ?k = "va_select ?f" and ?k32 = "va_select_32 ?f"
  let ?sz = "ALIGN64 sz A" and ?al = "MAX2 al (ucast A)"
  have u: "va_usable dev ?k" "va_usable dev ?k32" by (rule va_flags_usable)+
  note q = inner_request_ok [OF ok u(1) req] and q32 = inner_request_ok [OF ok u(2) req]
  have A: "va_alignment (get_mgr dev k) = A" for k using ok by (simp add: va_dev_ok_def)
  note unfolded = amdgpu_va_range_alloc_def Let_def A
  note granted = range_granted [OF ok fresh req] and failed = range_failed [OF ok]
  show ?thesis
  proof (rule dev_find_va_cases [OF ok u(1) q(1), of ?top out sc])
    fix out1 m s1
    assume a: "dev_find_va dev ?k ?sz ?al base ?top out sc = Ret (OK, out1, set_mgr dev ?k m, s1)"
      "amdgpu_vamgr_find_va (get_mgr dev ?k) ?sz ?al base ?top out sc = Ret (OK, out1, m, s1)"
    show ?thesis
      using granted [OF u(1) _ a(2), of flags sc type] dev_find_va_script [OF a(1)] by (simp add: unfolded a(1))
  next
    fix ret1 out1 s1
    assume a: "dev_find_va dev ?k ?sz ?al base ?top out sc = Ret (ret1, out1, dev, s1)" "ret1 \<noteq> OK"
    show ?thesis
    proof (cases "?f AND AMDGPU_VA_RANGE_32_BIT = 0")
      case False
      then show ?thesis using failed [OF a(2)] by (simp add: unfolded a)
    next
      case True
      show ?thesis
      proof (rule dev_find_va_cases [OF ok u(2) q32(1), of ?top out1 s1])
        fix out2 m s2
        assume b: "dev_find_va dev ?k32 ?sz ?al base ?top out1 s1 = Ret (OK, out2, set_mgr dev ?k32 m, s2)"
          "amdgpu_vamgr_find_va (get_mgr dev ?k32) ?sz ?al base ?top out1 s1 = Ret (OK, out2, m, s2)"
        show ?thesis
          using True granted [OF u(2) _ b(2), of flags sc type] dev_find_va_script [OF a(1)]
            dev_find_va_script [OF b(1)] by (simp add: unfolded a b(1))
      next
        fix r2 out2 s2
        assume b: "dev_find_va dev ?k32 ?sz ?al base ?top out1 s1 = Ret (r2, out2, dev, s2)" "r2 \<noteq> OK"
        show ?thesis using True failed [OF b(2)] by (simp add: unfolded a b)
      qed
    qed
  qed
qed

lemma va_range_alloc_ok:
  assumes "va_dev_ok R A dev hs" and "newp \<notin> dom (vas dev)" and "range_request_ok dev A sz al base"
  obtains ret out' h dev' sc' where
    "amdgpu_va_range_alloc newp dev type sz al base out flags sc = Ret (ret, out', h, dev', sc')"
    "va_dev_ok R A dev' (case h of None \<Rightarrow> hs | Some p \<Rightarrow> p # hs)"
    "ret = OK \<longleftrightarrow> h = Some newp" "h = None \<or> h = Some newp"
    "ret = OK \<Longrightarrow> va_granted dev A sz al base flags dev' newp out'"
    "ret \<noteq> OK \<Longrightarrow> no_alloc_failure sc \<Longrightarrow> dev' = dev"
proof -
  obtain res where "amdgpu_va_range_alloc newp dev type sz al base out flags sc = Ret res"
    "range_alloc_post R A dev hs newp sz al base flags sc res"
    using va_range_alloc_returns [OF assms] by blast
  then show thesis by (cases res) (auto simp: range_alloc_post_def intro: that)
qed

section \<open>Free keeps the invariant\<close>

lemma va_range_free_ok:
  assumes ok: "va_dev_ok R A dev (pre @ p # post)" and zero: "\<forall>k. 0 \<notin> R k"
  obtains dev' sc' where "amdgpu_va_range_free dev (Some p) sc = Ret (OK, dev', sc')"
    "va_dev_ok R A dev' (pre @ post)"
proof -
  let ?hs = "pre @ p # post"
  have hs: "distinct ?hs" "set ?hs = dom (vas dev)" "p \<notin> set (pre @ post)" using ok by (auto simp: va_dev_ok_def)
  then obtain v where v: "vas dev p = Some v" by (metis domD in_set_conv_decomp)
  let ?k = "va_vamgr v" and ?r = "(va_address v, va_size v)"
  have k: "va_usable dev ?k" using ok v by (auto simp: va_dev_ok_def va_mgr_of_def)
  note d = va_dev_ok_mgr [OF ok k]
  have split: "va_ranges dev j ?hs = va_ranges dev j pre @ (if j = ?k then [?r] else []) @ va_ranges dev j post" for j
    using v by (auto simp: va_ranges_def va_mgr_of_def va_range_of_def)
  have live: "va.live_ok (get_mgr dev ?k) (va_ranges dev ?k pre @ ?r # va_ranges dev ?k post)"
    using d(1) split [of ?k] by simp
  from va_live_bounds [OF live] have r: "va_valid (get_mgr dev ?k) ?r" "va_span (get_mgr dev ?k) ?r \<inter> mgr_free (get_mgr dev ?k) = {}"
    by auto
  have "0 < va_len (get_mgr dev ?k) (va_size v)"
    using r(1) d(3,4) align_nat_ge [OF pow2_pos [OF d(4)], of "unat (va_size v)"]
    by (auto simp: va_valid_def va_len_def unat_eq_iff)
  then have "unat (va_address v) \<in> va_span (get_mgr dev ?k) ?r" by (simp add: va_span_def)
  moreover have "va_span (get_mgr dev ?k) ?r \<subseteq> R ?k"
    using region_split(2) [OF ok k] split [of ?k] by auto
  ultimately have nz: "va_address v \<noteq> 0" using zero by (metis subsetD unat_0)
  obtain m' sc' where fr: "amdgpu_vamgr_free_va (get_mgr dev ?k) (va_address v) (va_size v) sc = (m', sc')" by fastforce
  then have fr': "amdgpu_vamgr_free_va (get_mgr dev ?k) (fst ?r) (snd ?r) sc = (m', sc')" by simp
  note f = free_va_laws [OF d(2) r fr'] and fs = va_frame(1) [OF free_va_laws(2,3) [OF d(2) r fr']]
  have "va_release (get_mgr dev ?k) ?r m'" using fr by (auto simp: va_release_def)
  with live have live': "va.live_ok m' (va_ranges dev ?k pre @ va_ranges dev ?k post)" by (rule va.live_release)
  let ?d = "(set_mgr dev ?k m')\<lparr>vas := (vas dev)(p := None)\<rparr>"
  have views: "\<And>q. q \<in> set (pre @ post) \<Longrightarrow> va_range_of ?d q = va_range_of dev q"
    "\<And>q. q \<in> set (pre @ post) \<Longrightarrow> va_mgr_of ?d q = va_mgr_of dev q"
    using hs(3) by (auto simp: va_range_of_def va_mgr_of_def)
  have rest: "va_ranges ?d j (pre @ post) = va_ranges dev j pre @ va_ranges dev j post" for j
    using views unfolding va_ranges_def filter_append map_append [symmetric]
    by (intro arg_cong2 [where f = append] map_cong filter_cong) auto
  have us: "va_usable ?d j = va_usable dev j" for j using va_usable_set [OF f(2)] by simp
  have reg: "mgr_free (get_mgr ?d j) \<union> (\<Union>r\<in>set (va_ranges ?d j (pre @ post)). va_span (get_mgr ?d j) r) \<subseteq> R j"
    if "va_usable dev j" for j
    using region_split [OF ok that] f(4) fs split [of j] unfolding rest by auto
  have "va.live_ok (get_mgr ?d j) (va_ranges ?d j (pre @ post))" if "va_usable dev j" for j
    using va_dev_ok_mgr(1) [OF ok that] live' split [of j] unfolding rest by (cases "j = ?k") simp_all
  moreover have "\<forall>q\<in>set (pre @ post). va_usable ?d (va_mgr_of ?d q)"
    unfolding us using ok views by (auto simp: va_dev_ok_def)
  moreover have "\<forall>j. va_alignment (get_mgr ?d j) = A" using ok f(3) by (simp add: va_dev_ok_def)
  ultimately have "va_dev_ok R A ?d (pre @ post)"
    unfolding va_dev_ok_def us using reg hs by auto
  then show thesis
    using v nz fr by (intro that [of ?d sc']) (simp_all add: amdgpu_va_range_free_def)
qed

section \<open>Set-up and runs\<close>

text \<open>
  The device information the set-up expects: the low addresses start below and end above 4 GiB, and
  the high ones, when there are any, lie above them, start in a 4 GiB window of their own and reach
  at least to the end of the next one.
\<close>

definition high_window_end :: "u64 \<Rightarrow> u64" where
  "high_window_end start = (start AND NOT 0xffffffff) + 0x100000000"

definition va_layout_ok :: "u64 \<Rightarrow> u64 \<Rightarrow> u64 \<Rightarrow> u64 \<Rightarrow> bool" where
  "va_layout_ok va_offset va_limit high_va_offset high_va_max \<longleftrightarrow>
     0 < va_offset \<and> va_offset < 0x100000000 \<and> 0x100000000 < va_limit
     \<and> (high_va_max = 0
        \<or> va_limit \<le> high_va_offset \<and> high_va_offset < high_window_end high_va_offset
          \<and> unat (high_window_end high_va_offset) + 2 ^ 32 \<le> unat high_va_max)"

fun va_region :: "u64 \<Rightarrow> u64 \<Rightarrow> u64 \<Rightarrow> u64 \<Rightarrow> va_mgr_id \<Rightarrow> nat set" where
  "va_region va_offset va_limit high_va_offset high_va_max VAMGR_32 = {unat va_offset..<2 ^ 32}"
| "va_region va_offset va_limit high_va_offset high_va_max VAMGR = {2 ^ 32..<unat va_limit}"
| "va_region va_offset va_limit high_va_offset high_va_max VAMGR_HIGH_32 =
     (if high_va_max = 0 then {} else {unat high_va_offset..<unat (high_window_end high_va_offset)})"
| "va_region va_offset va_limit high_va_offset high_va_max VAMGR_HIGH =
     (if high_va_max = 0 then {} else {unat (high_window_end high_va_offset)..<unat high_va_max})"

lemma high_window_end_aligned:
  "high_window_end start AND NOT 0xffffffff = high_window_end start"
proof -
  have m: "(0xffffffff :: u64) = mask 32" by (simp add: mask_eq_exp_minus_1)
  have "unat (high_window_end start) mod 2 ^ 32 = 0"
    unfolding high_window_end_def m by (simp add: unat_word_ariths and_not_mask_unat mod_mod_cancel)
  then have "unat (high_window_end start AND NOT (mask 32)) = unat (high_window_end start)"
    unfolding and_not_mask_unat by (simp add: minus_mod_eq_div_mult [symmetric])
  then show ?thesis unfolding m by (simp add: unat_eq_iff)
qed

lemma va_layout_regions:
  assumes "va_layout_ok off lim hoff hmax"
  shows "\<forall>j k. j \<noteq> k \<longrightarrow> va_region off lim hoff hmax j \<inter> va_region off lim hoff hmax k = {}"
    and "\<forall>k. 0 \<notin> va_region off lim hoff hmax k"
proof -
  have "0 < unat off" "unat off < 2 ^ 32" "2 ^ 32 < unat lim"
    "hmax \<noteq> 0 \<Longrightarrow> unat lim \<le> unat hoff \<and> unat hoff < unat (high_window_end hoff)"
    using assms by (auto simp: va_layout_ok_def word_less_nat_alt word_le_nat_alt)
  note b = this
  have "va_region off lim hoff hmax j \<inter> va_region off lim hoff hmax k = {}" if "j \<noteq> k" for j k
    using that b by (cases j; cases k) auto
  moreover have "0 \<notin> va_region off lim hoff hmax k" for k
    using b by (cases k) auto
  ultimately show "\<forall>j k. j \<noteq> k \<longrightarrow> va_region off lim hoff hmax j \<inter> va_region off lim hoff hmax k = {}"
    and "\<forall>k. 0 \<notin> va_region off lim hoff hmax k" by blast+
qed

lemma ucast_ucast_u32 [simp]: "ucast (ucast (A :: u32) :: u64) = A"
  by (rule bit_word_eqI) (simp add: bit_simps)

lemma vamgr_init_no_failure:
  assumes "start < m" and "pow2 A"
  obtains mgr where "amdgpu_vamgr_init start m (ucast (A :: u32)) [] = Ret (mgr, [])"
    "wf_mgr mgr" "mgr_free mgr = {unat start..<unat m}" "va_max mgr = m" "va_alignment mgr = A"
proof -
  have "pow2 (ucast (ucast A :: u64) :: u32)" using assms(2) by simp
  from vamgr_init_correct [OF no_alloc_failure_Nil assms(1) this]
  obtain mgr sc' where "amdgpu_vamgr_init start m (ucast A) [] = Ret (mgr, sc')"
    "wf_mgr mgr" "mgr_free mgr = {unat start..<unat m}" "va_max mgr = m" "va_alignment mgr = A" by auto
  moreover from this(1) have "sc' = []" by (simp add: amdgpu_vamgr_init_def)
  ultimately show thesis using that by blast
qed

lemma device_vamgr_init_ok:
  assumes lay: "va_layout_ok off lim hoff hmax" and A: "pow2 A"
  obtains dev where "device_vamgr_init off lim hoff hmax A [] = Ret (dev, [])"
    and "va_dev_ok (va_region off lim hoff hmax) A dev []"
proof -
  have lo: "MIN2 lim 0x100000000 = 0x100000000" "MAX2 lim 0x100000000 = lim" "off < 0x100000000" "0x100000000 < lim"
    using lay by (auto simp: va_layout_ok_def MIN2_def MAX2_def)
  obtain m32 where m32: "amdgpu_vamgr_init off 0x100000000 (ucast A) [] = Ret (m32, [])" "wf_mgr m32"
    "mgr_free m32 = {unat off..<unat (0x100000000 :: u64)}" "va_max m32 = 0x100000000" "va_alignment m32 = A"
    by (rule vamgr_init_no_failure [OF lo(3) A])
  obtain m where m: "amdgpu_vamgr_init 0x100000000 lim (ucast A) [] = Ret (m, [])" "wf_mgr m"
    "mgr_free m = {unat (0x100000000 :: u64)..<unat lim}" "va_max m = lim" "va_alignment m = A"
    by (rule vamgr_init_no_failure [OF lo(4) A])
  let ?w = "high_window_end hoff"
  let ?max3 = "MIN2 hmax ?w" let ?max4 = "MAX2 hmax ((?max3 AND NOT 0xffffffff) + 0x100000000)"
  obtain h32 h where h: "amdgpu_vamgr_init hoff ?max3 (ucast A) [] = Ret (h32, [])"
    "amdgpu_vamgr_init ?max3 ?max4 (ucast A) [] = Ret (h, [])"
    "va_alignment h32 = A" "va_alignment h = A" "va_max h32 = ?max3"
    by (simp add: amdgpu_vamgr_init_def)
  have hi: "va_max h32 \<noteq> 0 \<Longrightarrow> wf_mgr h32 \<and> wf_mgr h
      \<and> mgr_free h32 \<subseteq> va_region off lim hoff hmax VAMGR_HIGH_32
      \<and> mgr_free h \<subseteq> va_region off lim hoff hmax VAMGR_HIGH"
  proof -
    assume "va_max h32 \<noteq> 0"
    then have nz: "hmax \<noteq> 0" using h(5) by (auto simp: MIN2_def word_neq_0_conv split: if_splits)
    then have w: "hoff < ?w" "unat ?w + 2 ^ 32 \<le> unat hmax" using lay by (auto simp: va_layout_ok_def)
    then have max3: "?max3 = ?w" by (simp add: MIN2_def word_less_nat_alt)
    have "unat (?w + 0x100000000) = unat ?w + 2 ^ 32"
      using w(2) unsigned_less [of hmax, where ?'a = nat] by (subst unat_add_less) simp_all
    then have max4: "?max4 = hmax"
      using w(2) unfolding max3 high_window_end_aligned by (simp add: MAX2_def word_less_nat_alt unat_eq_iff)
    have "?w < hmax" using w(2) by (simp add: word_less_nat_alt)
    obtain g32 where g32: "amdgpu_vamgr_init hoff ?w (ucast A) [] = Ret (g32, [])" "wf_mgr g32"
      "mgr_free g32 = {unat hoff..<unat ?w}" by (rule vamgr_init_no_failure [OF w(1) A])
    obtain g where g: "amdgpu_vamgr_init ?w hmax (ucast A) [] = Ret (g, [])" "wf_mgr g"
      "mgr_free g = {unat ?w..<unat hmax}" by (rule vamgr_init_no_failure [OF \<open>?w < hmax\<close> A])
    have "h32 = g32" "h = g" using h(1,2) g(1) g32(1) unfolding max4 unfolding max3 by simp_all
    then show ?thesis using g(2,3) g32(2,3) nz by simp
  qed
  let ?d = "\<lparr>virtual_address_offset = off, virtual_address_max = lim, vamgr = m, vamgr_32 = m32,
             vamgr_high = h, vamgr_high_32 = h32, vas = Map.empty\<rparr>"
  have run: "device_vamgr_init off lim hoff hmax A [] = Ret (?d, [])"
    using m32(1) m(1) h(1,2) by (simp add: device_vamgr_init_def lo high_window_end_def Let_def)
  have "va.live_ok (get_mgr ?d k) [] \<and> mgr_free (get_mgr ?d k) \<subseteq> va_region off lim hoff hmax k"
    if "va_usable ?d k" for k
    using that m m32 hi by (cases k) (auto simp: va_usable_def va.live_ok_Nil)
  moreover have "va_alignment (get_mgr ?d k) = A" for k
    using m m32 h by (cases k) auto
  ultimately have "va_dev_ok (va_region off lim hoff hmax) A ?d []"
    by (auto simp: va_dev_ok_def va_ranges_def)
  with run show thesis by (rule that)
qed

text \<open>A system of the device, the handles given out and the allocation script.\<close>

type_synonym va_dev_sys = "va_dev \<times> ptr list \<times> alloc_script"

inductive va_dev_step :: "u32 \<Rightarrow> va_dev_sys \<Rightarrow> va_dev_sys \<Rightarrow> bool" for A where
  alloc: "\<lbrakk>newp \<notin> dom (vas dev); range_request_ok dev A sz al base;
           amdgpu_va_range_alloc newp dev type sz al base out flags sc = Ret (ret, out', h, dev', sc')\<rbrakk> \<Longrightarrow>
     va_dev_step A (dev, hs, sc) (dev', (case h of None \<Rightarrow> hs | Some p \<Rightarrow> p # hs), sc')"
| free: "amdgpu_va_range_free dev (Some p) sc = Ret (ret, dev', sc') \<Longrightarrow>
     va_dev_step A (dev, pre @ p # post, sc) (dev', pre @ post, sc')"

lemma va_dev_step_ok:
  "va_dev_step A s s' \<Longrightarrow> va_dev_ok R A (fst s) (fst (snd s)) \<Longrightarrow> \<forall>k. 0 \<notin> R k \<Longrightarrow>
     va_dev_ok R A (fst s') (fst (snd s'))"
proof (induction rule: va_dev_step.induct)
  case (alloc newp dev sz al base type out flags sc ret out' h dev' sc' hs)
  have "va_dev_ok R A dev hs" using alloc(4) by simp
  from va_range_alloc_ok [OF this alloc(1,2), of type out flags sc] show ?case
    using alloc(3) by (metis fst_conv outcome.inject prod.inject snd_conv)
next
  case (free dev p sc ret dev' sc' pre post)
  have "va_dev_ok R A dev (pre @ p # post)" using free(2) by simp
  from va_range_free_ok [OF this free(3), of sc] show ?case
    using free(1) by (metis fst_conv outcome.inject prod.inject snd_conv)
qed

lemma va_dev_run_ok:
  "(va_dev_step A)\<^sup>*\<^sup>* s s' \<Longrightarrow> va_dev_ok R A (fst s) (fst (snd s)) \<Longrightarrow> \<forall>k. 0 \<notin> R k \<Longrightarrow>
     va_dev_ok R A (fst s') (fst (snd s'))"
  by (induction rule: rtranclp_induct) (use va_dev_step_ok in blast)+

section \<open>Properties\<close>

lemma sorted_wrt_pair:
  "sorted_wrt P xs \<Longrightarrow> (\<And>x y. P x y \<Longrightarrow> P y x) \<Longrightarrow> x \<in> set xs \<Longrightarrow> y \<in> set xs \<Longrightarrow> x \<noteq> y \<Longrightarrow> P x y"
  by (induction xs) auto

lemma va_dev_ok_disjoint:
  assumes ok: "va_dev_ok R A dev hs" and p: "vas dev p = Some a" and q: "vas dev q = Some b" and ne: "p \<noteq> q"
    and R: "\<forall>j k. j \<noteq> k \<longrightarrow> R j \<inter> R k = {}"
  shows "{unat (va_address a)..<unat (va_address a) + unat (va_size a)}
       \<inter> {unat (va_address b)..<unat (va_address b) + unat (va_size b)} = {}"
    and "{unat (va_address a)..<unat (va_address a) + unat (va_size a)} \<subseteq> R (va_vamgr a)"
    and "va_usable dev (va_vamgr a)"
proof -
  have mem: "x \<in> set hs" "va_usable dev (va_vamgr v)" "(va_address v, va_size v) \<in> set (va_ranges dev (va_vamgr v) hs)"
    "{unat (va_address v)..<unat (va_address v) + unat (va_size v)}
       \<subseteq> va_span (get_mgr dev (va_vamgr v)) (va_address v, va_size v)"
    "va_span (get_mgr dev (va_vamgr v)) (va_address v, va_size v) \<subseteq> R (va_vamgr v)"
    if x: "vas dev x = Some v" for x v
  proof -
    show h: "x \<in> set hs" using ok x by (auto simp: va_dev_ok_def)
    show u: "va_usable dev (va_vamgr v)" using ok h x by (simp add: va_dev_ok_def va_mgr_of_def) (metis domI option.sel)
    show r: "(va_address v, va_size v) \<in> set (va_ranges dev (va_vamgr v) hs)"
      using h x by (auto simp: va_ranges_def va_mgr_of_def va_range_of_def image_iff intro!: bexI [of _ x])
    have "0 < unat (va_alignment (get_mgr dev (va_vamgr v)))"
      using va_dev_ok_mgr(3,4) [OF ok u] pow2_pos by simp
    then show "{unat (va_address v)..<unat (va_address v) + unat (va_size v)}
       \<subseteq> va_span (get_mgr dev (va_vamgr v)) (va_address v, va_size v)"
      using align_nat_ge by (auto simp: va_span_def va_len_def intro: less_le_trans)
    show "va_span (get_mgr dev (va_vamgr v)) (va_address v, va_size v) \<subseteq> R (va_vamgr v)"
      using region_split(2) [OF ok u] r by blast
  qed
  note a = mem [OF p] and b = mem [OF q]
  show "{unat (va_address a)..<unat (va_address a) + unat (va_size a)} \<subseteq> R (va_vamgr a)"
    using a(4,5) by blast
  show "va_usable dev (va_vamgr a)" by (rule a(2))
  have "va_span (get_mgr dev (va_vamgr a)) (va_address a, va_size a)
      \<inter> va_span (get_mgr dev (va_vamgr b)) (va_address b, va_size b) = {}"
  proof (cases "va_vamgr a = va_vamgr b")
    case False
    then show ?thesis using a(5) b(5) R by blast
  next
    case True
    let ?m = "get_mgr dev (va_vamgr a)" and ?hs = "filter (\<lambda>p. va_mgr_of dev p = va_vamgr a) hs"
    have "sorted_wrt (\<lambda>x y. va_span ?m (va_range_of dev x) \<inter> va_span ?m (va_range_of dev y) = {}) ?hs"
      using va_dev_ok_mgr(1) [OF ok a(2)] by (simp add: va.live_ok_def va_ranges_def sorted_wrt_map)
    moreover have "p \<in> set ?hs" "q \<in> set ?hs" using a(1) b(1) p q True by (simp_all add: va_mgr_of_def)
    moreover have "\<And>x y. va_span ?m (va_range_of dev x) \<inter> va_span ?m (va_range_of dev y) = {} \<Longrightarrow>
        va_span ?m (va_range_of dev y) \<inter> va_span ?m (va_range_of dev x) = {}" by (simp add: Int_commute)
    ultimately have "va_span ?m (va_range_of dev p) \<inter> va_span ?m (va_range_of dev q) = {}"
      using sorted_wrt_pair [of _ ?hs p q] ne by blast
    then show ?thesis using p q True by (simp add: va_range_of_def)
  qed
  then show "{unat (va_address a)..<unat (va_address a) + unat (va_size a)}
       \<inter> {unat (va_address b)..<unat (va_address b) + unat (va_size b)} = {}"
    using a(4) b(4) by blast
qed

definition demo_va_dev :: va_dev where
  "demo_va_dev =
     (let m = (\<lambda>start end. \<lparr>va_max = end, va_holes = [\<lparr>hole_offset = start, hole_size = end - start\<rparr>],
                           va_alignment = 0x1000\<rparr>)
      in \<lparr>virtual_address_offset = 0x200000, virtual_address_max = 0x800000000000,
          vamgr = m 0x100000000 0x800000000000, vamgr_32 = m 0x200000 0x100000000,
          vamgr_high = m 0 0x100000000, vamgr_high_32 = m 0 0, vas = Map.empty\<rparr>)"

lemma demo_va_dev_init: "device_vamgr_init 0x200000 0x800000000000 0 0 0x1000 [] = Ret (demo_va_dev, [])"
  by (simp add: device_vamgr_init_def amdgpu_vamgr_init_def demo_va_dev_def MIN2_def MAX2_def Let_def)

lemma demo_layout: "va_layout_ok 0x200000 0x800000000000 0 0"
  by (simp add: va_layout_ok_def)

text \<open>C5. In every run of range allocations and frees on a device set up by
  \<open>amdgpu_device_initialize_haiku\<close> that reports a regular address layout (\<open>va_layout_ok\<close>: the low space
  starts above 0 and below 4 GiB and ends above 4 GiB, and a high space, if there is one, begins where the low
  one has ended and is at least 4 GiB long behind its 32-bit window) and an alignment that is a power
  of two, when each request can be represented by the code's arithmetic (\<open>range_request_ok\<close>: a size other than 0,
  and no sum beyond 64 bits), with any flags and any pattern of allocation failures during the run, the
  ranges of different live handles are disjoint, across the four managers too, and each lies in the
  address window of its manager; the two low managers split the low space at 4 GiB.\<close>

theorem va_device_ranges_disjoint:
  assumes "device_vamgr_init off lim hoff hmax A [] = Ret (dev0, [])" and "va_layout_ok off lim hoff hmax"
    and "pow2 A" and "(va_dev_step A)\<^sup>*\<^sup>* (dev0, [], sc) (dev, hs, sc')"
    and "vas dev p = Some a" and "vas dev q = Some b" and "p \<noteq> q"
  shows "{unat (va_address a)..<unat (va_address a) + unat (va_size a)}
       \<inter> {unat (va_address b)..<unat (va_address b) + unat (va_size b)} = {}
    \<and> {unat (va_address a)..<unat (va_address a) + unat (va_size a)} \<subseteq> va_region off lim hoff hmax (va_vamgr a)"
proof -
  obtain d where "device_vamgr_init off lim hoff hmax A [] = Ret (d, [])"
    "va_dev_ok (va_region off lim hoff hmax) A d []"
    by (rule device_vamgr_init_ok [OF assms(2,3)])
  then have "va_dev_ok (va_region off lim hoff hmax) A dev0 []" using assms(1) by simp
  then have "va_dev_ok (va_region off lim hoff hmax) A dev hs"
    using va_dev_run_ok [OF assms(4)] va_layout_regions(2) [OF assms(2)] by simp
  from va_dev_ok_disjoint(1,2) [OF this assms(5-7) va_layout_regions(1) [OF assms(2)]] show ?thesis by blast
qed


definition demo_va_dev2 :: va_dev where
  "demo_va_dev2 = demo_va_dev\<lparr>
     vamgr_32 := \<lparr>va_max = 0x100000000, va_holes = [\<lparr>hole_offset = 0x204000, hole_size = 0xffdfc000\<rparr>],
                  va_alignment = 0x1000\<rparr>,
     vas := [1 \<mapsto> \<lparr>va_address = 0x200000, va_size = 0x2000,
                   va_range_type = amdgpu_gpu_va_range_general, va_vamgr = VAMGR_32\<rparr>,
             2 \<mapsto> \<lparr>va_address = 0x202000, va_size = 0x2000,
                   va_range_type = amdgpu_gpu_va_range_general, va_vamgr = VAMGR_32\<rparr>]\<rparr>"

lemmas va_dev_exec = amdgpu_va_range_alloc_def dev_find_va_def va_range_finish_def va_flags_def va_select_def
  va_select_32_def AMDGPU_VA_RANGE_32_BIT_def AMDGPU_VA_RANGE_HIGH_def AMDGPU_VA_RANGE_REPLAYABLE_def
  demo_va_dev_def demo_va_dev2_def

lemma demo_request: "range_request_ok demo_va_dev 0x1000 0x1800 0 0"
  by (simp add: range_request_ok_def va_mgr_all demo_va_dev_def)

lemma demo_va_run: "(va_dev_step 0x1000)\<^sup>*\<^sup>* (demo_va_dev, [], []) (demo_va_dev2, [2, 1], [])"
proof -
  let ?d1 = "demo_va_dev\<lparr>
     vamgr_32 := \<lparr>va_max = 0x100000000, va_holes = [\<lparr>hole_offset = 0x202000, hole_size = 0xffdfe000\<rparr>],
                  va_alignment = 0x1000\<rparr>,
     vas := [1 \<mapsto> \<lparr>va_address = 0x200000, va_size = 0x2000,
                   va_range_type = amdgpu_gpu_va_range_general, va_vamgr = VAMGR_32\<rparr>]\<rparr>"
  have "amdgpu_va_range_alloc 1 demo_va_dev amdgpu_gpu_va_range_general 0x1800 0 0 0 1 []
      = Ret (OK, 0x200000, Some 1, ?d1, [])"
    by (simp add: va_dev_exec va_exec)
  from va_dev_step.alloc [OF _ demo_request this, of "[]"]
  have 1: "va_dev_step 0x1000 (demo_va_dev, [], []) (?d1, [1], [])" by (simp add: demo_va_dev_def)
  have "range_request_ok ?d1 0x1000 0x1800 0 0"
    by (simp add: range_request_ok_def va_mgr_all demo_va_dev_def)
  moreover have "amdgpu_va_range_alloc 2 ?d1 amdgpu_gpu_va_range_general 0x1800 0 0 0 1 []
      = Ret (OK, 0x202000, Some 2, demo_va_dev2, [])"
    by (simp add: va_dev_exec va_exec)
  ultimately have "va_dev_step 0x1000 (?d1, [1], []) (demo_va_dev2, [2, 1], [])"
    using va_dev_step.alloc [of 2 ?d1 "0x1000" "0x1800" 0 0 amdgpu_gpu_va_range_general 0 1 "[]" OK _ "Some 2" _ "[]" "[1]"]
    by simp
  with 1 show ?thesis by (meson converse_rtranclp_into_rtranclp rtranclp.rtrancl_refl)
qed

theorem va_device_ranges_disjoint_witness:
  "{0x200000..<0x202000 :: nat} \<inter> {0x202000..<0x204000} = {} \<and> {0x200000..<0x202000 :: nat} \<subseteq> {0x200000..<2 ^ 32}"
  using va_device_ranges_disjoint [OF demo_va_dev_init demo_layout pow2_0x1000 demo_va_run,
      of 1 "\<lparr>va_address = 0x200000, va_size = 0x2000, va_range_type = amdgpu_gpu_va_range_general, va_vamgr = VAMGR_32\<rparr>"
         2 "\<lparr>va_address = 0x202000, va_size = 0x2000, va_range_type = amdgpu_gpu_va_range_general, va_vamgr = VAMGR_32\<rparr>"]
  by (simp add: demo_va_dev2_def)



lemma vamgr_init_holes:
  "amdgpu_vamgr_init start m al sc = Ret (mgr, sc') \<Longrightarrow>
     va_holes mgr = [\<lparr>hole_offset = start, hole_size = m - start\<rparr>]"
  by (auto simp: amdgpu_vamgr_init_def split: prod.splits bool.splits)

text \<open>On a device whose address space ends below 4 GiB the set-up gives the manager for the
  space above 4 GiB the addresses from the end of the device's space up to 4 GiB, none of which the
  device has.\<close>

theorem vamgr_beyond_device_limit:
  assumes "device_vamgr_init off lim hoff hmax A sc = Ret (dev, sc')" and "lim < 0x100000000"
  shows "free_set (va_holes (vamgr dev)) = {unat lim..<2 ^ 32}"
proof -
  have m: "MIN2 lim 0x100000000 = lim" "MAX2 lim 0x100000000 = 0x100000000"
    using assms(2) by (auto simp: MIN2_def MAX2_def)
  have "unat lim < 2 ^ 32" using assms(2) by (simp add: word_less_nat_alt)
  moreover have "unat (0x100000000 - lim) = 2 ^ 32 - unat lim"
    using assms(2) by (subst unat_sub) (simp_all add: word_less_nat_alt word_le_nat_alt)
  moreover have "va_holes (vamgr dev) = [\<lparr>hole_offset = lim, hole_size = 0x100000000 - lim\<rparr>]"
    using assms(1) unfolding device_vamgr_init_def m Let_def
    by (auto elim!: bind_outcome_RetE dest!: vamgr_init_holes)
  ultimately show ?thesis by (simp add: hstart_def hend_def)
qed

theorem vamgr_beyond_device_limit_witness:
  "\<exists>dev sc'. device_vamgr_init 0x200000 0x40000000 0 0 0x1000 [] = Ret (dev, sc')
     \<and> 0x50000000 \<in> free_set (va_holes (vamgr dev))"
proof -
  obtain dev sc' where d: "device_vamgr_init 0x200000 0x40000000 0 0 0x1000 [] = Ret (dev, sc')"
    by (simp add: device_vamgr_init_def amdgpu_vamgr_init_def Let_def)
  with vamgr_beyond_device_limit [OF d] show ?thesis by simp
qed

end
