(* ===== verification/Cs.thy ===== *)
theory Cs imports Bo begin

text \<open>
  Command submission, \<open>amdgpu/amdgpu_cs.c\<close>: contexts, submissions with their chunk arrays, fences,
  timeouts and the software semaphores. The contexts and semaphores of a device live in two heaps;
  the list heads inside them live in a third one, and an address of a list head is the object with
  the field it lies in. The accelerant's vtable entries and \<open>clock_gettime\<close> are parameters over an
  abstract state \<open>'a\<close>. A context's \<open>sequence_mutex\<close> makes each operation atomic. The loops over
  the waiting semaphores follow the pointers of that heap, so a result may be missing: \<open>None\<close> is a
  call that never returns.
\<close>

section \<open>Data\<close>

definition AMDGPU_HW_IP_NUM :: u32 where "AMDGPU_HW_IP_NUM = 9"
definition AMDGPU_HW_IP_INSTANCE_MAX_COUNT :: nat where "AMDGPU_HW_IP_INSTANCE_MAX_COUNT = 1"
definition AMDGPU_CS_MAX_RINGS :: u32 where "AMDGPU_CS_MAX_RINGS = 8"
definition AMDGPU_NULL_SUBMIT_SEQ :: u64 where "AMDGPU_NULL_SUBMIT_SEQ = 0"
definition AMDGPU_TIMEOUT_INFINITE :: u64 where "AMDGPU_TIMEOUT_INFINITE = 0xffffffffffffffff"
definition AMDGPU_QUERY_FENCE_TIMEOUT_IS_ABSOLUTE :: u64 where
  "AMDGPU_QUERY_FENCE_TIMEOUT_IS_ABSOLUTE = 1"

definition AMDGPU_CTX_OP_ALLOC_CTX :: u32 where "AMDGPU_CTX_OP_ALLOC_CTX = 1"
definition AMDGPU_CTX_OP_FREE_CTX :: u32 where "AMDGPU_CTX_OP_FREE_CTX = 2"
definition AMDGPU_CTX_OP_QUERY_STATE :: u32 where "AMDGPU_CTX_OP_QUERY_STATE = 3"
definition AMDGPU_CTX_OP_QUERY_STATE2 :: u32 where "AMDGPU_CTX_OP_QUERY_STATE2 = 4"
definition AMDGPU_CTX_PRIORITY_NORMAL :: u32 where "AMDGPU_CTX_PRIORITY_NORMAL = 0"

definition AMDGPU_CHUNK_ID_IB :: u32 where "AMDGPU_CHUNK_ID_IB = 1"
definition AMDGPU_CHUNK_ID_FENCE :: u32 where "AMDGPU_CHUNK_ID_FENCE = 2"
definition AMDGPU_CHUNK_ID_DEPENDENCIES :: u32 where "AMDGPU_CHUNK_ID_DEPENDENCIES = 3"

text \<open>A context pointer is null or the address of a context.\<close>

record amdgpu_cs_fence =
  cf_context :: "ptr option"
  cf_ip_type :: u32
  cf_ip_instance :: u32
  cf_ring :: u32
  cf_fence :: u64

record amdgpu_cs_ib_info =
  ibi_flags :: u64
  ib_mc_address :: u64
  ibi_size :: u32

record amdgpu_cs_fence_info =
  fi_handle :: "ptr option"
  fi_offset :: u64

text \<open>The arrays are kept with what they hold, next to the counts the code goes by.\<close>

record amdgpu_cs_request =
  cr_flags :: u64
  cr_ip_type :: u32
  cr_ip_instance :: u32
  cr_ring :: u32
  cr_resources :: "ptr option"
  number_of_dependencies :: u32
  cr_dependencies :: "amdgpu_cs_fence list"
  number_of_ibs :: u32
  cr_ibs :: "amdgpu_cs_ib_info list"
  cr_seq_no :: u64
  fence_info :: amdgpu_cs_fence_info

record drm_amdgpu_cs_chunk_ib =
  ib_pad :: u32
  ib_flags :: u32
  ib_va_start :: u64
  ib_bytes :: u32
  ib_ip_type :: u32
  ib_ip_instance :: u32
  ib_ring :: u32

record drm_amdgpu_cs_chunk_dep =
  dep_ip_type :: u32
  dep_ip_instance :: u32
  dep_ring :: u32
  dep_ctx_id :: u32
  dep_handle :: u64

record drm_amdgpu_cs_chunk_fence =
  cfe_handle :: u32
  cfe_offset :: u32

text \<open>What the address in the field \<open>chunk_data\<close> of a chunk points to.\<close>

datatype drm_amdgpu_cs_chunk_data =
    ib_data drm_amdgpu_cs_chunk_ib
  | fence_data drm_amdgpu_cs_chunk_fence
  | dep_data "drm_amdgpu_cs_chunk_dep list"

record drm_amdgpu_cs_chunk =
  chunk_id :: u32
  length_dw :: u32
  chunk_data :: drm_amdgpu_cs_chunk_data

text \<open>The two sides of \<open>union drm_amdgpu_ctx\<close>; of the output, what each member reads.\<close>

record drm_amdgpu_ctx_in =
  ctx_op :: u32
  ctx_flags :: u32
  ctx_ctx_id :: u32
  ctx_priority :: u32

record drm_amdgpu_ctx_out =
  alloc_ctx_id :: u32
  state_flags :: u64
  state_hangs :: u32
  state_reset_status :: u32
  pstate_flags :: u32

record amdgpu_context =
  cx_id :: u32
  last_seq :: "nat \<Rightarrow> nat \<Rightarrow> nat \<Rightarrow> u64"

record amdgpu_semaphore =
  sem_refcount :: atomic_t
  signal_fence :: amdgpu_cs_fence

definition no_fence :: amdgpu_cs_fence where
  "no_fence = \<lparr>cf_context = None, cf_ip_type = 0, cf_ip_instance = 0, cf_ring = 0, cf_fence = 0\<rparr>"

text \<open>
  \<open>CtxNode c i j k\<close> is \<open>&c->sem_list[i][j][k]\<close>, \<open>SemNode s\<close> is \<open>&s->list\<close>; a fresh semaphore is
  zeroed, so its pointers are null.
\<close>

datatype list_node = NullNode | SemNode ptr | CtxNode ptr nat nat nat

record 'a cs_ops =
  AmdgpuCtxRaw :: "'a \<Rightarrow> drm_amdgpu_ctx_in \<Rightarrow> int \<times> drm_amdgpu_ctx_out \<times> 'a"
  AmdgpuCsSubmitRaw :: "'a \<Rightarrow> u32 \<Rightarrow> u32 \<Rightarrow> u32 \<Rightarrow> drm_amdgpu_cs_chunk list \<Rightarrow> int \<times> u64 \<times> 'a"
  AmdgpuWaitCs :: "'a \<Rightarrow> u32 \<Rightarrow> u32 \<Rightarrow> u32 \<Rightarrow> u32 \<Rightarrow> u64 \<Rightarrow> u64 \<Rightarrow> int \<times> bool \<times> 'a"
  clock_monotonic :: "'a \<Rightarrow> int \<times> u64 \<times> u64 \<times> 'a"

record 'a cs_state =
  cs_acc :: 'a
  ctxs :: "ptr \<rightharpoonup> amdgpu_context"
  sems :: "ptr \<rightharpoonup> amdgpu_semaphore"
  cs_lists :: "list_node lheap"
  cs_bos :: "ptr \<rightharpoonup> amdgpu_bo"
  bo_lists :: "ptr \<rightharpoonup> u32"

text \<open>Indexing one of the three-dimensional arrays of a context.\<close>

definition ring_index_ok :: "nat \<Rightarrow> nat \<Rightarrow> nat \<Rightarrow> bool" where
  "ring_index_ok i j k \<longleftrightarrow>
     i < unat AMDGPU_HW_IP_NUM \<and> j < AMDGPU_HW_IP_INSTANCE_MAX_COUNT \<and> k < unat AMDGPU_CS_MAX_RINGS"

definition sem_list :: "ptr \<Rightarrow> u32 \<Rightarrow> u32 \<Rightarrow> u32 \<Rightarrow> list_node outcome" where
  "sem_list c i j k =
     (if ring_index_ok (unat i) (unat j) (unat k) then Ret (CtxNode c (unat i) (unat j) (unat k))
      else Fault)"

definition get_last_seq :: "amdgpu_context \<Rightarrow> u32 \<Rightarrow> u32 \<Rightarrow> u32 \<Rightarrow> u64 outcome" where
  "get_last_seq cx i j k =
     (if ring_index_ok (unat i) (unat j) (unat k) then Ret (last_seq cx (unat i) (unat j) (unat k))
      else Fault)"

definition set_last_seq ::
    "amdgpu_context \<Rightarrow> u32 \<Rightarrow> u32 \<Rightarrow> u32 \<Rightarrow> u64 \<Rightarrow> amdgpu_context outcome" where
  "set_last_seq cx i j k v =
     (if ring_index_ok (unat i) (unat j) (unat k) then
        Ret (cx\<lparr>last_seq := (\<lambda>a b d. if a = unat i \<and> b = unat j \<and> d = unat k then v
                                    else last_seq cx a b d)\<rparr>)
      else Fault)"

section \<open>Semaphores\<close>

text \<open>\<open>has_sem\<close> is whether the caller passes a place for the result.\<close>

definition amdgpu_cs_create_semaphore ::
    "bool \<Rightarrow> ptr \<Rightarrow> 'a cs_state \<Rightarrow> alloc_script \<Rightarrow> rc \<times> ptr option \<times> 'a cs_state \<times> alloc_script" where
  "amdgpu_cs_create_semaphore has_sem newp s sc =
     (if \<not> has_sem then (Err EINVAL, None, s, sc)
      else case calloc_next sc of
        (False, sc') \<Rightarrow> (Err ENOMEM, None, s, sc')
      | (True, sc') \<Rightarrow>
          (OK, Some newp,
           s\<lparr>sems := (sems s)(newp \<mapsto> \<lparr>sem_refcount = 1, signal_fence = no_fence\<rparr>),
             cs_lists := (cs_lists s)(SemNode newp \<mapsto> \<lparr>prev = NullNode, next = NullNode\<rparr>)\<rparr>, sc'))"

definition with_sem :: "'a cs_state \<Rightarrow> ptr \<Rightarrow> (amdgpu_semaphore \<Rightarrow> 'b outcome) \<Rightarrow> 'b outcome" where
  "with_sem s p f = (case sems s p of None \<Rightarrow> Fault | Some sem \<Rightarrow> f sem)"

definition with_ctx :: "'a cs_state \<Rightarrow> ptr \<Rightarrow> (amdgpu_context \<Rightarrow> 'b outcome) \<Rightarrow> 'b outcome" where
  "with_ctx s c f = (case ctxs s c of None \<Rightarrow> Fault | Some cx \<Rightarrow> f cx)"

definition amdgpu_cs_signal_semaphore ::
    "ptr option \<Rightarrow> u32 \<Rightarrow> u32 \<Rightarrow> u32 \<Rightarrow> ptr option \<Rightarrow> 'a cs_state \<Rightarrow> (rc \<times> 'a cs_state) outcome" where
  "amdgpu_cs_signal_semaphore ctx ip_type ip_instance ring sem s =
     (case (ctx, sem) of
        (Some c, Some p) \<Rightarrow>
          if ip_type \<ge> AMDGPU_HW_IP_NUM then Ret (Err EINVAL, s)
          else if ring \<ge> AMDGPU_CS_MAX_RINGS then Ret (Err EINVAL, s)
          else
            with_sem s p (\<lambda>m.
              if cf_context (signal_fence m) \<noteq> None then Ret (Err EINVAL, s)
              else
                with_ctx s c (\<lambda>cx.
                bind_outcome (get_last_seq cx ip_type ip_instance ring) (\<lambda>seq.
                let heap = (sems s)(p \<mapsto> m\<lparr>signal_fence :=
                      \<lparr>cf_context = Some c, cf_ip_type = ip_type, cf_ip_instance = ip_instance,
                       cf_ring = ring, cf_fence = seq\<rparr>\<rparr>)
                in bind_outcome (update_references (cells_of sem_refcount heap) None (Some p))
                     (\<lambda>(_, cs).
                        Ret (OK, s\<lparr>sems := with_cells (\<lambda>v m. m\<lparr>sem_refcount := v\<rparr>) heap cs\<rparr>)))))
      | _ \<Rightarrow> Ret (Err EINVAL, s))"

definition amdgpu_cs_wait_semaphore ::
    "ptr option \<Rightarrow> u32 \<Rightarrow> u32 \<Rightarrow> u32 \<Rightarrow> ptr option \<Rightarrow> 'a cs_state \<Rightarrow> (rc \<times> 'a cs_state) outcome" where
  "amdgpu_cs_wait_semaphore ctx ip_type ip_instance ring sem s =
     (case (ctx, sem) of
        (Some c, Some p) \<Rightarrow>
          if ip_type \<ge> AMDGPU_HW_IP_NUM then Ret (Err EINVAL, s)
          else if ring \<ge> AMDGPU_CS_MAX_RINGS then Ret (Err EINVAL, s)
          else
            with_sem s p (\<lambda>m.
              if cf_context (signal_fence m) = None then Ret (Err EINVAL, s)
              else
                with_ctx s c (\<lambda>_.
                bind_outcome (sem_list c ip_type ip_instance ring) (\<lambda>head.
                bind_outcome (list_add (cs_lists s) (SemNode p) head) (\<lambda>h.
                Ret (OK, s\<lparr>cs_lists := h\<rparr>)))))
      | _ \<Rightarrow> Ret (Err EINVAL, s))"

definition amdgpu_cs_reset_sem :: "ptr option \<Rightarrow> 'a cs_state \<Rightarrow> (rc \<times> 'a cs_state) outcome" where
  "amdgpu_cs_reset_sem sem s =
     (case sem of
        None \<Rightarrow> Ret (Err EINVAL, s)
      | Some p \<Rightarrow>
          with_sem s p (\<lambda>m.
            if cf_context (signal_fence m) = None then Ret (Err EINVAL, s)
            else Ret (OK, s\<lparr>sems := (sems s)(p \<mapsto> m\<lparr>signal_fence := no_fence\<rparr>)\<rparr>)))"

definition amdgpu_cs_unreference_sem :: "ptr option \<Rightarrow> 'a cs_state \<Rightarrow> (rc \<times> 'a cs_state) outcome" where
  "amdgpu_cs_unreference_sem sem s =
     (case sem of
        None \<Rightarrow> Ret (Err EINVAL, s)
      | Some p \<Rightarrow>
          bind_outcome (update_references (cells_of sem_refcount (sems s)) (Some p) None)
            (\<lambda>(last, cs).
               let heap = with_cells (\<lambda>v m. m\<lparr>sem_refcount := v\<rparr>) (sems s) cs
               in if last then
                    Ret (OK, s\<lparr>sems := heap(p := None), cs_lists := (cs_lists s)(SemNode p := None)\<rparr>)
                  else Ret (OK, s\<lparr>sems := heap\<rparr>)))"

definition amdgpu_cs_destroy_semaphore ::
    "ptr option \<Rightarrow> 'a cs_state \<Rightarrow> (rc \<times> 'a cs_state) outcome" where
  "amdgpu_cs_destroy_semaphore sem s = amdgpu_cs_unreference_sem sem s"

text \<open>
  What both loops over a list of semaphores do with an entry: \<open>list_del\<close>, \<open>amdgpu_cs_reset_sem\<close>,
  \<open>amdgpu_cs_unreference_sem\<close>. An entry that is not the list head of a semaphore has no such object
  around it.
\<close>

definition release_waiting :: "list_node \<Rightarrow> 'a cs_state \<Rightarrow> 'a cs_state outcome" where
  "release_waiting pos s =
     (case pos of
        SemNode p \<Rightarrow>
          bind_outcome (list_del (cs_lists s) pos) (\<lambda>h.
          bind_outcome (amdgpu_cs_reset_sem (Some p) (s\<lparr>cs_lists := h\<rparr>)) (\<lambda>(_, s').
          bind_outcome (amdgpu_cs_unreference_sem (Some p) s') (\<lambda>(_, s''). Ret s'')))
      | _ \<Rightarrow> Fault)"

section \<open>Contexts\<close>

text \<open>The rings in the order of the three nested loops.\<close>

definition all_rings :: "(nat \<times> nat \<times> nat) list" where
  "all_rings =
     concat (map (\<lambda>i. concat (map (\<lambda>j. map (\<lambda>k. (i, j, k)) [0..<unat AMDGPU_CS_MAX_RINGS])
       [0..<AMDGPU_HW_IP_INSTANCE_MAX_COUNT])) [0..<unat AMDGPU_HW_IP_NUM])"

text \<open>The heads inside a context: allocated zeroed with it, gone with it.\<close>

definition alloc_heads :: "ptr \<Rightarrow> list_node lheap \<Rightarrow> list_node lheap" where
  "alloc_heads c h n =
     (case n of
        CtxNode c' i j k \<Rightarrow>
          if c' = c \<and> ring_index_ok i j k then Some \<lparr>prev = NullNode, next = NullNode\<rparr> else h n
      | _ \<Rightarrow> h n)"

definition free_heads :: "ptr \<Rightarrow> list_node lheap \<Rightarrow> list_node lheap" where
  "free_heads c h n =
     (case n of CtxNode c' i j k \<Rightarrow> if c' = c then None else h n | _ \<Rightarrow> h n)"

definition init_heads :: "ptr \<Rightarrow> list_node lheap \<Rightarrow> list_node lheap outcome" where
  "init_heads c h = fold_outcome (\<lambda>(i, j, k) h. list_inithead h (CtxNode c i j k)) all_rings h"

text \<open>
  \<open>mutex_r\<close> is what \<open>pthread_mutex_init\<close> returns; \<open>has_dev\<close> and \<open>has_context\<close> are whether the
  caller passes a device and a place for the result.
\<close>

definition amdgpu_cs_ctx_create2 ::
    "'a cs_ops \<Rightarrow> bool \<Rightarrow> bool \<Rightarrow> ptr \<Rightarrow> int \<Rightarrow> u32 \<Rightarrow> 'a cs_state \<Rightarrow> alloc_script
     \<Rightarrow> (rc \<times> ptr option \<times> 'a cs_state \<times> alloc_script) outcome" where
  "amdgpu_cs_ctx_create2 ops has_dev has_context newp mutex_r priority s sc =
     (if \<not> has_dev \<or> \<not> has_context then Ret (Err EINVAL, None, s, sc)
      else case calloc_next sc of
        (False, sc') \<Rightarrow> Ret (Err ENOMEM, None, s, sc')
      | (True, sc') \<Rightarrow>
          if mutex_r \<noteq> 0 then Ret (ext_rc mutex_r, None, s, sc')
          else
            (case AmdgpuCtxRaw ops (cs_acc s)
                \<lparr>ctx_op = AMDGPU_CTX_OP_ALLOC_CTX, ctx_flags = 0, ctx_ctx_id = 0,
                 ctx_priority = priority\<rparr> of
               (r, out, a) \<Rightarrow>
                 if r \<noteq> 0 then Ret (ext_rc r, None, s\<lparr>cs_acc := a\<rparr>, sc')
                 else
                   bind_outcome (init_heads newp (alloc_heads newp (cs_lists s))) (\<lambda>h.
                     Ret (OK, Some newp,
                          s\<lparr>cs_acc := a,
                            ctxs := (ctxs s)(newp \<mapsto>
                              \<lparr>cx_id = alloc_ctx_id out, last_seq = (\<lambda>_ _ _. 0)\<rparr>),
                            cs_lists := h\<rparr>, sc'))))"

definition amdgpu_cs_ctx_create ::
    "'a cs_ops \<Rightarrow> bool \<Rightarrow> bool \<Rightarrow> ptr \<Rightarrow> int \<Rightarrow> 'a cs_state \<Rightarrow> alloc_script
     \<Rightarrow> (rc \<times> ptr option \<times> 'a cs_state \<times> alloc_script) outcome" where
  "amdgpu_cs_ctx_create ops has_dev has_context newp mutex_r s sc =
     amdgpu_cs_ctx_create2 ops has_dev has_context newp mutex_r AMDGPU_CTX_PRIORITY_NORMAL s sc"

text \<open>
  The loop over one list when a context is freed: \<open>LIST_FOR_EACH_ENTRY\<close>, which reads the next
  pointer of an entry after the body has run.
\<close>

partial_function (option) ctx_free_list ::
    "list_node \<Rightarrow> list_node \<Rightarrow> 'a cs_state \<Rightarrow> 'a cs_state outcome option" where
  "ctx_free_list head pos s =
     (if pos = head then Some (Ret s)
      else case release_waiting pos s of
        Fault \<Rightarrow> Some Fault
      | Ret s' \<Rightarrow>
          (case cs_lists s' pos of
             None \<Rightarrow> Some Fault
           | Some n \<Rightarrow> ctx_free_list head (next n) s'))"

fun ctx_free_rings ::
    "ptr \<Rightarrow> (nat \<times> nat \<times> nat) list \<Rightarrow> 'a cs_state \<Rightarrow> 'a cs_state outcome option" where
  "ctx_free_rings c [] s = Some (Ret s)"
| "ctx_free_rings c ((i, j, k) # rings) s =
     (case cs_lists s (CtxNode c i j k) of
        None \<Rightarrow> Some Fault
      | Some n \<Rightarrow>
          Option.bind (ctx_free_list (CtxNode c i j k) (next n) s) (\<lambda>r.
            case r of Fault \<Rightarrow> Some Fault | Ret s' \<Rightarrow> ctx_free_rings c rings s'))"

definition amdgpu_cs_ctx_free ::
    "'a cs_ops \<Rightarrow> ptr option \<Rightarrow> 'a cs_state \<Rightarrow> (rc \<times> 'a cs_state) outcome option" where
  "amdgpu_cs_ctx_free ops ctx s =
     (case ctx of
        None \<Rightarrow> Some (Ret (Err EINVAL, s))
      | Some c \<Rightarrow>
          (case ctxs s c of
             None \<Rightarrow> Some Fault
           | Some cx \<Rightarrow>
               (case AmdgpuCtxRaw ops (cs_acc s)
                   \<lparr>ctx_op = AMDGPU_CTX_OP_FREE_CTX, ctx_flags = 0, ctx_ctx_id = cx_id cx,
                    ctx_priority = 0\<rparr> of
                  (r, _, a) \<Rightarrow>
                    Option.bind (ctx_free_rings c all_rings (s\<lparr>cs_acc := a\<rparr>)) (\<lambda>res.
                      case res of
                        Fault \<Rightarrow> Some Fault
                      | Ret s' \<Rightarrow>
                          Some (Ret (ext_rc r,
                            s'\<lparr>ctxs := (ctxs s')(c := None),
                               cs_lists := free_heads c (cs_lists s')\<rparr>))))))"

definition amdgpu_cs_ctx_override_priority :: "ptr \<Rightarrow> int \<Rightarrow> u32 \<Rightarrow> rc" where
  "amdgpu_cs_ctx_override_priority ctx master_fd priority = Err ENOSYS"

text \<open>The three queries; the output is \<open>None\<close> where the code does not write it.\<close>

definition ctx_query ::
    "'a cs_ops \<Rightarrow> ptr option \<Rightarrow> u32 \<Rightarrow> u32 \<Rightarrow> 'a cs_state
     \<Rightarrow> (rc \<times> drm_amdgpu_ctx_out option \<times> 'a cs_state) outcome" where
  "ctx_query ops ctx op flags s =
     (case ctx of
        None \<Rightarrow> Ret (Err EINVAL, None, s)
      | Some c \<Rightarrow>
          with_ctx s c (\<lambda>cx.
            case AmdgpuCtxRaw ops (cs_acc s)
                \<lparr>ctx_op = op, ctx_flags = flags, ctx_ctx_id = cx_id cx, ctx_priority = 0\<rparr> of
              (r, out, a) \<Rightarrow>
                Ret (ext_rc r, if r = 0 then Some out else None, s\<lparr>cs_acc := a\<rparr>)))"

definition amdgpu_cs_ctx_stable_pstate ::
    "'a cs_ops \<Rightarrow> ptr option \<Rightarrow> u32 \<Rightarrow> u32 \<Rightarrow> bool \<Rightarrow> 'a cs_state
     \<Rightarrow> (rc \<times> u32 option \<times> 'a cs_state) outcome" where
  "amdgpu_cs_ctx_stable_pstate ops ctx op flags has_out s =
     bind_outcome (ctx_query ops ctx op flags s) (\<lambda>(r, out, s').
       Ret (r, if has_out then map_option pstate_flags out else None, s'))"

definition amdgpu_cs_query_reset_state ::
    "'a cs_ops \<Rightarrow> ptr option \<Rightarrow> 'a cs_state \<Rightarrow> (rc \<times> (u32 \<times> u32) option \<times> 'a cs_state) outcome" where
  "amdgpu_cs_query_reset_state ops ctx s =
     bind_outcome (ctx_query ops ctx AMDGPU_CTX_OP_QUERY_STATE 0 s) (\<lambda>(r, out, s').
       Ret (r, map_option (\<lambda>out. (state_reset_status out, state_hangs out)) out, s'))"

definition amdgpu_cs_query_reset_state2 ::
    "'a cs_ops \<Rightarrow> ptr option \<Rightarrow> 'a cs_state \<Rightarrow> (rc \<times> u64 option \<times> 'a cs_state) outcome" where
  "amdgpu_cs_query_reset_state2 ops ctx s =
     bind_outcome (ctx_query ops ctx AMDGPU_CTX_OP_QUERY_STATE2 0 s) (\<lambda>(r, out, s').
       Ret (r, map_option state_flags out, s'))"

section \<open>Chunks\<close>

definition amdgpu_cs_chunk_fence_info_to_data ::
    "'a cs_state \<Rightarrow> amdgpu_cs_fence_info \<Rightarrow> drm_amdgpu_cs_chunk_fence outcome" where
  "amdgpu_cs_chunk_fence_info_to_data s info =
     (case fi_handle info of
        None \<Rightarrow> Fault
      | Some p \<Rightarrow>
          (case cs_bos s p of
             None \<Rightarrow> Fault
           | Some bo \<Rightarrow> Ret \<lparr>cfe_handle = bo_handle bo, cfe_offset = ucast (fi_offset info * 8)\<rparr>))"

definition amdgpu_cs_chunk_fence_to_dep ::
    "'a cs_state \<Rightarrow> amdgpu_cs_fence \<Rightarrow> drm_amdgpu_cs_chunk_dep outcome" where
  "amdgpu_cs_chunk_fence_to_dep s fence =
     (case cf_context fence of
        None \<Rightarrow> Fault
      | Some c \<Rightarrow>
          with_ctx s c (\<lambda>cx.
            Ret \<lparr>dep_ip_type = cf_ip_type fence, dep_ip_instance = cf_ip_instance fence,
                 dep_ring = cf_ring fence, dep_ctx_id = cx_id cx, dep_handle = cf_fence fence\<rparr>))"

text \<open>The body of the loop over the IBs.\<close>

definition ib_chunk :: "amdgpu_cs_request \<Rightarrow> amdgpu_cs_ib_info \<Rightarrow> drm_amdgpu_cs_chunk" where
  "ib_chunk req ib =
     \<lparr>chunk_id = AMDGPU_CHUNK_ID_IB, length_dw = 8,
      chunk_data = ib_data
        \<lparr>ib_pad = 0, ib_flags = ucast (ibi_flags ib), ib_va_start = ib_mc_address ib,
         ib_bytes = ibi_size ib * 4, ib_ip_type = cr_ip_type req,
         ib_ip_instance = cr_ip_instance req, ib_ring = cr_ring req\<rparr>\<rparr>"

definition user_fence :: "amdgpu_cs_request \<Rightarrow> bool" where
  "user_fence req \<longleftrightarrow> fi_handle (fence_info req) \<noteq> None"

text \<open>The numbers of elements the two arrays on the stack have room for, computed at 32 bits.\<close>

definition chunks_room :: "amdgpu_cs_request \<Rightarrow> nat" where
  "chunks_room req = unat (number_of_ibs req + (if user_fence req then 2 else 1) + 1)"

definition chunk_data_room :: "amdgpu_cs_request \<Rightarrow> nat" where
  "chunk_data_room req = unat (number_of_ibs req + (if user_fence req then 1 else 0))"

definition put_chunk ::
    "nat \<Rightarrow> drm_amdgpu_cs_chunk \<Rightarrow> drm_amdgpu_cs_chunk list \<Rightarrow> drm_amdgpu_cs_chunk list outcome" where
  "put_chunk room c chunks = (if length chunks < room then Ret (chunks @ [c]) else Fault)"

definition ib_chunks :: "amdgpu_cs_request \<Rightarrow> drm_amdgpu_cs_chunk list outcome" where
  "ib_chunks req =
     fold_outcome
       (\<lambda>i chunks.
          if i < length (cr_ibs req) then
            put_chunk (min (chunks_room req) (chunk_data_room req)) (ib_chunk req (cr_ibs req ! i)) chunks
          else Fault)
       [0..<unat (number_of_ibs req)] []"

definition fence_chunk ::
    "'a cs_state \<Rightarrow> amdgpu_cs_request \<Rightarrow> drm_amdgpu_cs_chunk list \<Rightarrow> drm_amdgpu_cs_chunk list outcome" where
  "fence_chunk s req chunks =
     (if user_fence req then
        bind_outcome (amdgpu_cs_chunk_fence_info_to_data s (fence_info req)) (\<lambda>d.
          put_chunk (min (chunks_room req) (chunk_data_room req))
            \<lparr>chunk_id = AMDGPU_CHUNK_ID_FENCE, length_dw = 2, chunk_data = fence_data d\<rparr> chunks)
      else Ret chunks)"

definition dep_array ::
    "'a cs_state \<Rightarrow> amdgpu_cs_request \<Rightarrow> drm_amdgpu_cs_chunk_dep list outcome" where
  "dep_array s req =
     fold_outcome
       (\<lambda>i deps.
          if i < length (cr_dependencies req) then
            bind_outcome (amdgpu_cs_chunk_fence_to_dep s (cr_dependencies req ! i)) (\<lambda>d. Ret (deps @ [d]))
          else Fault)
       [0..<unat (number_of_dependencies req)] []"

definition dep_chunk :: "u32 \<Rightarrow> drm_amdgpu_cs_chunk_dep list \<Rightarrow> drm_amdgpu_cs_chunk" where
  "dep_chunk n deps =
     \<lparr>chunk_id = AMDGPU_CHUNK_ID_DEPENDENCIES, length_dw = 6 * n, chunk_data = dep_data deps\<rparr>"

definition dependency_chunk ::
    "'a cs_state \<Rightarrow> amdgpu_cs_request \<Rightarrow> drm_amdgpu_cs_chunk list \<Rightarrow> drm_amdgpu_cs_chunk list outcome" where
  "dependency_chunk s req chunks =
     (if number_of_dependencies req \<noteq> 0 then
        bind_outcome (dep_array s req) (\<lambda>deps.
          put_chunk (chunks_room req) (dep_chunk (number_of_dependencies req) deps) chunks)
      else Ret chunks)"

section \<open>Submission\<close>

definition amdgpu_cs_submit_raw2 ::
    "'a cs_ops \<Rightarrow> ptr \<Rightarrow> u32 \<Rightarrow> drm_amdgpu_cs_chunk list \<Rightarrow> 'a cs_state
     \<Rightarrow> (int \<times> u64 \<times> 'a cs_state) outcome" where
  "amdgpu_cs_submit_raw2 ops c bo_list_handle chunks s =
     with_ctx s c (\<lambda>cx.
       case AmdgpuCsSubmitRaw ops (cs_acc s) (cx_id cx) bo_list_handle (of_nat (length chunks)) chunks of
         (r, seq_no, a) \<Rightarrow> Ret (r, seq_no, s\<lparr>cs_acc := a\<rparr>))"

definition bo_list_handle_of :: "'a cs_state \<Rightarrow> ptr option \<Rightarrow> u32 outcome" where
  "bo_list_handle_of s resources =
     (case resources of
        None \<Rightarrow> Ret 0
      | Some p \<Rightarrow> (case bo_lists s p of None \<Rightarrow> Fault | Some h \<Rightarrow> Ret h))"

definition amdgpu_cs_submit_raw ::
    "'a cs_ops \<Rightarrow> ptr \<Rightarrow> ptr option \<Rightarrow> drm_amdgpu_cs_chunk list \<Rightarrow> 'a cs_state
     \<Rightarrow> (int \<times> u64 \<times> 'a cs_state) outcome" where
  "amdgpu_cs_submit_raw ops c bo_list chunks s =
     bind_outcome (bo_list_handle_of s bo_list) (\<lambda>h. amdgpu_cs_submit_raw2 ops c h chunks s)"

text \<open>
  The body of the loop \<open>LIST_FOR_EACH_ENTRY_SAFE\<close> over the waiting semaphores: the fence goes into
  the next place of an array of \<open>room\<close> elements, then the semaphore is released.
\<close>

definition take_fence ::
    "nat \<Rightarrow> list_node \<Rightarrow> drm_amdgpu_cs_chunk_dep list \<Rightarrow> 'a cs_state
     \<Rightarrow> (drm_amdgpu_cs_chunk_dep list \<times> 'a cs_state) outcome" where
  "take_fence room pos deps s =
     (case pos of
        SemNode p \<Rightarrow>
          with_sem s p (\<lambda>m.
          bind_outcome (amdgpu_cs_chunk_fence_to_dep s (signal_fence m)) (\<lambda>d.
          if length deps < room then
            bind_outcome (release_waiting pos s) (\<lambda>s'. Ret (deps @ [d], s'))
          else Fault))
      | _ \<Rightarrow> Fault)"

partial_function (option) take_fences ::
    "nat \<Rightarrow> list_node \<Rightarrow> list_node \<Rightarrow> list_node \<Rightarrow> drm_amdgpu_cs_chunk_dep list \<Rightarrow> 'a cs_state
     \<Rightarrow> (drm_amdgpu_cs_chunk_dep list \<times> 'a cs_state) outcome option" where
  "take_fences room head pos tmp deps s =
     (if pos = head then Some (Ret (deps, s))
      else case take_fence room pos deps s of
        Fault \<Rightarrow> Some Fault
      | Ret (deps', s') \<Rightarrow>
          (case cs_lists s' tmp of
             None \<Rightarrow> Some Fault
           | Some n \<Rightarrow> take_fences room head tmp (next n) deps' s'))"

text \<open>The first pass counts the entries, the second one takes their fences.\<close>

definition semaphore_chunk ::
    "amdgpu_cs_request \<Rightarrow> list_node \<Rightarrow> drm_amdgpu_cs_chunk list \<Rightarrow> 'a cs_state
     \<Rightarrow> (drm_amdgpu_cs_chunk list \<times> 'a cs_state) outcome option" where
  "semaphore_chunk req head chunks s =
     Option.bind (LIST_FOR_EACH_ENTRY (cs_lists s) head) (\<lambda>found.
       case found of
         Fault \<Rightarrow> Some Fault
       | Ret entries \<Rightarrow>
           (let sem_count = of_nat (length entries) :: u32
            in if sem_count = 0 then Some (Ret (chunks, s))
               else
                 (case get_next (cs_lists s) head of
                    Fault \<Rightarrow> Some Fault
                  | Ret pos \<Rightarrow>
                      (case get_next (cs_lists s) pos of
                         Fault \<Rightarrow> Some Fault
                       | Ret tmp \<Rightarrow>
                           Option.bind (take_fences (unat sem_count) head pos tmp [] s) (\<lambda>r.
                             case r of
                               Fault \<Rightarrow> Some Fault
                             | Ret (deps, s') \<Rightarrow>
                                 Some (bind_outcome
                                   (put_chunk (chunks_room req)
                                      (dep_chunk (of_nat (length deps)) deps) chunks)
                                   (\<lambda>chunks'. Ret (chunks', s'))))))))"

text \<open>The end: the call of the accelerant, and the sequence number it returns.\<close>

definition submit_finish ::
    "'a cs_ops \<Rightarrow> ptr \<Rightarrow> amdgpu_cs_request \<Rightarrow> u32 \<Rightarrow> drm_amdgpu_cs_chunk list \<Rightarrow> 'a cs_state
     \<Rightarrow> (rc \<times> amdgpu_cs_request \<times> 'a cs_state) outcome" where
  "submit_finish ops c req bo_list_handle chunks s =
     bind_outcome (amdgpu_cs_submit_raw2 ops c bo_list_handle chunks s) (\<lambda>(r, seq_no, s').
       if r \<noteq> 0 then Ret (ext_rc r, req, s')
       else
         with_ctx s' c (\<lambda>cx.
         bind_outcome (set_last_seq cx (cr_ip_type req) (cr_ip_instance req) (cr_ring req) seq_no) (\<lambda>cx'.
         Ret (OK, req\<lparr>cr_seq_no := seq_no\<rparr>, s'\<lparr>ctxs := (ctxs s')(c \<mapsto> cx')\<rparr>))))"

text \<open>What is put together before the semaphores are looked at.\<close>

definition submit_chunks ::
    "'a cs_state \<Rightarrow> amdgpu_cs_request \<Rightarrow> (u32 \<times> drm_amdgpu_cs_chunk list) outcome" where
  "submit_chunks s req =
     bind_outcome (bo_list_handle_of s (cr_resources req)) (\<lambda>bo_list_handle.
     bind_outcome (ib_chunks req) (\<lambda>chunks.
     bind_outcome (fence_chunk s req chunks) (\<lambda>chunks.
     bind_outcome (dependency_chunk s req chunks) (\<lambda>chunks.
     Ret (bo_list_handle, chunks)))))"

definition amdgpu_cs_submit_one ::
    "'a cs_ops \<Rightarrow> ptr \<Rightarrow> amdgpu_cs_request \<Rightarrow> 'a cs_state
     \<Rightarrow> (rc \<times> amdgpu_cs_request \<times> 'a cs_state) outcome option" where
  "amdgpu_cs_submit_one ops c req s =
     (if ctxs s c = None then Some Fault
      else if cr_ip_type req \<ge> AMDGPU_HW_IP_NUM then Some (Ret (Err EINVAL, req, s))
      else if cr_ring req \<ge> AMDGPU_CS_MAX_RINGS then Some (Ret (Err EINVAL, req, s))
      else if number_of_ibs req = 0 then
        Some (Ret (OK, req\<lparr>cr_seq_no := AMDGPU_NULL_SUBMIT_SEQ\<rparr>, s))
      else
        (case submit_chunks s req of
           Fault \<Rightarrow> Some Fault
         | Ret (bo_list_handle, chunks) \<Rightarrow>
             (case sem_list c (cr_ip_type req) (cr_ip_instance req) (cr_ring req) of
                Fault \<Rightarrow> Some Fault
              | Ret head \<Rightarrow>
                  Option.bind (semaphore_chunk req head chunks s) (\<lambda>res.
                    case res of
                      Fault \<Rightarrow> Some Fault
                    | Ret (chunks', s') \<Rightarrow>
                        Some (submit_finish ops c req bo_list_handle chunks' s')))))"

text \<open>The requests are an array; the ones after a failing one are left as they were.\<close>

fun submit_loop ::
    "'a cs_ops \<Rightarrow> ptr \<Rightarrow> amdgpu_cs_request list \<Rightarrow> 'a cs_state
     \<Rightarrow> (rc \<times> amdgpu_cs_request list \<times> 'a cs_state) outcome option" where
  "submit_loop ops c [] s = Some (Ret (OK, [], s))"
| "submit_loop ops c (req # reqs) s =
     Option.bind (amdgpu_cs_submit_one ops c req s) (\<lambda>res.
       case res of
         Fault \<Rightarrow> Some Fault
       | Ret (r, req', s') \<Rightarrow>
           if r \<noteq> OK then Some (Ret (r, req' # reqs, s'))
           else Option.bind (submit_loop ops c reqs s') (\<lambda>res'.
                  case res' of
                    Fault \<Rightarrow> Some Fault
                  | Ret (r, reqs', s'') \<Rightarrow> Some (Ret (r, req' # reqs', s''))))"

definition amdgpu_cs_submit ::
    "'a cs_ops \<Rightarrow> ptr option \<Rightarrow> u64 \<Rightarrow> amdgpu_cs_request list option \<Rightarrow> 'a cs_state
     \<Rightarrow> (rc \<times> amdgpu_cs_request list option \<times> 'a cs_state) outcome option" where
  "amdgpu_cs_submit ops ctx flags ibs_request s =
     (case (ctx, ibs_request) of
        (Some c, Some reqs) \<Rightarrow>
          Option.bind (submit_loop ops c reqs s) (\<lambda>res.
            Some (bind_outcome res (\<lambda>(r, reqs', s'). Ret (r, Some reqs', s'))))
      | _ \<Rightarrow> Some (Ret (Err EINVAL, ibs_request, s)))"

section \<open>Fences\<close>

text \<open>The absolute timeout; a failing clock gives an infinite one.\<close>

definition amdgpu_cs_calculate_timeout :: "'a cs_ops \<Rightarrow> u64 \<Rightarrow> 'a \<Rightarrow> u64 \<times> 'a" where
  "amdgpu_cs_calculate_timeout ops timeout a =
     (if timeout \<noteq> AMDGPU_TIMEOUT_INFINITE then
        (case clock_monotonic ops a of
           (r, sec, nsec, a') \<Rightarrow>
             if r \<noteq> 0 then (AMDGPU_TIMEOUT_INFINITE, a')
             else
               (let current_ns = sec * 1000000000 + nsec;
                    timeout' = timeout + current_ns
                in (if timeout' < current_ns then AMDGPU_TIMEOUT_INFINITE else timeout', a')))
      else (timeout, a))"

definition amdgpu_ioctl_wait_cs ::
    "'a cs_ops \<Rightarrow> ptr \<Rightarrow> u32 \<Rightarrow> u32 \<Rightarrow> u32 \<Rightarrow> u64 \<Rightarrow> u64 \<Rightarrow> u64 \<Rightarrow> 'a cs_state
     \<Rightarrow> (int \<times> bool \<times> 'a cs_state) outcome" where
  "amdgpu_ioctl_wait_cs ops c ip ip_instance ring handle timeout_ns flags s =
     with_ctx s c (\<lambda>cx.
       case (if flags AND AMDGPU_QUERY_FENCE_TIMEOUT_IS_ABSOLUTE = 0
             then amdgpu_cs_calculate_timeout ops timeout_ns (cs_acc s) else (timeout_ns, cs_acc s)) of
         (timeout, a) \<Rightarrow>
           (case AmdgpuWaitCs ops a (cx_id cx) ip ip_instance ring handle timeout of
              (r, busy, a') \<Rightarrow> Ret (r, busy, s\<lparr>cs_acc := a'\<rparr>)))"

text \<open>\<open>expired\<close> is \<open>None\<close> where it is not written.\<close>

definition amdgpu_cs_query_fence_status ::
    "'a cs_ops \<Rightarrow> amdgpu_cs_fence option \<Rightarrow> u64 \<Rightarrow> u64 \<Rightarrow> bool \<Rightarrow> 'a cs_state
     \<Rightarrow> (rc \<times> bool option \<times> 'a cs_state) outcome" where
  "amdgpu_cs_query_fence_status ops fence timeout_ns flags has_expired s =
     (case fence of
        None \<Rightarrow> Ret (Err EINVAL, None, s)
      | Some f \<Rightarrow>
          (case cf_context f of
             None \<Rightarrow> Ret (Err EINVAL, None, s)
           | Some c \<Rightarrow>
               if \<not> has_expired then Ret (Err EINVAL, None, s)
               else if cf_ip_type f \<ge> AMDGPU_HW_IP_NUM then Ret (Err EINVAL, None, s)
               else if cf_ring f \<ge> AMDGPU_CS_MAX_RINGS then Ret (Err EINVAL, None, s)
               else if cf_fence f = AMDGPU_NULL_SUBMIT_SEQ then Ret (OK, Some True, s)
               else
                 bind_outcome
                   (amdgpu_ioctl_wait_cs ops c (cf_ip_type f) (cf_ip_instance f) (cf_ring f)
                      (cf_fence f) timeout_ns flags s)
                   (\<lambda>(r, busy, s'). Ret (ext_rc r, Some (r = 0 \<and> \<not> busy), s'))))"

definition amdgpu_cs_wait_fences ::
    "amdgpu_cs_fence list \<Rightarrow> u32 \<Rightarrow> bool \<Rightarrow> u64 \<Rightarrow> rc" where
  "amdgpu_cs_wait_fences fences fence_count wait_all timeout_ns = Err ENOSYS"

definition amdgpu_cs_fence_to_handle :: "amdgpu_cs_fence \<Rightarrow> u32 \<Rightarrow> rc" where
  "amdgpu_cs_fence_to_handle fence what = Err ENOSYS"

section \<open>Releasing a waiting semaphore\<close>

lemmas cs_step = with_sem_def with_ctx_def

definition sem_released :: "amdgpu_semaphore \<Rightarrow> amdgpu_semaphore option" where
  "sem_released m =
     (if sem_refcount m = 1 then None
      else Some \<lparr>sem_refcount = sem_refcount m - 1, signal_fence = no_fence\<rparr>)"

definition release_sems :: "ptr list \<Rightarrow> (ptr \<rightharpoonup> amdgpu_semaphore) \<Rightarrow> (ptr \<rightharpoonup> amdgpu_semaphore)" where
  "release_sems xs f p = (if p \<in> set xs then Option.bind (f p) sem_released else f p)"

text \<open>A semaphore that may be in a list: signalled by a living context, with a reference to drop.\<close>

definition fence_alive :: "'a cs_state \<Rightarrow> amdgpu_cs_fence \<Rightarrow> bool" where
  "fence_alive s f \<longleftrightarrow> (\<exists>c cx. cf_context f = Some c \<and> ctxs s c = Some cx)"

definition waiting_ok :: "'a cs_state \<Rightarrow> ptr \<Rightarrow> bool" where
  "waiting_ok s p \<longleftrightarrow>
     (\<exists>m. sems s p = Some m \<and> atomic_positive (sem_refcount m) \<and> fence_alive s (signal_fence m))"

text \<open>For releasing it the context need not live.\<close>

definition queued_ok :: "'a cs_state \<Rightarrow> ptr \<Rightarrow> bool" where
  "queued_ok s p \<longleftrightarrow>
     (\<exists>m. sems s p = Some m \<and> atomic_positive (sem_refcount m) \<and> cf_context (signal_fence m) \<noteq> None)"

lemma waiting_queued: "waiting_ok s p \<Longrightarrow> queued_ok s p"
  by (auto simp: waiting_ok_def queued_ok_def fence_alive_def)

definition dep_for :: "'a cs_state \<Rightarrow> amdgpu_cs_fence \<Rightarrow> drm_amdgpu_cs_chunk_dep" where
  "dep_for s f =
     \<lparr>dep_ip_type = cf_ip_type f, dep_ip_instance = cf_ip_instance f, dep_ring = cf_ring f,
      dep_ctx_id = cx_id (the (ctxs s (the (cf_context f)))), dep_handle = cf_fence f\<rparr>"

lemma chunk_fence_to_dep_alive:
  "fence_alive s f \<Longrightarrow> amdgpu_cs_chunk_fence_to_dep s f = Ret (dep_for s f)"
  by (auto simp: fence_alive_def amdgpu_cs_chunk_fence_to_dep_def dep_for_def cs_step)

lemma node_eqI: "nx h' n = nx h n \<Longrightarrow> pv h' n = pv h n \<Longrightarrow> h' n = h n"
  by (cases "h' n"; cases "h n") (auto simp: nx_def pv_def intro: list_head.equality)

lemma reset_sem_signalled:
  assumes "sems s p = Some m" and "cf_context (signal_fence m) \<noteq> None"
  shows "amdgpu_cs_reset_sem (Some p) s = Ret (OK, s\<lparr>sems := (sems s)(p \<mapsto> m\<lparr>signal_fence := no_fence\<rparr>)\<rparr>)"
  using assms by (simp add: amdgpu_cs_reset_sem_def cs_step)

lemma unreference_sem_drop:
  assumes "sems s p = Some m" and "atomic_positive (sem_refcount m)"
  shows "amdgpu_cs_unreference_sem (Some p) s =
    Ret (OK, if sem_refcount m = 1
             then s\<lparr>sems := (sems s)(p := None), cs_lists := (cs_lists s)(SemNode p := None)\<rparr>
             else s\<lparr>sems := (sems s)(p \<mapsto> m\<lparr>sem_refcount := sem_refcount m - 1\<rparr>)\<rparr>)"
proof -
  have c: "cells_of sem_refcount (sems s) p = Some (sem_refcount m)"
    using assms(1) by (simp add: cells_of_Some)
  have w: "with_cells (\<lambda>v m. m\<lparr>sem_refcount := v\<rparr>) (sems s)
      ((cells_of sem_refcount (sems s))(p \<mapsto> sem_refcount m - 1)) =
      (sems s)(p \<mapsto> m\<lparr>sem_refcount := sem_refcount m - 1\<rparr>)"
    by (rule with_cells_one [where get = sem_refcount and x = m and heap = "sems s"])
      (simp_all add: assms(1))
  show ?thesis
    by (simp only: amdgpu_cs_unreference_sem_def option.case assms(2) if_True bind_outcome_simps
        update_references_drop [where cs = "cells_of sem_refcount (sems s)", OF c] prod.case w Let_def)
      simp
qed

lemma release_waiting_front:
  assumes l: "dlist (cs_lists s) head (SemNode p # rest)" and w: "queued_ok s p"
  obtains h' where
    "release_waiting (SemNode p) s = Ret (s\<lparr>sems := release_sems [p] (sems s), cs_lists := h'\<rparr>)"
    "dlist h' head rest" "\<forall>n. n \<notin> set (head # SemNode p # rest) \<longrightarrow> h' n = cs_lists s n"
    "h' (SemNode p) = (if map_option sem_refcount (sems s p) = Some 1 then None else cs_lists s (SemNode p))"
proof -
  obtain m c where m: "sems s p = Some m" "atomic_positive (sem_refcount m)"
      "cf_context (signal_fence m) = Some c"
    using w by (auto simp: queued_ok_def)
  obtain h where h: "list_del (cs_lists s) (SemNode p) = Ret h" "dlist h head rest"
      "\<forall>y. y \<notin> set (head # rest) \<longrightarrow> nx h y = nx (cs_lists s) y \<and> pv h y = pv (cs_lists s) y"
    by (rule dlist_del [of "cs_lists s" head "[]" "SemNode p" rest]) (use l in simp_all)
  have keep: "\<forall>y. y \<notin> set (head # rest) \<longrightarrow> h y = cs_lists s y"
    using h(3) by (blast intro: node_eqI)
  let ?h' = "if sem_refcount m = 1 then h(SemNode p := None) else h"
  have fresh: "SemNode p \<notin> set (head # rest)" using l by (auto simp: dlist_def)
  then have frame: "dlist ?h' head rest"
    by (intro dlist_frame [OF h(2)]) (auto simp: nx_def pv_def)
  let ?s1 = "s\<lparr>cs_lists := h, sems := (sems s)(p \<mapsto> m\<lparr>signal_fence := no_fence\<rparr>)\<rparr>"
  have r: "amdgpu_cs_reset_sem (Some p) (s\<lparr>cs_lists := h\<rparr>) = Ret (OK, ?s1)"
    using reset_sem_signalled [of "s\<lparr>cs_lists := h\<rparr>" p m] m by simp
  have u: "amdgpu_cs_unreference_sem (Some p) ?s1 =
      Ret (OK, s\<lparr>sems := release_sems [p] (sems s), cs_lists := ?h'\<rparr>)"
    using unreference_sem_drop [of ?s1 p "m\<lparr>signal_fence := no_fence\<rparr>"] m
    by (auto simp: release_sems_def sem_released_def fun_eq_iff intro!: cs_state.equality)
  have "release_waiting (SemNode p) s = Ret (s\<lparr>sems := release_sems [p] (sems s), cs_lists := ?h'\<rparr>)"
    by (simp only: release_waiting_def list_node.case h(1) r u bind_outcome_simps prod.case)
  with frame keep fresh m(1) show thesis by (intro that [of ?h']) auto
qed

section \<open>The loop over the waiting semaphores\<close>

lemma waiting_ok_frame:
  "waiting_ok s q \<Longrightarrow> q \<noteq> p \<Longrightarrow> waiting_ok (s\<lparr>sems := release_sems [p] (sems s), cs_lists := h\<rparr>) q"
  by (auto simp: waiting_ok_def fence_alive_def release_sems_def)

definition queued_deps :: "'a cs_state \<Rightarrow> ptr list \<Rightarrow> drm_amdgpu_cs_chunk_dep list" where
  "queued_deps s xs = map (\<lambda>p. dep_for s (signal_fence (the (sems s p)))) xs"

lemma take_fences_all:
  "dlist (cs_lists s) head (map SemNode xs) \<Longrightarrow> \<forall>p\<in>set xs. waiting_ok s p \<Longrightarrow>
     length deps + length xs \<le> room \<Longrightarrow> pos = hd (map SemNode xs @ [head]) \<Longrightarrow>
     xs \<noteq> [] \<longrightarrow> tmp = hd (map SemNode (tl xs) @ [head]) \<Longrightarrow>
     \<exists>h'. take_fences room head pos tmp deps s =
         Some (Ret (deps @ queued_deps s xs, s\<lparr>sems := release_sems xs (sems s), cs_lists := h'\<rparr>))
       \<and> dlist h' head [] \<and> (\<forall>n. n \<notin> set (head # map SemNode xs) \<longrightarrow> h' n = cs_lists s n)"
proof (induction xs arbitrary: s deps pos tmp)
  case Nil
  have "s\<lparr>sems := release_sems [] (sems s), cs_lists := cs_lists s\<rparr> = s"
    by (auto simp: release_sems_def fun_eq_iff intro!: cs_state.equality)
  with Nil show ?case
    by (intro exI [of _ "cs_lists s"]) (simp add: take_fences.simps [of room head head] queued_deps_def)
next
  case (Cons p xs)
  let ?d = "dep_for s (signal_fence (the (sems s p)))"
  obtain h where h: "release_waiting (SemNode p) s = Ret (s\<lparr>sems := release_sems [p] (sems s), cs_lists := h\<rparr>)"
      "dlist h head (map SemNode xs)" "\<forall>n. n \<notin> set (head # SemNode p # map SemNode xs) \<longrightarrow> h n = cs_lists s n"
    by (rule release_waiting_front [of s head p "map SemNode xs"])
      (use Cons.prems(1,2) in \<open>simp_all add: waiting_queued\<close>)
  let ?s' = "s\<lparr>sems := release_sems [p] (sems s), cs_lists := h\<rparr>"
  have dist: "p \<notin> set xs" "head \<noteq> SemNode p" using Cons.prems(1) by (auto simp: dlist_def)
  have step: "take_fence room (SemNode p) deps s = Ret (deps @ [?d], ?s')"
    using Cons.prems(2,3) h(1)
    by (auto simp: take_fence_def cs_step waiting_ok_def chunk_fence_to_dep_alive)
  have tmp: "tmp = hd (map SemNode xs @ [head])" using Cons.prems(5) by simp
  have "tmp \<in> set (head # map SemNode xs)" unfolding tmp by (cases xs) simp_all
  then obtain n where n: "h tmp = Some n" using dlist_nodes [OF h(2), of tmp] by auto
  have nxt: "next n = hd (map SemNode (tl xs) @ [head])" if "xs \<noteq> []"
    using that h(2) n tmp by (cases xs; cases "tl xs") (auto simp: dlist_def nx_def)
  have ok: "\<forall>q\<in>set xs. waiting_ok ?s' q" using Cons.prems(2) dist(1) by (auto intro: waiting_ok_frame)
  have same: "queued_deps ?s' xs = queued_deps s xs"
    using dist(1) by (auto simp: queued_deps_def release_sems_def dep_for_def)
  obtain h' where h': "take_fences room head tmp (next n) (deps @ [?d]) ?s' =
      Some (Ret ((deps @ [?d]) @ queued_deps ?s' xs,
        ?s'\<lparr>sems := release_sems xs (sems ?s'), cs_lists := h'\<rparr>))"
    "dlist h' head []" "\<forall>n. n \<notin> set (head # map SemNode xs) \<longrightarrow> h' n = h n"
    using Cons.IH [of ?s' "deps @ [?d]" tmp "next n"] h(2) ok Cons.prems(3) tmp nxt by auto
  have s: "?s'\<lparr>sems := release_sems xs (sems ?s'), cs_lists := h'\<rparr> =
      s\<lparr>sems := release_sems (p # xs) (sems s), cs_lists := h'\<rparr>"
    using dist(1) by (auto simp: release_sems_def fun_eq_iff intro!: cs_state.equality)
  have "take_fences room head pos tmp deps s =
      Some (Ret (deps @ queued_deps s (p # xs), s\<lparr>sems := release_sems (p # xs) (sems s), cs_lists := h'\<rparr>))"
    using Cons.prems(4) dist(2) n
    by (subst take_fences.simps) (simp add: step h'(1)[unfolded s] same, simp add: queued_deps_def)
  with h'(2,3) h(3) show ?case by (intro exI [of _ h']) auto
qed

section \<open>What a submission sends\<close>

definition bo_alive :: "'a cs_state \<Rightarrow> amdgpu_cs_fence_info \<Rightarrow> bool" where
  "bo_alive s info \<longleftrightarrow> (case fi_handle info of None \<Rightarrow> True | Some p \<Rightarrow> cs_bos s p \<noteq> None)"

definition resources_alive :: "'a cs_state \<Rightarrow> ptr option \<Rightarrow> bool" where
  "resources_alive s r \<longleftrightarrow> (case r of None \<Rightarrow> True | Some p \<Rightarrow> bo_lists s p \<noteq> None)"

text \<open>A request whose arrays are as long as it says, and whose pointers are to living objects.\<close>

definition request_ok :: "'a cs_state \<Rightarrow> amdgpu_cs_request \<Rightarrow> bool" where
  "request_ok s req \<longleftrightarrow>
     ring_index_ok (unat (cr_ip_type req)) (unat (cr_ip_instance req)) (unat (cr_ring req))
   \<and> cr_ibs req \<noteq> [] \<and> unat (number_of_ibs req) = length (cr_ibs req) \<and> length (cr_ibs req) < 2 ^ 32 - 3
   \<and> unat (number_of_dependencies req) = length (cr_dependencies req)
   \<and> list_all (fence_alive s) (cr_dependencies req)
   \<and> bo_alive s (fence_info req) \<and> resources_alive s (cr_resources req)"

definition ring_head :: "ptr \<Rightarrow> amdgpu_cs_request \<Rightarrow> list_node" where
  "ring_head c req = CtxNode c (unat (cr_ip_type req)) (unat (cr_ip_instance req)) (unat (cr_ring req))"

text \<open>
  The chunks by the layout of the accelerant's structures: an IB takes 32 bytes, a user fence 8, a
  dependency 24; lengths of chunks count 4 bytes, sizes of IBs and offsets of fences 4 and 8.
\<close>

definition ib_chunk_for :: "amdgpu_cs_request \<Rightarrow> amdgpu_cs_ib_info \<Rightarrow> drm_amdgpu_cs_chunk" where
  "ib_chunk_for req ib =
     \<lparr>chunk_id = 1, length_dw = 32 div 4,
      chunk_data = ib_data
        \<lparr>ib_pad = 0, ib_flags = word_of_nat (unat (ibi_flags ib) mod 2 ^ 32), ib_va_start = ib_mc_address ib,
         ib_bytes = word_of_nat (4 * unat (ibi_size ib)), ib_ip_type = cr_ip_type req,
         ib_ip_instance = cr_ip_instance req, ib_ring = cr_ring req\<rparr>\<rparr>"

lemma ib_chunk_spec: "ib_chunk req = ib_chunk_for req"
proof
  fix ib
  have "ucast f = (word_of_nat (unat f mod 2 ^ 32) :: u32)" for f :: u64
    by (rule word_unat_eq_iff [THEN iffD2]) (simp add: unat_of_nat unsigned_ucast_eq take_bit_eq_mod)
  then show "ib_chunk req ib = ib_chunk_for req ib"
    by (simp add: ib_chunk_def ib_chunk_for_def AMDGPU_CHUNK_ID_IB_def mult.commute)
qed

definition deps_chunks :: "drm_amdgpu_cs_chunk_dep list \<Rightarrow> drm_amdgpu_cs_chunk list" where
  "deps_chunks deps =
     (if deps = [] then []
      else [\<lparr>chunk_id = 3, length_dw = word_of_nat (24 * length deps div 4), chunk_data = dep_data deps\<rparr>])"

lemma deps_chunks_code: "deps_chunks deps = (if deps = [] then [] else [dep_chunk (of_nat (length deps)) deps])"
  by (simp add: deps_chunks_def dep_chunk_def AMDGPU_CHUNK_ID_DEPENDENCIES_def)

definition fence_chunks :: "'a cs_state \<Rightarrow> amdgpu_cs_request \<Rightarrow> drm_amdgpu_cs_chunk list" where
  "fence_chunks s req =
     (case fi_handle (fence_info req) of
        None \<Rightarrow> []
      | Some p \<Rightarrow>
          [\<lparr>chunk_id = 2, length_dw = 8 div 4,
            chunk_data = fence_data \<lparr>cfe_handle = bo_handle (the (cs_bos s p)),
                                    cfe_offset = word_of_nat (8 * unat (fi_offset (fence_info req)))\<rparr>\<rparr>])"

text \<open>The chunks of a request with the semaphores \<open>xs\<close> waiting on its ring.\<close>

definition request_chunks :: "'a cs_state \<Rightarrow> amdgpu_cs_request \<Rightarrow> ptr list \<Rightarrow> drm_amdgpu_cs_chunk list" where
  "request_chunks s req xs =
     map (ib_chunk_for req) (cr_ibs req) @ fence_chunks s req
     @ deps_chunks (map (dep_for s) (cr_dependencies req)) @ deps_chunks (queued_deps s xs)"

definition list_handle_for :: "'a cs_state \<Rightarrow> amdgpu_cs_request \<Rightarrow> u32" where
  "list_handle_for s req = (case cr_resources req of None \<Rightarrow> 0 | Some p \<Rightarrow> the (bo_lists s p))"

subsection \<open>The arrays on the stack have room for them\<close>

lemma unat_small_add: "unat (a :: u32) + k < 2 ^ 32 \<Longrightarrow> unat (a + of_nat k) = unat a + k"
  by (subst unat_add_less) (simp_all add: unat_of_nat)

lemma rooms:
  assumes "request_ok s req"
  shows "chunks_room req = length (cr_ibs req) + (if user_fence req then 3 else 2)"
    and "chunk_data_room req = length (cr_ibs req) + (if user_fence req then 1 else 0)"
  using assms unat_small_add [of "number_of_ibs req" 3] unat_small_add [of "number_of_ibs req" 2]
    unat_small_add [of "number_of_ibs req" 1]
  by (auto simp: request_ok_def chunks_room_def chunk_data_room_def add.assoc)

lemma fold_put:
  "\<forall>i<n. i < length xs \<Longrightarrow> n \<le> room \<Longrightarrow>
     fold_outcome (\<lambda>i cs. if i < length xs then put_chunk room (f (xs ! i)) cs else Fault) [0..<n] []
     = Ret (map f (take n xs))"
proof (induction n)
  case (Suc n)
  then show ?case
    by (simp add: fold_outcome_append put_chunk_def take_Suc_conv_app_nth)
qed simp

lemma fold_deps:
  "list_all (fence_alive s) xs \<Longrightarrow> n \<le> length xs \<Longrightarrow>
     fold_outcome
       (\<lambda>i deps.
          if i < length xs then
            bind_outcome (amdgpu_cs_chunk_fence_to_dep s (xs ! i)) (\<lambda>d. Ret (deps @ [d]))
          else Fault) [0..<n] []
     = Ret (map (dep_for s) (take n xs))"
proof (induction n)
  case (Suc n)
  then have "amdgpu_cs_chunk_fence_to_dep s (xs ! n) = Ret (dep_for s (xs ! n))"
    by (intro chunk_fence_to_dep_alive) (simp add: list_all_length)
  with Suc show ?case by (simp add: fold_outcome_append take_Suc_conv_app_nth)
qed simp

lemma ib_chunks_ok: "request_ok s req \<Longrightarrow> ib_chunks req = Ret (map (ib_chunk req) (cr_ibs req))"
  using fold_put [of "length (cr_ibs req)" "cr_ibs req" "min (chunks_room req) (chunk_data_room req)" "ib_chunk req"]
  by (simp add: ib_chunks_def rooms) (simp add: request_ok_def)

lemma fence_chunk_ok:
  assumes "request_ok s req" and "length chunks = length (cr_ibs req)"
  shows "fence_chunk s req chunks = Ret (chunks @ fence_chunks s req)"
proof (cases "fi_handle (fence_info req)")
  case None
  then show ?thesis by (simp add: fence_chunk_def user_fence_def fence_chunks_def)
next
  case (Some p)
  then obtain bo where "cs_bos s p = Some bo" using assms(1) by (auto simp: request_ok_def bo_alive_def)
  moreover have "word_of_nat (8 * unat f) = (ucast (f * 8) :: u32)" for f :: u64
    using mod_mult_right_eq [of 8 "unat f" "2 ^ 32"]
    by (simp add: word_unat_eq_iff unsigned_ucast_eq take_bit_eq_mod unat_of_nat unat_word_ariths mod_mod_cancel
        mult.commute)
  ultimately show ?thesis
    using Some assms rooms [OF assms(1)]
    by (simp add: AMDGPU_CHUNK_ID_FENCE_def fence_chunk_def user_fence_def fence_chunks_def put_chunk_def
        amdgpu_cs_chunk_fence_info_to_data_def)
qed

lemma length_fence_chunks: "length (fence_chunks s req) = (if user_fence req then 1 else 0)"
  by (auto simp: fence_chunks_def user_fence_def split: option.splits)

lemma dependency_chunk_ok:
  assumes "request_ok s req" and "length chunks \<le> length (cr_ibs req) + (if user_fence req then 1 else 0)"
  shows "dependency_chunk s req chunks = Ret (chunks @ deps_chunks (map (dep_for s) (cr_dependencies req)))"
proof -
  have n: "unat (number_of_dependencies req) = length (cr_dependencies req)"
    using assms(1) by (simp add: request_ok_def)
  then have "number_of_dependencies req = of_nat (length (cr_dependencies req))"
    by (metis of_nat_unat ucast_id)
  moreover have "number_of_dependencies req = 0 \<longleftrightarrow> cr_dependencies req = []"
    using n by (metis length_0_conv unat_eq_zero)
  moreover have "dep_array s req = Ret (map (dep_for s) (cr_dependencies req))"
    using fold_deps [of s "cr_dependencies req" "length (cr_dependencies req)"] assms(1)
    by (simp add: dep_array_def n) (simp add: request_ok_def)
  moreover have "length chunks < chunks_room req" using assms rooms [OF assms(1)] by auto
  ultimately show ?thesis by (simp add: dependency_chunk_def deps_chunks_code put_chunk_def)
qed

lemma submit_chunks_ok:
  assumes "request_ok s req"
  shows "submit_chunks s req = Ret (list_handle_for s req,
    map (ib_chunk req) (cr_ibs req) @ fence_chunks s req
    @ deps_chunks (map (dep_for s) (cr_dependencies req)))"
proof -
  have "bo_list_handle_of s (cr_resources req) = Ret (list_handle_for s req)"
    using assms by (auto simp: bo_list_handle_of_def list_handle_for_def request_ok_def
        resources_alive_def split: option.splits)
  then show ?thesis
    using ib_chunks_ok [OF assms]
      fence_chunk_ok [OF assms, of "map (ib_chunk req) (cr_ibs req)"]
      dependency_chunk_ok [OF assms, of "map (ib_chunk req) (cr_ibs req) @ fence_chunks s req"]
    by (simp add: submit_chunks_def length_fence_chunks)
qed

lemma semaphore_chunk_ok:
  assumes "request_ok s req" and l: "dlist (cs_lists s) head (map SemNode xs)"
    and w: "\<forall>p\<in>set xs. waiting_ok s p" and len: "length xs < 2 ^ 32"
    and chunks: "length chunks < chunks_room req"
  obtains h' where "semaphore_chunk req head chunks s =
      Some (Ret (chunks @ deps_chunks (queued_deps s xs),
                 s\<lparr>sems := release_sems xs (sems s), cs_lists := h'\<rparr>))"
    "dlist h' head []" "\<forall>n. n \<notin> set (head # map SemNode xs) \<longrightarrow> h' n = cs_lists s n"
proof (cases "xs = []")
  case True
  have "s\<lparr>sems := release_sems xs (sems s), cs_lists := cs_lists s\<rparr> = s"
    using True by (auto simp: release_sems_def fun_eq_iff intro!: cs_state.equality)
  with True l show thesis
    by (intro that [of "cs_lists s"])
      (simp_all add: semaphore_chunk_def dl.entries_law [OF l] deps_chunks_def queued_deps_def)
next
  case False
  have cnt: "unat (of_nat (length xs) :: u32) = length xs" using len by (simp add: unat_of_nat)
  then have cnt0: "(of_nat (length xs) :: u32) \<noteq> 0" using False by (metis length_0_conv unat_0)
  define pos where "pos = hd (map SemNode xs @ [head])"
  define tmp where "tmp = hd (map SemNode (tl xs) @ [head])"
  have n1: "get_next (cs_lists s) head = Ret pos"
    using l False by (cases xs) (auto simp: pos_def dlist_def get_next_nx)
  have n2: "get_next (cs_lists s) pos = Ret tmp"
    using l False by (cases xs; cases "tl xs") (auto simp: pos_def tmp_def dlist_def get_next_nx)
  obtain h' where h': "take_fences (length xs) head pos tmp [] s =
      Some (Ret ([] @ queued_deps s xs, s\<lparr>sems := release_sems xs (sems s), cs_lists := h'\<rparr>))"
    "dlist h' head []" "\<forall>n. n \<notin> set (head # map SemNode xs) \<longrightarrow> h' n = cs_lists s n"
    using take_fences_all [OF l w, of "[]" "length xs" pos tmp] by (auto simp: pos_def tmp_def)
  have "length (queued_deps s xs) = length xs" "queued_deps s xs \<noteq> []"
    using False by (simp_all add: queued_deps_def)
  then have "semaphore_chunk req head chunks s =
      Some (Ret (chunks @ deps_chunks (queued_deps s xs),
                 s\<lparr>sems := release_sems xs (sems s), cs_lists := h'\<rparr>))"
    using False chunks cnt cnt0 h'(1)
    by (simp add: semaphore_chunk_def dl.entries_law [OF l] n1 n2 Let_def put_chunk_def deps_chunks_code)
  with h'(2,3) show thesis using that by blast
qed

text \<open>The state after the accelerant has answered.\<close>

definition submitted_ctxs :: "'a cs_state \<Rightarrow> ptr \<Rightarrow> amdgpu_cs_request \<Rightarrow> u64 \<Rightarrow> (ptr \<rightharpoonup> amdgpu_context)" where
  "submitted_ctxs s c req seq =
     (ctxs s)(c := map_option (\<lambda>cx. cx\<lparr>last_seq := (\<lambda>a b d.
        if a = unat (cr_ip_type req) \<and> b = unat (cr_ip_instance req) \<and> d = unat (cr_ring req) then seq
        else last_seq cx a b d)\<rparr>) (ctxs s c))"

lemma submit_one_ok:
  assumes cx: "ctxs s c = Some cx" and req: "request_ok s req"
    and l: "dlist (cs_lists s) (ring_head c req) (map SemNode xs)"
    and w: "\<forall>p\<in>set xs. waiting_ok s p" and len: "length xs < 2 ^ 32"
    and call: "AmdgpuCsSubmitRaw ops (cs_acc s) (cx_id cx) (list_handle_for s req)
        (of_nat (length (request_chunks s req xs))) (request_chunks s req xs) = (r, seq, a)"
  obtains h' where
    "amdgpu_cs_submit_one ops c req s = Some (Ret (ext_rc r,
       if r = 0 then req\<lparr>cr_seq_no := seq\<rparr> else req,
       s\<lparr>cs_acc := a, sems := release_sems xs (sems s), cs_lists := h',
         ctxs := if r = 0 then submitted_ctxs s c req seq else ctxs s\<rparr>))"
    "dlist h' (ring_head c req) []"
    "\<forall>n. n \<notin> set (ring_head c req # map SemNode xs) \<longrightarrow> h' n = cs_lists s n"
proof -
  let ?chunks = "map (ib_chunk req) (cr_ibs req) @ fence_chunks s req
    @ deps_chunks (map (dep_for s) (cr_dependencies req))"
  have ring: "ring_index_ok (unat (cr_ip_type req)) (unat (cr_ip_instance req)) (unat (cr_ring req))"
    and n: "number_of_ibs req \<noteq> 0"
    using req by (auto simp: request_ok_def)
  then have small: "\<not> cr_ip_type req \<ge> AMDGPU_HW_IP_NUM" "\<not> cr_ring req \<ge> AMDGPU_CS_MAX_RINGS"
    by (simp_all add: ring_index_ok_def word_le_nat_alt)
  have head: "sem_list c (cr_ip_type req) (cr_ip_instance req) (cr_ring req) = Ret (ring_head c req)"
    using ring by (simp add: sem_list_def ring_head_def)
  have "length ?chunks < chunks_room req"
    using rooms [OF req] by (simp add: length_fence_chunks deps_chunks_def)
  then obtain h' where h': "semaphore_chunk req (ring_head c req) ?chunks s =
      Some (Ret (?chunks @ deps_chunks (queued_deps s xs),
                 s\<lparr>sems := release_sems xs (sems s), cs_lists := h'\<rparr>))"
    "dlist h' (ring_head c req) []"
    "\<forall>n. n \<notin> set (ring_head c req # map SemNode xs) \<longrightarrow> h' n = cs_lists s n"
    by (rule semaphore_chunk_ok [OF req l w len])
  let ?s' = "s\<lparr>sems := release_sems xs (sems s), cs_lists := h'\<rparr>"
  have all: "?chunks @ deps_chunks (queued_deps s xs) = request_chunks s req xs"
    by (simp add: request_chunks_def ib_chunk_spec)
  have fin: "submit_finish ops c req (list_handle_for s req) (request_chunks s req xs) ?s' =
      Ret (ext_rc r, if r = 0 then req\<lparr>cr_seq_no := seq\<rparr> else req,
       s\<lparr>cs_acc := a, sems := release_sems xs (sems s), cs_lists := h',
         ctxs := if r = 0 then submitted_ctxs s c req seq else ctxs s\<rparr>)"
    using cx call ring
    by (simp add: submit_finish_def amdgpu_cs_submit_raw2_def cs_step set_last_seq_def submitted_ctxs_def)
  have "amdgpu_cs_submit_one ops c req s =
      Some (submit_finish ops c req (list_handle_for s req) (request_chunks s req xs) ?s')"
    unfolding amdgpu_cs_submit_one_def
    by (simp only: cx n small submit_chunks_ok [OF req] head h'(1) all outcome.case prod.case
        option.distinct if_False simp_thms bind.simps)
  with fin h'(2,3) show thesis using that by metis
qed

section \<open>Contexts come and go\<close>

lemma all_rings_iff: "(i, j, k) \<in> set all_rings \<longleftrightarrow> ring_index_ok i j k"
  by (auto simp: all_rings_def ring_index_ok_def image_iff)

lemma list_inithead_node:
  assumes "n \<in> dom h"
  shows "list_inithead h n = Ret (h(n \<mapsto> \<lparr>prev = n, next = n\<rparr>))"
proof -
  obtain p q where "h n = Some \<lparr>prev = p, next = q\<rparr>" using assms by (metis domD list_head.cases)
  then show ?thesis by (simp add: list_inithead_def set_prev_def set_next_def)
qed

lemma init_heads_fold:
  "\<forall>(i, j, k)\<in>set rs. CtxNode c i j k \<in> dom h \<Longrightarrow>
     fold_outcome (\<lambda>(i, j, k) h. list_inithead h (CtxNode c i j k)) rs h =
     Ret (\<lambda>n. case n of
            CtxNode c' i j k \<Rightarrow> if c' = c \<and> (i, j, k) \<in> set rs then Some \<lparr>prev = n, next = n\<rparr> else h n
          | _ \<Rightarrow> h n)"
proof (induction rs arbitrary: h)
  case Nil
  show ?case by (auto split: list_node.splits)
next
  case (Cons r rs)
  obtain i j k where r: "r = (i, j, k)" by (cases r)
  let ?n = "CtxNode c i j k"
  let ?h = "h(?n \<mapsto> \<lparr>prev = ?n, next = ?n\<rparr>)"
  have n: "?n \<in> dom h" using Cons.prems r by auto
  have "\<forall>(a, b, d)\<in>set rs. CtxNode c a b d \<in> dom ?h" using Cons.prems by auto
  note IH = Cons.IH [OF this]
  show ?case
    by (simp only: r fold_outcome.simps prod.case list_inithead_node [OF n] bind_outcome_simps IH)
      (auto simp: fun_eq_iff split: list_node.splits)
qed

lemma init_heads_fresh:
  "init_heads c (alloc_heads c h) =
     Ret (\<lambda>n. case n of
            CtxNode c' i j k \<Rightarrow>
              if c' = c \<and> ring_index_ok i j k then Some \<lparr>prev = n, next = n\<rparr> else h n
          | _ \<Rightarrow> h n)"
proof -
  have "\<forall>(i, j, k)\<in>set all_rings. CtxNode c i j k \<in> dom (alloc_heads c h)"
    by (auto simp: all_rings_iff alloc_heads_def)
  then show ?thesis
    unfolding init_heads_def
    by (subst init_heads_fold) (auto simp: all_rings_iff alloc_heads_def fun_eq_iff split: list_node.splits)
qed

lemma dlist_self: "h n = Some \<lparr>prev = n, next = n\<rparr> \<Longrightarrow> dlist h n []"
  by (simp add: dlist_def nx_def pv_def)

lemma ctx_free_empty_rings:
  "\<forall>(i, j, k)\<in>set rs. dlist (cs_lists s) (CtxNode c i j k) [] \<Longrightarrow>
     ctx_free_rings c (rs @ rs') s = ctx_free_rings c rs' s"
proof (induction rs)
  case (Cons r rs)
  obtain i j k where r: "r = (i, j, k)" by (cases r)
  have "dlist (cs_lists s) (CtxNode c i j k) []" using Cons.prems r by auto
  then obtain n where "cs_lists s (CtxNode c i j k) = Some n" "next n = CtxNode c i j k"
    by (auto simp: dlist_def nx_def)
  with Cons r show ?case by (simp add: ctx_free_list.simps [of "CtxNode c i j k" "CtxNode c i j k"])
qed simp

lemma free_heads_fresh:
  "\<forall>i j k. h (CtxNode c i j k) = None \<Longrightarrow>
     free_heads c (\<lambda>n. case n of
            CtxNode c' i j k \<Rightarrow>
              if c' = c \<and> ring_index_ok i j k then Some \<lparr>prev = n, next = n\<rparr> else h n
          | _ \<Rightarrow> h n) = h"
  by (auto simp: free_heads_def fun_eq_iff split: list_node.splits)

section \<open>Signalling and waiting\<close>

lemma signal_semaphore_ok:
  assumes "ring_index_ok (unat t) (unat i) (unat k)" and "ctxs s c = Some cx" and "sems s p = Some m"
    and "cf_context (signal_fence m) = None" and "atomic_positive (sem_refcount m)"
  shows "amdgpu_cs_signal_semaphore (Some c) t i k (Some p) s =
    Ret (OK, s\<lparr>sems := (sems s)(p \<mapsto>
      \<lparr>sem_refcount = sem_refcount m + 1,
       signal_fence = \<lparr>cf_context = Some c, cf_ip_type = t, cf_ip_instance = i, cf_ring = k,
                       cf_fence = last_seq cx (unat t) (unat i) (unat k)\<rparr>\<rparr>)\<rparr>)"
proof -
  let ?m = "\<lparr>sem_refcount = sem_refcount m,
       signal_fence = \<lparr>cf_context = Some c, cf_ip_type = t, cf_ip_instance = i, cf_ring = k,
                       cf_fence = last_seq cx (unat t) (unat i) (unat k)\<rparr>\<rparr>"
  let ?heap = "(sems s)(p \<mapsto> ?m)"
  have small: "\<not> t \<ge> AMDGPU_HW_IP_NUM" "\<not> k \<ge> AMDGPU_CS_MAX_RINGS"
    using assms(1) by (simp_all add: ring_index_ok_def word_le_nat_alt)
  have cell: "cells_of sem_refcount ?heap p = Some (sem_refcount m)" by (simp add: cells_of_def)
  have "with_cells (\<lambda>v m. m\<lparr>sem_refcount := v\<rparr>) ?heap ((cells_of sem_refcount ?heap)(p \<mapsto> sem_refcount m + 1)) =
      ?heap(p \<mapsto> ?m\<lparr>sem_refcount := sem_refcount m + 1\<rparr>)"
    by (rule with_cells_one [where get = sem_refcount]) simp_all
  then have u: "update_references (cells_of sem_refcount ?heap) None (Some p) =
      Ret (False, (cells_of sem_refcount ?heap)(p \<mapsto> sem_refcount m + 1))"
    and w: "with_cells (\<lambda>v m. m\<lparr>sem_refcount := v\<rparr>) ?heap
      ((cells_of sem_refcount ?heap)(p \<mapsto> sem_refcount m + 1)) =
      (sems s)(p \<mapsto> ?m\<lparr>sem_refcount := sem_refcount m + 1\<rparr>)"
    using update_references_take [where cs = "cells_of sem_refcount ?heap", OF cell] assms(5) by simp_all
  have upd: "m\<lparr>signal_fence := f\<rparr> = \<lparr>sem_refcount = sem_refcount m, signal_fence = f\<rparr>" for f
    by (cases m) simp
  show ?thesis
    using assms(1)
    by (simp only: amdgpu_cs_signal_semaphore_def prod.case option.case small if_False cs_step assms(2-4)
        get_last_seq_def if_True bind_outcome_simps Let_def upd u w simp_thms) simp
qed

lemma wait_semaphore_ok:
  assumes "ring_index_ok (unat t) (unat i) (unat k)" and "ctxs s c = Some cx" and "sems s p = Some m"
    and "cf_context (signal_fence m) \<noteq> None"
    and "list_add (cs_lists s) (SemNode p) (CtxNode c (unat t) (unat i) (unat k)) = Ret h"
  shows "amdgpu_cs_wait_semaphore (Some c) t i k (Some p) s = Ret (OK, s\<lparr>cs_lists := h\<rparr>)"
proof -
  have "\<not> t \<ge> AMDGPU_HW_IP_NUM" "\<not> k \<ge> AMDGPU_CS_MAX_RINGS"
    using assms(1) by (simp_all add: ring_index_ok_def word_le_nat_alt)
  with assms show ?thesis by (simp add: amdgpu_cs_wait_semaphore_def cs_step sem_list_def)
qed

section \<open>A small system\<close>

text \<open>
  An accelerant that remembers the last submission, a context, a buffer and two signalled semaphores
  waiting on ring 0 of the graphics engine; the second one belongs to the first context only.
\<close>

type_synonym demo_acc = "(u32 \<times> drm_amdgpu_cs_chunk list) option"

definition demo_cs_ops :: "demo_acc cs_ops" where
  "demo_cs_ops =
     \<lparr>AmdgpuCtxRaw = (\<lambda>a inp. (0, \<lparr>alloc_ctx_id = 7, state_flags = 0, state_hangs = 0,
                                  state_reset_status = 0, pstate_flags = 0\<rparr>, a)),
      AmdgpuCsSubmitRaw = (\<lambda>a ctx bl n cs. (0, 42, Some (n, cs))),
      AmdgpuWaitCs = (\<lambda>a ctx ip inst ring h t. (0, t \<le> 5000000000, a)),
      clock_monotonic = (\<lambda>a. (0, 3, 500, a))\<rparr>"

definition demo_cs_fence :: amdgpu_cs_fence where
  "demo_cs_fence = \<lparr>cf_context = Some 1, cf_ip_type = 2, cf_ip_instance = 0, cf_ring = 1, cf_fence = 9\<rparr>"

definition demo_head :: list_node where "demo_head = CtxNode 1 0 0 0"

definition demo_cs :: "demo_acc cs_state" where
  "demo_cs =
     \<lparr>cs_acc = None,
      ctxs = [1 \<mapsto> \<lparr>cx_id = 7, last_seq = (\<lambda>_ _ _. 0)\<rparr>],
      sems = [5 \<mapsto> \<lparr>sem_refcount = 2, signal_fence = demo_cs_fence\<rparr>,
              6 \<mapsto> \<lparr>sem_refcount = 1, signal_fence = demo_cs_fence\<lparr>cf_fence := 8\<rparr>\<rparr>,
              8 \<mapsto> \<lparr>sem_refcount = 2, signal_fence = demo_cs_fence\<rparr>],
      cs_lists = (\<lambda>n. case n of
         CtxNode c i j k \<Rightarrow>
           if c = 1 \<and> ring_index_ok i j k then
             (if i = 0 \<and> k = 0 then Some \<lparr>prev = SemNode 5, next = SemNode 6\<rparr>
              else Some \<lparr>prev = n, next = n\<rparr>)
           else None
       | SemNode p \<Rightarrow>
           if p = 5 then Some \<lparr>prev = SemNode 6, next = demo_head\<rparr>
           else if p = 6 then Some \<lparr>prev = demo_head, next = SemNode 5\<rparr>
           else if p = 8 then Some \<lparr>prev = NullNode, next = NullNode\<rparr>
           else None
       | NullNode \<Rightarrow> None),
      cs_bos = [3 \<mapsto> \<lparr>bo_refcount = 1, bo_alloc_size = 4096, bo_handle = 11, bo_flink_name = 0,
                     bo_cpu_ptr = 0, bo_cpu_map_count = 0\<rparr>],
      bo_lists = Map.empty\<rparr>"

definition demo_req :: amdgpu_cs_request where
  "demo_req =
     \<lparr>cr_flags = 0, cr_ip_type = 0, cr_ip_instance = 0, cr_ring = 0, cr_resources = None,
      number_of_dependencies = 1, cr_dependencies = [demo_cs_fence\<lparr>cf_fence := 3\<rparr>],
      number_of_ibs = 2, cr_ibs = [\<lparr>ibi_flags = 0, ib_mc_address = 0x1000, ibi_size = 16\<rparr>,
                                  \<lparr>ibi_flags = 1, ib_mc_address = 0x2000, ibi_size = 4\<rparr>],
      cr_seq_no = 0, fence_info = \<lparr>fi_handle = Some 3, fi_offset = 2\<rparr>\<rparr>"

lemmas demo_cs_defs = demo_cs_def demo_req_def demo_cs_fence_def demo_head_def demo_cs_ops_def

lemma demo_request_ok: "request_ok demo_cs demo_req"
  by (simp add: request_ok_def demo_cs_defs ring_index_ok_def AMDGPU_HW_IP_NUM_def
      AMDGPU_HW_IP_INSTANCE_MAX_COUNT_def AMDGPU_CS_MAX_RINGS_def fence_alive_def bo_alive_def resources_alive_def)

lemma demo_queue: "dlist (cs_lists demo_cs) (ring_head 1 demo_req) (map SemNode [6, 5])"
  by (simp add: dlist_def nx_def pv_def ring_head_def demo_cs_defs ring_index_ok_def AMDGPU_HW_IP_NUM_def
      AMDGPU_HW_IP_INSTANCE_MAX_COUNT_def AMDGPU_CS_MAX_RINGS_def)

lemma demo_waiting: "\<forall>p\<in>set [6, 5]. waiting_ok demo_cs p"
  by (simp add: waiting_ok_def fence_alive_def atomic_positive_iff demo_cs_defs)

lemma demo_ctx: "ctxs demo_cs 1 = Some \<lparr>cx_id = 7, last_seq = (\<lambda>_ _ _. 0)\<rparr>"
  by (simp add: demo_cs_def)

lemma request_ok_lists [simp]: "request_ok (s\<lparr>cs_lists := h\<rparr>) req = request_ok s req"
proof -
  have "fence_alive (s\<lparr>cs_lists := h\<rparr>) = fence_alive s" by (simp add: fence_alive_def fun_eq_iff)
  then show ?thesis
    by (simp add: request_ok_def bo_alive_def resources_alive_def split: option.split)
qed

section \<open>Properties\<close>

text \<open>
  A fence of a semaphore holds a bare pointer to the context that signalled it, and nothing clears it
  when that context is freed: a submission that meets such a semaphore reads the freed context.
\<close>

theorem submit_reads_freed_context:
  assumes "ctxs s c = Some cx" and "request_ok s req"
    and "dlist (cs_lists s) (ring_head c req) (map SemNode (p # xs))" and "length (p # xs) < 2 ^ 32"
    and "sems s p = Some m" and "cf_context (signal_fence m) = Some c'" and "ctxs s c' = None"
  shows "amdgpu_cs_submit_one ops c req s = Some Fault"
proof -
  let ?head = "ring_head c req"
  have ring: "ring_index_ok (unat (cr_ip_type req)) (unat (cr_ip_instance req)) (unat (cr_ring req))"
    and n: "number_of_ibs req \<noteq> 0"
    using assms(2) by (auto simp: request_ok_def)
  then have small: "\<not> cr_ip_type req \<ge> AMDGPU_HW_IP_NUM" "\<not> cr_ring req \<ge> AMDGPU_CS_MAX_RINGS"
    and head: "sem_list c (cr_ip_type req) (cr_ip_instance req) (cr_ring req) = Ret ?head"
    by (simp_all add: ring_index_ok_def word_le_nat_alt sem_list_def ring_head_def)
  have "unat (of_nat n :: u32) = n" if "n < 2 ^ 32" for n using that by (simp add: unat_of_nat)
  from this [OF assms(4)] have cnt: "(of_nat (length (p # xs)) :: u32) \<noteq> 0"
    by (metis list.distinct(1) length_0_conv unat_0)
  obtain tmp where tmp: "get_next (cs_lists s) ?head = Ret (SemNode p)" "get_next (cs_lists s) (SemNode p) = Ret tmp"
    using assms(3) by (cases xs) (auto simp: dlist_def get_next_nx)
  have "?head \<noteq> SemNode p" by (simp add: ring_head_def)
  then have "take_fences room ?head (SemNode p) tmp [] s = Some Fault" for room
    using assms(5-7)
    by (subst take_fences.simps) (simp add: take_fence_def cs_step amdgpu_cs_chunk_fence_to_dep_def)
  then have "semaphore_chunk req ?head chunks s = Some Fault" for chunks
    using cnt tmp dl.entries_law [OF assms(3)] by (simp add: semaphore_chunk_def Let_def)
  then show ?thesis
    unfolding amdgpu_cs_submit_one_def
    by (simp add: assms(1) n small submit_chunks_ok [OF assms(2)] head)
qed

theorem submit_reads_freed_context_witness:
  "amdgpu_cs_submit_one demo_cs_ops 1 demo_req
     (demo_cs\<lparr>sems := (sems demo_cs)(6 \<mapsto> \<lparr>sem_refcount = 1, signal_fence = demo_cs_fence\<lparr>cf_context := Some 9\<rparr>\<rparr>)\<rparr>)
   = Some Fault"
proof -
  let ?m = "\<lparr>sem_refcount = 1, signal_fence = demo_cs_fence\<lparr>cf_context := Some 9\<rparr>\<rparr>"
  let ?s = "demo_cs\<lparr>sems := (sems demo_cs)(6 \<mapsto> ?m)\<rparr>"
  have "fence_alive ?s = fence_alive demo_cs" by (simp add: fence_alive_def fun_eq_iff)
  then have "request_ok ?s demo_req"
    using demo_request_ok by (simp add: request_ok_def bo_alive_def resources_alive_def cong: option.case_cong)
  then show ?thesis
    using submit_reads_freed_context [of ?s 1 _ demo_req 6 "[5]" ?m 9 demo_cs_ops] demo_queue demo_ctx
    by (simp add: demo_cs_def)
qed

text \<open>C8. A submission returns and hands the accelerant exactly its IBs, its user fence, its dependencies
  and the fences of the semaphores \<open>xs\<close> waiting on its ring, in the order of the list, when the
  request is well formed (its arrays are as long as it says and its pointers are to living objects),
  every waiting semaphore has a reference to drop and the context that signalled it is still there, and
  there are fewer than 2^32 of them (with the signalling context freed, the submission reads
  freed memory: \<open>submit_reads_freed_context\<close>). The arrays on its stack are large enough for every
  number of IBs below 2^32 - 3. Afterwards nothing waits on the ring, each of the semaphores is unsignalled
  and has lost one reference, whether the accelerant accepted the submission or not; on success
  the sequence number is in the request and in the context; everything else is as before.\<close>

theorem submit_passes_fences:
  assumes "ctxs s c = Some cx" and "request_ok s req"
    and "dlist (cs_lists s) (ring_head c req) (map SemNode xs)"
    and "\<forall>p\<in>set xs. waiting_ok s p" and "length xs < 2 ^ 32"
    and "AmdgpuCsSubmitRaw ops (cs_acc s) (cx_id cx) (list_handle_for s req)
        (of_nat (length (request_chunks s req xs))) (request_chunks s req xs) = (r, seq, a)"
  shows "\<exists>h'. amdgpu_cs_submit_one ops c req s = Some (Ret (ext_rc r,
       if r = 0 then req\<lparr>cr_seq_no := seq\<rparr> else req,
       s\<lparr>cs_acc := a, sems := release_sems xs (sems s), cs_lists := h',
         ctxs := if r = 0 then submitted_ctxs s c req seq else ctxs s\<rparr>))
    \<and> dlist h' (ring_head c req) []
    \<and> (\<forall>n. n \<notin> set (ring_head c req # map SemNode xs) \<longrightarrow> h' n = cs_lists s n)"
  by (rule submit_one_ok [OF assms]) blast

theorem submit_passes_fences_witness:
  "\<exists>req' s'. amdgpu_cs_submit_one demo_cs_ops 1 demo_req demo_cs = Some (Ret (OK, req', s'))
     \<and> cr_seq_no req' = 42 \<and> map_option fst (cs_acc s') = Some 5
     \<and> sems s' 6 = None \<and> sems s' 5 = Some \<lparr>sem_refcount = 1, signal_fence = no_fence\<rparr>"
proof -
  have "AmdgpuCsSubmitRaw demo_cs_ops (cs_acc demo_cs) (cx_id \<lparr>cx_id = 7, last_seq = (\<lambda>_ _ _. 0)\<rparr>)
      (list_handle_for demo_cs demo_req) (of_nat (length (request_chunks demo_cs demo_req [6, 5])))
      (request_chunks demo_cs demo_req [6, 5])
    = (0, 42, Some (of_nat (length (request_chunks demo_cs demo_req [6, 5])),
                    request_chunks demo_cs demo_req [6, 5]))"
    by (simp add: demo_cs_ops_def)
  note r = submit_passes_fences [OF demo_ctx demo_request_ok demo_queue demo_waiting _ this]
  moreover have "length (request_chunks demo_cs demo_req [6, 5]) = 5"
    by (simp add: request_chunks_def fence_chunks_def deps_chunks_def queued_deps_def demo_req_def)
  moreover have "release_sems [6, 5] (sems demo_cs) 6 = None"
    "release_sems [6, 5] (sems demo_cs) 5 = Some \<lparr>sem_refcount = 1, signal_fence = no_fence\<rparr>"
    by (simp_all add: release_sems_def sem_released_def demo_cs_def)
  ultimately show ?thesis by auto
qed

text \<open>C18. Waiting twice on the same signalled semaphore is accepted both times, but links its list
  entry to itself: the next submission on that ring never returns.\<close>

theorem wait_twice_submit_hangs:
  assumes "ctxs s c = Some cx" and "request_ok s req"
    and "dlist (cs_lists s) (ring_head c req) (map SemNode xs)"
    and "p \<notin> set xs" and "SemNode p \<in> dom (cs_lists s)"
    and "sems s p = Some m" and "cf_context (signal_fence m) \<noteq> None"
  shows "\<exists>s1 s2.
      amdgpu_cs_wait_semaphore (Some c) (cr_ip_type req) (cr_ip_instance req) (cr_ring req) (Some p) s = Ret (OK, s1)
    \<and> amdgpu_cs_wait_semaphore (Some c) (cr_ip_type req) (cr_ip_instance req) (cr_ring req) (Some p) s1 = Ret (OK, s2)
    \<and> amdgpu_cs_submit_one ops c req s2 = None"
proof -
  let ?head = "ring_head c req"
  have ring: "ring_index_ok (unat (cr_ip_type req)) (unat (cr_ip_instance req)) (unat (cr_ring req))"
    using assms(2) by (simp add: request_ok_def)
  obtain h1 where h1: "list_add (cs_lists s) (SemNode p) ?head = Ret h1"
      "dlist h1 ?head (map SemNode (p # xs))" "dom h1 = dom (cs_lists s)"
    by (rule dlist_add [of "cs_lists s" ?head "[]" "map SemNode xs" "SemNode p"])
      (use assms(3-5) in \<open>auto simp: ring_head_def\<close>)
  have n1: "nx h1 ?head = Some (SemNode p)" using h1(2) by (simp add: dlist_def)
  obtain h2 where h2: "list_add h1 (SemNode p) ?head = Ret h2"
      "nx h2 = (nx h1)(SemNode p \<mapsto> SemNode p, ?head \<mapsto> SemNode p)"
    by (rule list_add_effect [OF _ n1]) (use assms(5) h1(3) in \<open>auto simp: ring_head_def\<close>)
  let ?s1 = "s\<lparr>cs_lists := h1\<rparr>" and ?s2 = "s\<lparr>cs_lists := h2\<rparr>"
  have w1: "amdgpu_cs_wait_semaphore (Some c) (cr_ip_type req) (cr_ip_instance req) (cr_ring req) (Some p) s = Ret (OK, ?s1)"
    by (rule wait_semaphore_ok [OF ring assms(1,6,7)]) (use h1(1) in \<open>simp add: ring_head_def\<close>)
  have w2: "amdgpu_cs_wait_semaphore (Some c) (cr_ip_type req) (cr_ip_instance req) (cr_ring req) (Some p) ?s1 = Ret (OK, ?s2)"
    using wait_semaphore_ok [OF ring, of ?s1 c cx p m h2] assms(1,6,7) h2(1) by (simp add: ring_head_def)
  have "SemNode p \<noteq> ?head" by (simp add: ring_head_def)
  then have "nx h2 (SemNode p) = Some (SemNode p)" "nx h2 ?head = Some (SemNode p)"
    unfolding h2(2) by simp_all
  then obtain n m where "h2 (SemNode p) = Some n" "next n = SemNode p" "h2 ?head = Some m" "next m = SemNode p"
    unfolding nx_def map_option_eq_Some by blast
  then have "LIST_FOR_EACH_ENTRY h2 ?head = None"
    using entries_from_self [of h2 "SemNode p" n ?head] \<open>SemNode p \<noteq> ?head\<close>
    by (simp add: LIST_FOR_EACH_ENTRY_def)
  moreover have "request_ok ?s2 req" using assms(2) by simp
  moreover have "sem_list c (cr_ip_type req) (cr_ip_instance req) (cr_ring req) = Ret ?head"
    using ring by (simp add: sem_list_def ring_head_def)
  ultimately have "amdgpu_cs_submit_one ops c req ?s2 = None"
    using assms(1,2) ring
    by (auto simp: amdgpu_cs_submit_one_def submit_chunks_ok semaphore_chunk_def request_ok_def
        ring_index_ok_def word_le_nat_alt)
  with w1 w2 show ?thesis by blast
qed

theorem wait_twice_submit_hangs_witness:
  "\<exists>s1 s2. amdgpu_cs_wait_semaphore (Some 1) 0 0 0 (Some 8) demo_cs = Ret (OK, s1)
    \<and> amdgpu_cs_wait_semaphore (Some 1) 0 0 0 (Some 8) s1 = Ret (OK, s2)
    \<and> amdgpu_cs_submit_one demo_cs_ops 1 demo_req s2 = None"
proof -
  have req: "cr_ip_type demo_req = 0" "cr_ip_instance demo_req = 0" "cr_ring demo_req = 0"
    by (simp_all add: demo_req_def)
  have sem: "SemNode 8 \<in> dom (cs_lists demo_cs)"
    "sems demo_cs 8 = Some \<lparr>sem_refcount = 2, signal_fence = demo_cs_fence\<rparr>"
    by (simp_all add: demo_cs_def dom_def)
  show ?thesis
    by (rule wait_twice_submit_hangs [OF demo_ctx demo_request_ok demo_queue _ sem, where ops = demo_cs_ops,
          unfolded req]) (simp_all add: demo_cs_fence_def)
qed

subsection \<open>Freeing a context with waiting semaphores\<close>

text \<open>No semaphore waits on two rings: its one entry leads to one head.\<close>

lemma seg_same_end:
  "seg h (SemNode p) (map SemNode xs) (CtxNode a i j k) \<Longrightarrow>
   seg h (SemNode p) (map SemNode ys) (CtxNode b i' j' k') \<Longrightarrow> (a, i, j, k) = (b, i', j', k')"
proof (induction xs arbitrary: p ys)
  case Nil
  then show ?case by (cases ys) auto
next
  case (Cons x xs)
  then show ?case by (cases ys) auto
qed

lemma queues_disjoint:
  assumes "dlist h (CtxNode a i j k) (map SemNode xs)" and "dlist h (CtxNode b i' j' k') (map SemNode ys)"
    and "(a, i, j, k) \<noteq> (b, i', j', k')"
  shows "set xs \<inter> set ys = {}"
proof (rule ccontr)
  assume "set xs \<inter> set ys \<noteq> {}"
  then obtain p us vs us' vs' where "xs = us @ p # vs" "ys = us' @ p # vs'" by (meson disjoint_iff split_list)
  with assms(1,2) have "seg h (SemNode p) (map SemNode vs) (CtxNode a i j k)"
    "seg h (SemNode p) (map SemNode vs') (CtxNode b i' j' k')" by (simp_all add: dlist_def)
  from seg_same_end [OF this] assms(3) show False by simp
qed

definition last_ref :: "'a cs_state \<Rightarrow> ptr \<Rightarrow> bool" where
  "last_ref s p \<longleftrightarrow> map_option sem_refcount (sems s p) = Some 1"

lemma queued_ok_frame:
  "q \<noteq> p \<Longrightarrow> queued_ok (s\<lparr>sems := release_sems [p] (sems s), cs_lists := h\<rparr>) q = queued_ok s q"
  "q \<notin> set xs \<Longrightarrow> queued_ok (s\<lparr>sems := release_sems xs (sems s), cs_lists := h\<rparr>) q = queued_ok s q"
  "q \<notin> set xs \<Longrightarrow> last_ref (s\<lparr>sems := release_sems xs (sems s), cs_lists := h\<rparr>) q = last_ref s q"
  by (simp_all add: queued_ok_def release_sems_def last_ref_def)

lemma ctx_free_list_result:
  "dlist (cs_lists s) head (map SemNode xs) \<Longrightarrow> \<forall>p\<in>set xs. queued_ok s p \<Longrightarrow>
     pos = hd (map SemNode xs @ [head]) \<Longrightarrow>
     if \<exists>p\<in>set xs. last_ref s p then ctx_free_list head pos s = Some Fault
     else \<exists>h'. ctx_free_list head pos s = Some (Ret (s\<lparr>sems := release_sems xs (sems s), cs_lists := h'\<rparr>))
       \<and> (\<forall>n. n \<notin> set (head # map SemNode xs) \<longrightarrow> h' n = cs_lists s n)"
proof (induction xs arbitrary: s pos)
  case Nil
  have "s\<lparr>sems := release_sems [] (sems s), cs_lists := cs_lists s\<rparr> = s"
    by (auto simp: release_sems_def fun_eq_iff intro!: cs_state.equality)
  with Nil show ?case by (auto simp: ctx_free_list.simps [of head head] intro!: exI [of _ "cs_lists s"])
next
  case (Cons p xs)
  obtain h where h: "release_waiting (SemNode p) s = Ret (s\<lparr>sems := release_sems [p] (sems s), cs_lists := h\<rparr>)"
      "dlist h head (map SemNode xs)" "\<forall>n. n \<notin> set (head # SemNode p # map SemNode xs) \<longrightarrow> h n = cs_lists s n"
      "h (SemNode p) = (if last_ref s p then None else cs_lists s (SemNode p))"
    by (rule release_waiting_front [of s head p "map SemNode xs"])
      (use Cons.prems(1,2) in \<open>simp_all add: last_ref_def\<close>)
  let ?s' = "s\<lparr>sems := release_sems [p] (sems s), cs_lists := h\<rparr>"
  have dist: "p \<notin> set xs" "head \<noteq> SemNode p" using Cons.prems(1) by (auto simp: dlist_def)
  obtain n where n: "cs_lists s (SemNode p) = Some n" "next n = hd (map SemNode xs @ [head])"
    using Cons.prems(1) by (cases xs) (auto simp: dlist_def nx_def)
  show ?case
  proof (cases "last_ref s p")
    case True
    with Cons.prems(3) h(1,4) dist(2) show ?thesis by (subst ctx_free_list.simps) simp
  next
    case False
    have step: "ctx_free_list head pos s = ctx_free_list head (hd (map SemNode xs @ [head])) ?s'"
      using Cons.prems(3) h(1,4) dist(2) n False by (subst ctx_free_list.simps) simp
    have "last_ref ?s' q = last_ref s q" if "q \<in> set xs" for q
      using that dist(1) queued_ok_frame(3) [of q "[p]" h s] by auto
    with False have same: "(\<exists>q\<in>set (p # xs). last_ref s q) \<longleftrightarrow> (\<exists>q\<in>set xs. last_ref ?s' q)" by auto
    have ok: "\<forall>q\<in>set xs. queued_ok ?s' q"
      using Cons.prems(2) dist(1) queued_ok_frame(2) [of _ "[p]" h s] by fastforce
    have rel: "release_sems xs (release_sems [p] (sems s)) = release_sems (p # xs) (sems s)"
      using dist(1) by (auto simp: release_sems_def fun_eq_iff)
    note IH = Cons.IH [of ?s' "hd (map SemNode xs @ [head])", simplified, OF h(2) ok]
    show ?thesis
    proof (cases "\<exists>q\<in>set xs. last_ref ?s' q")
      case True
      with IH same step show ?thesis by simp
    next
      case none: False
      with IH obtain h' where "ctx_free_list head (hd (map SemNode xs @ [head])) ?s' =
          Some (Ret (s\<lparr>sems := release_sems (p # xs) (sems s), cs_lists := h'\<rparr>))"
        "\<forall>n. n \<noteq> head \<and> n \<notin> SemNode ` set xs \<longrightarrow> h' n = h n" by (auto simp: rel)
      with none same step h(3) show ?thesis by (auto intro!: exI [of _ h'])
    qed
  qed
qed

type_synonym ring_queues = "nat \<times> nat \<times> nat \<Rightarrow> ptr list"

definition ring_holds :: "'a cs_state \<Rightarrow> ptr \<Rightarrow> ring_queues \<Rightarrow> nat \<times> nat \<times> nat \<Rightarrow> bool" where
  "ring_holds s c q r \<longleftrightarrow>
     (case r of (i, j, k) \<Rightarrow> dlist (cs_lists s) (CtxNode c i j k) (map SemNode (q r)))
     \<and> (\<forall>p\<in>set (q r). queued_ok s p)"

definition rings_hold :: "'a cs_state \<Rightarrow> ptr \<Rightarrow> ring_queues \<Rightarrow> (nat \<times> nat \<times> nat) set \<Rightarrow> bool" where
  "rings_hold s c q rs \<longleftrightarrow> (\<forall>r\<in>rs. ring_holds s c q r)"

lemma rings_hold_after:
  assumes hold: "rings_hold s c q (insert r rs)" and r: "r = (i, j, k)" "r \<notin> rs"
    and frame: "\<forall>n. n \<notin> set (CtxNode c i j k # map SemNode (q r)) \<longrightarrow> h n = cs_lists s n"
  shows "rings_hold (s\<lparr>sems := release_sems (q r) (sems s), cs_lists := h\<rparr>) c q rs"
    and "\<forall>r'\<in>rs. set (q r) \<inter> set (q r') = {}"
proof -
  let ?s' = "s\<lparr>sems := release_sems (q r) (sems s), cs_lists := h\<rparr>"
  have l: "dlist (cs_lists s) (CtxNode c i j k) (map SemNode (q r))"
    using hold r(1) by (simp add: rings_hold_def ring_holds_def)
  have each: "ring_holds ?s' c q r' \<and> set (q r) \<inter> set (q r') = {}" if r': "r' \<in> rs" for r'
  proof (cases r')
    case (fields a b d)
    have l': "dlist (cs_lists s) (CtxNode c a b d) (map SemNode (q r'))" and ok: "\<forall>p\<in>set (q r'). queued_ok s p"
      using hold r' fields by (auto simp: rings_hold_def ring_holds_def)
    have disj: "set (q r) \<inter> set (q r') = {}" using queues_disjoint [OF l l'] r r' fields by auto
    have "\<forall>n\<in>set (CtxNode c a b d # map SemNode (q r')). h n = cs_lists s n"
      using frame disj r r' fields by auto
    then have "dlist h (CtxNode c a b d) (map SemNode (q r'))"
      by (intro dlist_frame [OF l']) (simp add: nx_def pv_def)
    moreover have "\<forall>p\<in>set (q r'). queued_ok ?s' p" using ok disj queued_ok_frame(2) by blast
    ultimately show ?thesis using disj fields by (simp add: ring_holds_def)
  qed
  then show "rings_hold ?s' c q rs" and "\<forall>r'\<in>rs. set (q r) \<inter> set (q r') = {}"
    by (simp_all add: rings_hold_def)
qed

lemma ctx_free_rings_result:
  "rings_hold s c q (set rs) \<Longrightarrow> distinct rs \<Longrightarrow>
     if \<exists>r\<in>set rs. \<exists>p\<in>set (q r). last_ref s p then ctx_free_rings c rs s = Some Fault
     else \<exists>h'. ctx_free_rings c rs s =
       Some (Ret (s\<lparr>sems := release_sems (concat (map q rs)) (sems s), cs_lists := h'\<rparr>))"
proof (induction rs arbitrary: s)
  case Nil
  have "s\<lparr>sems := release_sems [] (sems s), cs_lists := cs_lists s\<rparr> = s"
    by (auto simp: release_sems_def fun_eq_iff intro!: cs_state.equality)
  then show ?case by (auto intro!: exI [of _ "cs_lists s"])
next
  case (Cons r rs)
  obtain i j k where r: "r = (i, j, k)" by (cases r)
  let ?head = "CtxNode c i j k"
  have l: "dlist (cs_lists s) ?head (map SemNode (q r))" and ok: "\<forall>p\<in>set (q r). queued_ok s p"
    using Cons.prems(1) r by (auto simp: rings_hold_def ring_holds_def)
  obtain n where n: "cs_lists s ?head = Some n" "next n = hd (map SemNode (q r) @ [?head])"
    using l by (cases "q r") (auto simp: dlist_def nx_def)
  have first: "ctx_free_rings c (r # rs) s = Option.bind (ctx_free_list ?head (hd (map SemNode (q r) @ [?head])) s)
      (\<lambda>x. case x of Fault \<Rightarrow> Some Fault | Ret s' \<Rightarrow> ctx_free_rings c rs s')"
    by (simp add: r n)
  note res = ctx_free_list_result [OF l ok refl]
  show ?case
  proof (cases "\<exists>p\<in>set (q r). last_ref s p")
    case True
    with res first show ?thesis by simp
  next
    case False
    with res obtain h where h: "ctx_free_list ?head (hd (map SemNode (q r) @ [?head])) s =
        Some (Ret (s\<lparr>sems := release_sems (q r) (sems s), cs_lists := h\<rparr>))"
      "\<forall>n. n \<notin> set (?head # map SemNode (q r)) \<longrightarrow> h n = cs_lists s n" by auto
    let ?s' = "s\<lparr>sems := release_sems (q r) (sems s), cs_lists := h\<rparr>"
    have "r \<notin> set rs" using Cons.prems(2) by simp
    note after = rings_hold_after [OF Cons.prems(1) [simplified] r this h(2)]
    have rest: "(\<exists>r\<in>set (r # rs). \<exists>p\<in>set (q r). last_ref s p) \<longleftrightarrow> (\<exists>r\<in>set rs. \<exists>p\<in>set (q r). last_ref ?s' p)"
      using False after(2) queued_ok_frame(3) [of _ "q r"] by (simp; blast)
    have rel: "release_sems (concat (map q rs)) (release_sems (q r) (sems s))
        = release_sems (concat (map q (r # rs))) (sems s)"
      using after(2) by (auto simp: release_sems_def fun_eq_iff)
    from Cons.IH [OF after(1)] Cons.prems(2) show ?thesis
      unfolding rest first by (auto simp: h(1) rel)
  qed
qed

text \<open>C19. Freeing a context releases the semaphores that wait on its rings: when each of them has a
  reference besides that of the wait, the call returns what the accelerant answers, every one of them is
  unsignalled and has lost one reference, and the context and its lists are gone. When one of
  them, on any ring and at any place in its list, has no other reference than the wait, the loop reads its
  list entry after it was freed. The semaphores may have been signalled by a context that is gone.\<close>

theorem ctx_free_reads_freed_semaphore:
  assumes "ctxs s c = Some cx"
    and "\<forall>i j k. ring_index_ok i j k \<longrightarrow> dlist (cs_lists s) (CtxNode c i j k) (map SemNode (q (i, j, k)))
      \<and> (\<forall>p\<in>set (q (i, j, k)). queued_ok s p)"
    and "AmdgpuCtxRaw ops (cs_acc s)
      \<lparr>ctx_op = AMDGPU_CTX_OP_FREE_CTX, ctx_flags = 0, ctx_ctx_id = cx_id cx, ctx_priority = 0\<rparr> = (r, out, a)"
  shows "if \<exists>i j k. ring_index_ok i j k
            \<and> (\<exists>p\<in>set (q (i, j, k)). map_option sem_refcount (sems s p) = Some 1)
    then amdgpu_cs_ctx_free ops (Some c) s = Some Fault
    else \<exists>h'. amdgpu_cs_ctx_free ops (Some c) s = Some (Ret (ext_rc r,
        s\<lparr>cs_acc := a, ctxs := (ctxs s)(c := None),
          sems := release_sems (concat (map q all_rings)) (sems s), cs_lists := h'\<rparr>))
      \<and> (\<forall>i j k. h' (CtxNode c i j k) = None)"
proof -
  let ?s = "s\<lparr>cs_acc := a\<rparr>"
  have hold: "rings_hold ?s c q (set all_rings)"
    using assms(2) by (auto simp: rings_hold_def ring_holds_def all_rings_iff queued_ok_def)
  have "distinct all_rings"
    by (simp add: all_rings_def AMDGPU_HW_IP_NUM_def AMDGPU_HW_IP_INSTANCE_MAX_COUNT_def
        AMDGPU_CS_MAX_RINGS_def upt_conv_Cons)
  note res = ctx_free_rings_result [OF hold this]
  have which: "(\<exists>r\<in>set all_rings. \<exists>p\<in>set (q r). last_ref ?s p) \<longleftrightarrow>
      (\<exists>i j k. ring_index_ok i j k \<and> (\<exists>p\<in>set (q (i, j, k)). map_option sem_refcount (sems s p) = Some 1))"
    by (force simp: all_rings_iff last_ref_def)
  show ?thesis
  proof (cases "\<exists>r\<in>set all_rings. \<exists>p\<in>set (q r). last_ref ?s p")
    case True
    with res show ?thesis unfolding which [symmetric] by (simp add: amdgpu_cs_ctx_free_def assms(1,3))
  next
    case False
    with res obtain h where "ctx_free_rings c all_rings ?s =
        Some (Ret (?s\<lparr>sems := release_sems (concat (map q all_rings)) (sems s), cs_lists := h\<rparr>))" by auto
    with False show ?thesis
      unfolding which [symmetric]
      by (auto simp: amdgpu_cs_ctx_free_def assms(1,3) free_heads_def
          intro!: exI [of _ "free_heads c h"] cs_state.equality)
  qed
qed

definition demo_queues :: ring_queues where
  "demo_queues r = (if r = (0, 0, 0) then [6, 5] else [])"

theorem ctx_free_reads_freed_semaphore_witness:
  "amdgpu_cs_ctx_free demo_cs_ops (Some 1) demo_cs = Some Fault
   \<and> (\<exists>s'. amdgpu_cs_ctx_free demo_cs_ops (Some 1)
         (demo_cs\<lparr>sems := (sems demo_cs)(6 \<mapsto> \<lparr>sem_refcount = 2, signal_fence = demo_cs_fence\<rparr>)\<rparr>) = Some (Ret (OK, s'))
       \<and> sems s' 6 = Some \<lparr>sem_refcount = 1, signal_fence = no_fence\<rparr>)"
proof -
  let ?s = "demo_cs\<lparr>sems := (sems demo_cs)(6 \<mapsto> \<lparr>sem_refcount = 2, signal_fence = demo_cs_fence\<rparr>)\<rparr>"
  have zero: "ring_index_ok 0 0 0"
    by (simp add: ring_index_ok_def AMDGPU_HW_IP_NUM_def AMDGPU_HW_IP_INSTANCE_MAX_COUNT_def AMDGPU_CS_MAX_RINGS_def)
  have lists: "dlist (cs_lists demo_cs) (CtxNode 1 i j k) (map SemNode (demo_queues (i, j, k)))"
    if "ring_index_ok i j k" for i j k
  proof (cases "(i, j, k) = (0, 0, 0)")
    case True
    then show ?thesis using demo_queue by (simp add: demo_queues_def ring_head_def demo_req_def)
  next
    case False
    then have "i \<noteq> 0 \<or> k \<noteq> 0" using that by (auto simp: ring_index_ok_def AMDGPU_HW_IP_INSTANCE_MAX_COUNT_def)
    then have "cs_lists demo_cs (CtxNode 1 i j k) = Some \<lparr>prev = CtxNode 1 i j k, next = CtxNode 1 i j k\<rparr>"
      using that by (auto simp: demo_cs_def)
    then have "dlist (cs_lists demo_cs) (CtxNode 1 i j k) []" by (rule dlist_self)
    with False show ?thesis by (auto simp: demo_queues_def)
  qed
  have ok: "\<forall>p\<in>set (demo_queues r). queued_ok demo_cs p" "\<forall>p\<in>set (demo_queues r). queued_ok ?s p" for r
    by (simp_all add: demo_queues_def queued_ok_def atomic_positive_iff demo_cs_def demo_cs_fence_def)
  have call: "AmdgpuCtxRaw demo_cs_ops (cs_acc t) x = (0, fst (snd (AmdgpuCtxRaw demo_cs_ops (cs_acc t) x)), cs_acc t)"
    for t x by (simp add: demo_cs_ops_def)
  have six: "6 \<in> set (demo_queues (0, 0, 0))" by (simp add: demo_queues_def)
  have "(0, 0, 0) \<in> set all_rings" using zero by (simp add: all_rings_iff)
  then have freed: "6 \<in> set (concat (map demo_queues all_rings))" using six by auto
  have hold: "\<forall>i j k. ring_index_ok i j k \<longrightarrow>
      dlist (cs_lists t) (CtxNode 1 i j k) (map SemNode (demo_queues (i, j, k)))
      \<and> (\<forall>p\<in>set (demo_queues (i, j, k)). queued_ok t p)" if "t = demo_cs \<or> t = ?s" for t
    using that lists ok by auto
  have "\<exists>i j k. ring_index_ok i j k
      \<and> (\<exists>p\<in>set (demo_queues (i, j, k)). map_option sem_refcount (sems demo_cs p) = Some 1)"
    by (intro exI conjI bexI, rule zero, rule_tac [2] six) (simp add: demo_cs_def)
  with ctx_free_reads_freed_semaphore [OF demo_ctx hold call] have one:
    "amdgpu_cs_ctx_free demo_cs_ops (Some 1) demo_cs = Some Fault" by (simp only: if_True simp_thms)
  have "\<nexists>i j k. ring_index_ok i j k \<and> (\<exists>p\<in>set (demo_queues (i, j, k)). map_option sem_refcount (sems ?s p) = Some 1)"
    by (simp add: demo_queues_def demo_cs_def)
  then have "\<exists>s'. amdgpu_cs_ctx_free demo_cs_ops (Some 1) ?s = Some (Ret (OK, s'))
      \<and> sems s' = release_sems (concat (map demo_queues all_rings)) (sems ?s)"
    using ctx_free_reads_freed_semaphore [of ?s 1, OF _ hold call] demo_ctx
    by (simp only: if_False simp_thms) (auto simp: demo_cs_def)
  with one freed show ?thesis by (auto simp: release_sems_def sem_released_def)
qed

text \<open>A context created and freed again with nothing waiting on it leaves the device as it was:
  all its rings start out empty, and only the accelerant sees the two calls.\<close>

theorem ctx_create_free_restores:
  assumes "ctxs s c = None" and "\<forall>i j k. cs_lists s (CtxNode c i j k) = None"
    and "AmdgpuCtxRaw ops (cs_acc s) \<lparr>ctx_op = AMDGPU_CTX_OP_ALLOC_CTX, ctx_flags = 0, ctx_ctx_id = 0,
           ctx_priority = priority\<rparr> = (0, out, a)"
    and "AmdgpuCtxRaw ops a \<lparr>ctx_op = AMDGPU_CTX_OP_FREE_CTX, ctx_flags = 0,
           ctx_ctx_id = alloc_ctx_id out, ctx_priority = 0\<rparr> = (r, out', a')"
  shows "\<exists>s'. amdgpu_cs_ctx_create2 ops True True c 0 priority s [] = Ret (OK, Some c, s', [])
    \<and> (\<forall>i j k. ring_index_ok i j k \<longrightarrow> dlist (cs_lists s') (CtxNode c i j k) [])
    \<and> amdgpu_cs_ctx_free ops (Some c) s' = Some (Ret (ext_rc r, s\<lparr>cs_acc := a'\<rparr>))"
proof -
  define h where "h = (\<lambda>n. case n of
      CtxNode c' i j k \<Rightarrow> if c' = c \<and> ring_index_ok i j k then Some \<lparr>prev = n, next = n\<rparr> else cs_lists s n
    | _ \<Rightarrow> cs_lists s n)"
  let ?s = "s\<lparr>cs_acc := a, ctxs := (ctxs s)(c \<mapsto> \<lparr>cx_id = alloc_ctx_id out, last_seq = (\<lambda>_ _ _. 0)\<rparr>),
             cs_lists := h\<rparr>"
  have create: "amdgpu_cs_ctx_create2 ops True True c 0 priority s [] = Ret (OK, Some c, ?s, [])"
    by (simp add: amdgpu_cs_ctx_create2_def assms(3) init_heads_fresh h_def)
  have rings: "dlist h (CtxNode c i j k) []" if "ring_index_ok i j k" for i j k
    using that by (intro dlist_self) (simp add: h_def)
  have "ctx_free_rings c (all_rings @ []) (?s\<lparr>cs_acc := a'\<rparr>) = ctx_free_rings c [] (?s\<lparr>cs_acc := a'\<rparr>)"
    by (rule ctx_free_empty_rings) (auto simp: all_rings_iff intro: rings)
  then have "amdgpu_cs_ctx_free ops (Some c) ?s =
      Some (Ret (ext_rc r, ?s\<lparr>cs_acc := a', ctxs := (ctxs ?s)(c := None), cs_lists := free_heads c h\<rparr>))"
    by (simp add: amdgpu_cs_ctx_free_def assms(4))
  also have "?s\<lparr>cs_acc := a', ctxs := (ctxs ?s)(c := None), cs_lists := free_heads c h\<rparr> = s\<lparr>cs_acc := a'\<rparr>"
    using assms(1) free_heads_fresh [OF assms(2), folded h_def] by (auto intro!: cs_state.equality)
  finally have free: "amdgpu_cs_ctx_free ops (Some c) ?s = Some (Ret (ext_rc r, s\<lparr>cs_acc := a'\<rparr>))" .
  have "\<forall>i j k. ring_index_ok i j k \<longrightarrow> dlist (cs_lists ?s) (CtxNode c i j k) []"
    using rings by simp
  with create free show ?thesis by blast
qed

theorem ctx_create_free_restores_witness:
  "\<exists>s'. amdgpu_cs_ctx_create2 demo_cs_ops True True 2 0 0 demo_cs [] = Ret (OK, Some 2, s', [])
    \<and> dlist (cs_lists s') (CtxNode 2 8 0 7) []
    \<and> amdgpu_cs_ctx_free demo_cs_ops (Some 2) s' = Some (Ret (OK, demo_cs\<lparr>cs_acc := None\<rparr>))"
proof -
  have "ring_index_ok 8 0 7"
    by (simp add: ring_index_ok_def AMDGPU_HW_IP_NUM_def AMDGPU_HW_IP_INSTANCE_MAX_COUNT_def AMDGPU_CS_MAX_RINGS_def)
  moreover have "\<forall>i j k. cs_lists demo_cs (CtxNode 2 i j k) = None" "ctxs demo_cs 2 = None"
    by (simp_all add: demo_cs_def)
  ultimately show ?thesis
    using ctx_create_free_restores [of demo_cs 2 demo_cs_ops 0 _ None 0 _ None]
    by (simp add: demo_cs_ops_def demo_cs_def) blast
qed

text \<open>A relative timeout is turned into the absolute one by an addition that saturates: with a
  clock that works and reads \<open>now\<close> nanoseconds it is \<open>timeout + now\<close>, or the largest 64-bit
  value when that does not fit, so an infinite timeout stays infinite and no timeout wraps around.\<close>

theorem calculate_timeout_saturates:
  assumes "clock_monotonic ops a = (0, sec, nsec, a')"
    and "unat sec * 1000000000 + unat nsec < 2 ^ 64"
  shows "unat (fst (amdgpu_cs_calculate_timeout ops timeout a)) =
    min (unat timeout + (unat sec * 1000000000 + unat nsec)) (2 ^ 64 - 1)"
proof -
  define now where "now = sec * 1000000000 + nsec"
  have "unat (sec * 1000000000) = unat sec * 1000000000"
    using assms(2) by (simp add: unat_word_ariths)
  then have now: "unat now = unat sec * 1000000000 + unat nsec"
    using assms(2) unfolding now_def by (subst unat_add_less) simp_all
  have inf: "unat AMDGPU_TIMEOUT_INFINITE = 2 ^ 64 - 1" by (simp add: AMDGPU_TIMEOUT_INFINITE_def)
  have lt: "unat timeout < 2 ^ 64" using unsigned_less [of timeout, where ?'a = nat] by simp
  show ?thesis
  proof (cases "timeout = AMDGPU_TIMEOUT_INFINITE")
    case True
    then show ?thesis by (simp add: amdgpu_cs_calculate_timeout_def inf)
  next
    case False
    have "timeout + now < now \<longleftrightarrow> 2 ^ 64 \<le> unat timeout + unat now"
      using lt by (auto simp: word_less_nat_alt unat_plus_if')
    with False show ?thesis
      using lt inf by (auto simp: amdgpu_cs_calculate_timeout_def assms(1) now_def [symmetric] now [symmetric]
          Let_def unat_plus_if')
  qed
qed

theorem calculate_timeout_saturates_witness:
  "unat (fst (amdgpu_cs_calculate_timeout demo_cs_ops 0xfffffffffffffff0 None)) = 2 ^ 64 - 1"
  using calculate_timeout_saturates [of demo_cs_ops None 3 500 None "0xfffffffffffffff0"]
  by (simp add: demo_cs_ops_def)

text \<open>C9. A semaphore signalled on one ring, waited for on another and consumed by the next submission
  there is as it was before, references included, and can be used again; the submission depends on
  the last sequence number of the ring that signalled it.\<close>

theorem semaphore_cycle:
  assumes "ring_index_ok (unat t) (unat i) (unat k)" and "ctxs s c1 = Some cx1"
    and "sems s p = Some m" and "signal_fence m = no_fence"
    and "0 < unat (sem_refcount m)" and "count_ok (unat (sem_refcount m))" and "SemNode p \<in> dom (cs_lists s)"
    and "ctxs s c = Some cx" and "request_ok s req" and "dlist (cs_lists s) (ring_head c req) []"
    and "chunks = request_chunks s req [] @
        [dep_chunk 1 [\<lparr>dep_ip_type = t, dep_ip_instance = i, dep_ring = k, dep_ctx_id = cx_id cx1,
                      dep_handle = last_seq cx1 (unat t) (unat i) (unat k)\<rparr>]]"
    and "AmdgpuCsSubmitRaw ops (cs_acc s) (cx_id cx) (list_handle_for s req) (of_nat (length chunks)) chunks
        = (r, seq, a)"
  shows "\<exists>s1 s2 req' s3. amdgpu_cs_signal_semaphore (Some c1) t i k (Some p) s = Ret (OK, s1)
    \<and> amdgpu_cs_wait_semaphore (Some c) (cr_ip_type req) (cr_ip_instance req) (cr_ring req) (Some p) s1 = Ret (OK, s2)
    \<and> amdgpu_cs_submit_one ops c req s2 = Some (Ret (ext_rc r, req', s3))
    \<and> sems s3 = sems s \<and> cs_acc s3 = a \<and> dlist (cs_lists s3) (ring_head c req) []"
proof -
  define f where "f = \<lparr>cf_context = Some c1, cf_ip_type = t, cf_ip_instance = i, cf_ring = k,
    cf_fence = last_seq cx1 (unat t) (unat i) (unat k)\<rparr>"
  define m1 where "m1 = \<lparr>sem_refcount = sem_refcount m + 1, signal_fence = f\<rparr>"
  let ?head = "ring_head c req"
  let ?s1 = "s\<lparr>sems := (sems s)(p \<mapsto> m1)\<rparr>"
  have pos: "atomic_positive (sem_refcount m)"
    using assms(5,6) by (simp add: atomic_positive_iff count_ok_def)
  have s1: "amdgpu_cs_signal_semaphore (Some c1) t i k (Some p) s = Ret (OK, ?s1)"
    unfolding m1_def f_def
    by (rule signal_semaphore_ok [OF assms(1-3)]) (simp_all add: assms(4) no_fence_def pos)
  have ring: "ring_index_ok (unat (cr_ip_type req)) (unat (cr_ip_instance req)) (unat (cr_ring req))"
    using assms(9) by (simp add: request_ok_def)
  obtain h where h: "list_add (cs_lists s) (SemNode p) ?head = Ret h" "dlist h ?head (map SemNode [p])"
    by (rule dlist_add [of "cs_lists s" ?head "[]" "[]" "SemNode p"])
      (use assms(7,10) in \<open>auto simp: ring_head_def\<close>)
  let ?s2 = "?s1\<lparr>cs_lists := h\<rparr>"
  have s2: "amdgpu_cs_wait_semaphore (Some c) (cr_ip_type req) (cr_ip_instance req) (cr_ring req) (Some p) ?s1
      = Ret (OK, ?s2)"
    by (rule wait_semaphore_ok [OF ring, of ?s1 c cx p m1])
      (use assms(8) h(1) in \<open>simp_all add: m1_def f_def ring_head_def\<close>)
  have alive: "fence_alive ?s2 = fence_alive s" by (simp add: fence_alive_def fun_eq_iff)
  have req: "request_ok ?s2 req"
    using assms(9) by (simp add: request_ok_def alive bo_alive_def resources_alive_def cong: option.case_cong)
  have cnt: "unat (sem_refcount m1) = Suc (unat (sem_refcount m))"
    using unat_count_inc [OF assms(6)] by (simp add: m1_def)
  have w: "waiting_ok ?s2 p"
    using assms(2,6) cnt by (simp add: waiting_ok_def alive atomic_positive_iff count_ok_def)
      (simp add: m1_def f_def fence_alive_def)
  have deps: "dep_for (s\<lparr>sems := x, cs_lists := y\<rparr>) g = dep_for s g" for x y g
    by (simp add: dep_for_def)
  then have deps': "dep_for ?s2 = dep_for s" by (simp add: fun_eq_iff)
  have dep: "dep_for s f = \<lparr>dep_ip_type = t, dep_ip_instance = i, dep_ring = k, dep_ctx_id = cx_id cx1,
      dep_handle = last_seq cx1 (unat t) (unat i) (unat k)\<rparr>"
    using assms(2) by (simp add: dep_for_def f_def)
  have "queued_deps ?s2 [p] = [dep_for s f]" by (simp add: queued_deps_def deps m1_def)
  then have chunks: "request_chunks ?s2 req [p] = chunks"
    by (simp add: assms(11) request_chunks_def fence_chunks_def deps' deps_chunks_code
        queued_deps_def [of s] dep cong: option.case_cong)
  obtain h' where sub: "amdgpu_cs_submit_one ops c req ?s2 = Some (Ret (ext_rc r,
       if r = 0 then req\<lparr>cr_seq_no := seq\<rparr> else req,
       ?s2\<lparr>cs_acc := a, sems := release_sems [p] (sems ?s2), cs_lists := h',
         ctxs := if r = 0 then submitted_ctxs ?s2 c req seq else ctxs ?s2\<rparr>))"
    "dlist h' ?head []"
    by (rule submit_one_ok [OF _ req _ _ _, of c cx "[p]" ops r seq a])
      (use assms(8,12) h(2) w in \<open>simp_all add: chunks list_handle_for_def cong: option.case_cong\<close>)
  have "sem_refcount m1 \<noteq> 1" using cnt assms(5) by (auto simp: unat_eq_iff)
  then have "release_sems [p] (sems ?s2) = sems s"
    using assms(3,4) by (auto simp: release_sems_def sem_released_def m1_def fun_eq_iff intro!: amdgpu_semaphore.equality)
  with s1 s2 sub show ?thesis by (intro exI conjI) (assumption | simp)+
qed

definition demo_cs2 :: "demo_acc cs_state" where
  "demo_cs2 = demo_cs\<lparr>sems := (sems demo_cs)(8 \<mapsto> \<lparr>sem_refcount = 1, signal_fence = no_fence\<rparr>)\<rparr>"

definition demo_req2 :: amdgpu_cs_request where
  "demo_req2 = demo_req\<lparr>cr_ip_type := 2, cr_ring := 3\<rparr>"

theorem semaphore_cycle_witness:
  "\<exists>s1 s2 req' s3. amdgpu_cs_signal_semaphore (Some 1) 0 0 1 (Some 8) demo_cs2 = Ret (OK, s1)
    \<and> amdgpu_cs_wait_semaphore (Some 1) 2 0 3 (Some 8) s1 = Ret (OK, s2)
    \<and> amdgpu_cs_submit_one demo_cs_ops 1 demo_req2 s2 = Some (Ret (OK, req', s3))
    \<and> sems s3 = sems demo_cs2"
proof -
  have fields: "cr_ip_type demo_req2 = 2" "cr_ip_instance demo_req2 = 0" "cr_ring demo_req2 = 3"
    by (simp_all add: demo_req2_def demo_req_def)
  have rings: "ring_index_ok 2 0 3" "ring_index_ok 0 0 1"
    by (simp_all add: ring_index_ok_def AMDGPU_HW_IP_NUM_def AMDGPU_HW_IP_INSTANCE_MAX_COUNT_def AMDGPU_CS_MAX_RINGS_def)
  have "fence_alive demo_cs2 = fence_alive demo_cs" by (simp add: fence_alive_def demo_cs2_def fun_eq_iff)
  then have req: "request_ok demo_cs2 demo_req2"
    using demo_request_ok rings fields(2)
    by (simp add: request_ok_def demo_req2_def demo_cs2_def bo_alive_def resources_alive_def cong: option.case_cong)
  have queue: "dlist (cs_lists demo_cs2) (ring_head 1 demo_req2) []"
    using rings by (intro dlist_self) (simp add: ring_head_def fields demo_cs2_def demo_cs_def)
  have sem: "sems demo_cs2 8 = Some \<lparr>sem_refcount = 1, signal_fence = no_fence\<rparr>"
    "SemNode 8 \<in> dom (cs_lists demo_cs2)" "ctxs demo_cs2 1 = Some \<lparr>cx_id = 7, last_seq = (\<lambda>_ _ _. 0)\<rparr>"
    by (simp_all add: demo_cs2_def demo_cs_def dom_def)
  show ?thesis
    using semaphore_cycle [of 0 0 1 demo_cs2 1 _ 8, OF _ sem(3,1) _ _ _ sem(2,3) req queue refl,
        of demo_cs_ops 0 42 "Some (_, _)"] rings
    by (simp add: fields demo_cs_ops_def count_ok_def) blast
qed

text \<open>C17. Waiting for a fence with a relative timeout asks the accelerant to wait until the reading of the
  clock plus the timeout, in nanoseconds, or until the largest 64-bit time when that sum does not fit or the
  clock fails: no finite timeout wraps around to an earlier time. It is the same as waiting with that
  absolute time and the flag for it; the fence has expired when the accelerant neither fails nor is
  still busy. A fence of a submission without IBs has expired at once. (The context lives,
  the clock reads less than 2^64 nanoseconds, and the timeout is not the infinite one, for which the clock is not
  read.)\<close>

theorem query_fence_timeouts_agree:
  assumes "timeout_ns \<noteq> AMDGPU_TIMEOUT_INFINITE"
    and "flags AND AMDGPU_QUERY_FENCE_TIMEOUT_IS_ABSOLUTE = 0"
    and "clock_monotonic ops (cs_acc s) = (cr, sec, nsec, a)"
    and "unat sec * 1000000000 + unat nsec < 2 ^ 64"
    and "unat deadline = (if cr = 0 then min (unat timeout_ns + (unat sec * 1000000000 + unat nsec)) (2 ^ 64 - 1)
                          else 2 ^ 64 - 1)"
    and "cf_fence f \<noteq> AMDGPU_NULL_SUBMIT_SEQ" and "cf_context f = Some c" and "ctxs s c = Some cx"
    and "cf_ip_type f < AMDGPU_HW_IP_NUM" and "cf_ring f < AMDGPU_CS_MAX_RINGS"
    and "AmdgpuWaitCs ops a (cx_id cx) (cf_ip_type f) (cf_ip_instance f) (cf_ring f) (cf_fence f) deadline
        = (r, busy, a')"
  shows "amdgpu_cs_query_fence_status ops (Some f) timeout_ns flags True s =
      Ret (ext_rc r, Some (r = 0 \<and> \<not> busy), s\<lparr>cs_acc := a'\<rparr>)
    \<and> amdgpu_cs_query_fence_status ops (Some f) deadline
        (flags OR AMDGPU_QUERY_FENCE_TIMEOUT_IS_ABSOLUTE) True (s\<lparr>cs_acc := a\<rparr>) =
      Ret (ext_rc r, Some (r = 0 \<and> \<not> busy), s\<lparr>cs_acc := a'\<rparr>)
    \<and> (\<forall>req. cr_ip_type req < AMDGPU_HW_IP_NUM \<and> cr_ring req < AMDGPU_CS_MAX_RINGS
         \<and> number_of_ibs req = 0 \<longrightarrow>
         (\<exists>req'. amdgpu_cs_submit_one ops c req s = Some (Ret (OK, req', s))
            \<and> amdgpu_cs_query_fence_status ops (Some (f\<lparr>cf_fence := cr_seq_no req'\<rparr>)) t fl True s
              = Ret (OK, Some True, s)))"
proof -
  have "(x OR y) AND y = y" for x y :: u64 by (rule bit_eqI) (auto simp: bit_simps)
  then have absolute: "(flags OR AMDGPU_QUERY_FENCE_TIMEOUT_IS_ABSOLUTE) AND AMDGPU_QUERY_FENCE_TIMEOUT_IS_ABSOLUTE
      = AMDGPU_QUERY_FENCE_TIMEOUT_IS_ABSOLUTE" "AMDGPU_QUERY_FENCE_TIMEOUT_IS_ABSOLUTE \<noteq> 0"
    by (simp_all add: AMDGPU_QUERY_FENCE_TIMEOUT_IS_ABSOLUTE_def)
  have clock: "amdgpu_cs_calculate_timeout ops timeout_ns (cs_acc s) = (deadline, a)"
  proof (cases "cr = 0")
    case True
    then have "unat (fst (amdgpu_cs_calculate_timeout ops timeout_ns (cs_acc s))) = unat deadline"
      using calculate_timeout_saturates [of ops "cs_acc s" sec nsec a timeout_ns] assms(3-5) by simp
    moreover have "snd (amdgpu_cs_calculate_timeout ops timeout_ns (cs_acc s)) = a"
      using assms(1,3) True by (simp add: amdgpu_cs_calculate_timeout_def Let_def)
    ultimately show ?thesis by (simp add: prod_eq_iff word_unat_eq_iff)
  next
    case False
    then show ?thesis
      using assms(1,3,5) by (simp add: amdgpu_cs_calculate_timeout_def AMDGPU_TIMEOUT_INFINITE_def word_unat_eq_iff)
  qed
  note bounds = assms(9,10) [THEN linorder_not_le [THEN iffD2]]
  have "amdgpu_cs_query_fence_status ops (Some f) timeout_ns flags True s =
      Ret (ext_rc r, Some (r = 0 \<and> \<not> busy), s\<lparr>cs_acc := a'\<rparr>)"
    by (simp add: amdgpu_cs_query_fence_status_def amdgpu_ioctl_wait_cs_def cs_step bounds assms(2,6-8,11) clock)
  moreover have "amdgpu_cs_query_fence_status ops (Some f) deadline
        (flags OR AMDGPU_QUERY_FENCE_TIMEOUT_IS_ABSOLUTE) True (s\<lparr>cs_acc := a\<rparr>) =
      Ret (ext_rc r, Some (r = 0 \<and> \<not> busy), s\<lparr>cs_acc := a'\<rparr>)"
    by (simp add: amdgpu_cs_query_fence_status_def amdgpu_ioctl_wait_cs_def cs_step bounds assms(6-8,11) absolute)
  moreover have "\<exists>req'. amdgpu_cs_submit_one ops c req s = Some (Ret (OK, req', s))
      \<and> amdgpu_cs_query_fence_status ops (Some (f\<lparr>cf_fence := cr_seq_no req'\<rparr>)) t fl True s = Ret (OK, Some True, s)"
    if "cr_ip_type req < AMDGPU_HW_IP_NUM" "cr_ring req < AMDGPU_CS_MAX_RINGS"
      "number_of_ibs req = 0" for req
    using that assms(7,8) bounds
    by (simp add: amdgpu_cs_submit_one_def amdgpu_cs_query_fence_status_def not_le)
  ultimately show ?thesis by blast
qed

theorem query_fence_timeouts_agree_witness:
  "amdgpu_cs_query_fence_status demo_cs_ops (Some demo_cs_fence) 1000 0 True demo_cs =
     Ret (OK, Some False, demo_cs)
   \<and> amdgpu_cs_query_fence_status demo_cs_ops (Some demo_cs_fence) 0xfffffffffffffff0 0 True demo_cs =
     Ret (OK, Some True, demo_cs)"
proof -
  have f: "cf_ring demo_cs_fence < AMDGPU_CS_MAX_RINGS" "cf_ip_type demo_cs_fence < AMDGPU_HW_IP_NUM"
    "cf_fence demo_cs_fence \<noteq> AMDGPU_NULL_SUBMIT_SEQ" "cf_context demo_cs_fence = Some 1"
    by (simp_all add: demo_cs_fence_def AMDGPU_CS_MAX_RINGS_def AMDGPU_HW_IP_NUM_def AMDGPU_NULL_SUBMIT_SEQ_def)
  have clock: "clock_monotonic demo_cs_ops (cs_acc demo_cs) = (0, 3, 500, cs_acc demo_cs)"
    by (simp add: demo_cs_ops_def)
  have wait: "AmdgpuWaitCs demo_cs_ops (cs_acc demo_cs) i t n k h d = (0, d \<le> 5000000000, cs_acc demo_cs)"
    for i t n k h d by (simp add: demo_cs_ops_def)
  note q = query_fence_timeouts_agree [OF _ _ clock _ _ f(3,4) demo_ctx f(2,1) wait]
  show ?thesis
    using q [of 1000 0 3000001500] q [of "0xfffffffffffffff0" 0 "0xffffffffffffffff"]
    by (simp add: AMDGPU_TIMEOUT_INFINITE_def)
qed

end
