(* ===== verification/Syncobj.thy ===== *)
theory Syncobj imports Prelude begin

text \<open>
  Synchronisation objects, the second half of \<open>amdgpu/amdgpu_cs.c\<close>: the functions of the library
  over the accelerant's DRM vtable. A device is \<open>None\<close> (a null pointer) or the state of its
  accelerant; an output is \<open>None\<close> when the function does not write it,
  arrays are lists, and a timeout of type \<open>int64_t\<close> is passed on bit by bit.
\<close>

record 'a syncobj_ops =
  DrmSyncobjCreate :: "'a \<Rightarrow> u32 \<Rightarrow> int \<times> u32 \<times> 'a"
  DrmSyncobjDestroy :: "'a \<Rightarrow> u32 \<Rightarrow> int \<times> 'a"
  DrmSyncobjReset :: "'a \<Rightarrow> u32 list \<Rightarrow> u32 \<Rightarrow> int \<times> 'a"
  DrmSyncobjSignal :: "'a \<Rightarrow> u32 list \<Rightarrow> u32 \<Rightarrow> int \<times> 'a"
  DrmSyncobjTimelineSignal :: "'a \<Rightarrow> u32 list \<Rightarrow> u64 list \<Rightarrow> u32 \<Rightarrow> int \<times> 'a"
  DrmSyncobjWait :: "'a \<Rightarrow> u32 list \<Rightarrow> u32 \<Rightarrow> u64 \<Rightarrow> u32 \<Rightarrow> int \<times> u32 \<times> 'a"
  DrmSyncobjTimelineWait :: "'a \<Rightarrow> u32 list \<Rightarrow> u64 list \<Rightarrow> u32 \<Rightarrow> u64 \<Rightarrow> u32 \<Rightarrow> int \<times> u32 \<times> 'a"
  DrmSyncobjQuery :: "'a \<Rightarrow> u32 list \<Rightarrow> u32 \<Rightarrow> u32 \<Rightarrow> int \<times> u64 list \<times> 'a"
  DrmSyncobjHandleToFD :: "'a \<Rightarrow> u32 \<Rightarrow> int \<times> int \<times> 'a"
  DrmSyncobjFDToHandle :: "'a \<Rightarrow> int \<Rightarrow> int \<times> u32 \<times> 'a"
  DrmSyncobjExportSyncFile :: "'a \<Rightarrow> u32 \<Rightarrow> int \<times> int \<times> 'a"
  DrmSyncobjImportSyncFile :: "'a \<Rightarrow> u32 \<Rightarrow> int \<Rightarrow> int \<times> 'a"
  DrmSyncobjTransfer :: "'a \<Rightarrow> u32 \<Rightarrow> u64 \<Rightarrow> u32 \<Rightarrow> u64 \<Rightarrow> u32 \<Rightarrow> int \<times> 'a"
  DrmSyncobjAccumulate :: "'a \<Rightarrow> u32 \<Rightarrow> u32 \<Rightarrow> u64 \<Rightarrow> int \<times> 'a"

section \<open>The functions that pass a call on\<close>

text \<open>\<open>if (NULL == dev) return EINVAL;\<close> and the call, without and with an output.\<close>

definition on_dev :: "('a \<Rightarrow> int \<times> 'a) \<Rightarrow> 'a option \<Rightarrow> rc \<times> 'a option" where
  "on_dev call dev =
     (case dev of None \<Rightarrow> (Err EINVAL, None) | Some a \<Rightarrow> (case call a of (r, a') \<Rightarrow> (ext_rc r, Some a')))"

definition on_dev_out :: "('a \<Rightarrow> int \<times> 'o \<times> 'a) \<Rightarrow> 'a option \<Rightarrow> rc \<times> 'o option \<times> 'a option" where
  "on_dev_out call dev =
     (case dev of
        None \<Rightarrow> (Err EINVAL, None, None)
      | Some a \<Rightarrow> (case call a of (r, x, a') \<Rightarrow> (ext_rc r, Some x, Some a')))"

definition amdgpu_cs_create_syncobj2 ::
    "'a syncobj_ops \<Rightarrow> 'a option \<Rightarrow> u32 \<Rightarrow> rc \<times> u32 option \<times> 'a option" where
  "amdgpu_cs_create_syncobj2 ops dev flags = on_dev_out (\<lambda>a. DrmSyncobjCreate ops a flags) dev"

definition amdgpu_cs_create_syncobj :: "'a syncobj_ops \<Rightarrow> 'a option \<Rightarrow> rc \<times> u32 option \<times> 'a option" where
  "amdgpu_cs_create_syncobj ops dev = on_dev_out (\<lambda>a. DrmSyncobjCreate ops a 0) dev"

definition amdgpu_cs_destroy_syncobj :: "'a syncobj_ops \<Rightarrow> 'a option \<Rightarrow> u32 \<Rightarrow> rc \<times> 'a option" where
  "amdgpu_cs_destroy_syncobj ops dev handle = on_dev (\<lambda>a. DrmSyncobjDestroy ops a handle) dev"

definition amdgpu_cs_syncobj_reset ::
    "'a syncobj_ops \<Rightarrow> 'a option \<Rightarrow> u32 list \<Rightarrow> u32 \<Rightarrow> rc \<times> 'a option" where
  "amdgpu_cs_syncobj_reset ops dev syncobjs n = on_dev (\<lambda>a. DrmSyncobjReset ops a syncobjs n) dev"

definition amdgpu_cs_syncobj_signal ::
    "'a syncobj_ops \<Rightarrow> 'a option \<Rightarrow> u32 list \<Rightarrow> u32 \<Rightarrow> rc \<times> 'a option" where
  "amdgpu_cs_syncobj_signal ops dev syncobjs n = on_dev (\<lambda>a. DrmSyncobjSignal ops a syncobjs n) dev"

definition amdgpu_cs_syncobj_timeline_signal ::
    "'a syncobj_ops \<Rightarrow> 'a option \<Rightarrow> u32 list \<Rightarrow> u64 list \<Rightarrow> u32 \<Rightarrow> rc \<times> 'a option" where
  "amdgpu_cs_syncobj_timeline_signal ops dev syncobjs points n =
     on_dev (\<lambda>a. DrmSyncobjTimelineSignal ops a syncobjs points n) dev"

definition amdgpu_cs_syncobj_wait ::
    "'a syncobj_ops \<Rightarrow> 'a option \<Rightarrow> u32 list \<Rightarrow> u32 \<Rightarrow> u64 \<Rightarrow> u32 \<Rightarrow> rc \<times> u32 option \<times> 'a option" where
  "amdgpu_cs_syncobj_wait ops dev handles n timeout_nsec flags =
     on_dev_out (\<lambda>a. DrmSyncobjWait ops a handles n timeout_nsec flags) dev"

definition amdgpu_cs_syncobj_timeline_wait ::
    "'a syncobj_ops \<Rightarrow> 'a option \<Rightarrow> u32 list \<Rightarrow> u64 list \<Rightarrow> u32 \<Rightarrow> u64 \<Rightarrow> u32
     \<Rightarrow> rc \<times> u32 option \<times> 'a option" where
  "amdgpu_cs_syncobj_timeline_wait ops dev handles points n timeout_nsec flags =
     on_dev_out (\<lambda>a. DrmSyncobjTimelineWait ops a handles points n timeout_nsec flags) dev"

definition amdgpu_cs_syncobj_query ::
    "'a syncobj_ops \<Rightarrow> 'a option \<Rightarrow> u32 list \<Rightarrow> u32 \<Rightarrow> rc \<times> u64 list option \<times> 'a option" where
  "amdgpu_cs_syncobj_query ops dev handles n = on_dev_out (\<lambda>a. DrmSyncobjQuery ops a handles n 0) dev"

definition amdgpu_cs_syncobj_query2 ::
    "'a syncobj_ops \<Rightarrow> 'a option \<Rightarrow> u32 list \<Rightarrow> u32 \<Rightarrow> u32 \<Rightarrow> rc \<times> u64 list option \<times> 'a option" where
  "amdgpu_cs_syncobj_query2 ops dev handles n flags =
     on_dev_out (\<lambda>a. DrmSyncobjQuery ops a handles n flags) dev"

definition amdgpu_cs_export_syncobj ::
    "'a syncobj_ops \<Rightarrow> 'a option \<Rightarrow> u32 \<Rightarrow> rc \<times> int option \<times> 'a option" where
  "amdgpu_cs_export_syncobj ops dev handle = on_dev_out (\<lambda>a. DrmSyncobjHandleToFD ops a handle) dev"

definition amdgpu_cs_import_syncobj ::
    "'a syncobj_ops \<Rightarrow> 'a option \<Rightarrow> int \<Rightarrow> rc \<times> u32 option \<times> 'a option" where
  "amdgpu_cs_import_syncobj ops dev shared_fd = on_dev_out (\<lambda>a. DrmSyncobjFDToHandle ops a shared_fd) dev"

definition amdgpu_cs_syncobj_export_sync_file ::
    "'a syncobj_ops \<Rightarrow> 'a option \<Rightarrow> u32 \<Rightarrow> rc \<times> int option \<times> 'a option" where
  "amdgpu_cs_syncobj_export_sync_file ops dev syncobj =
     on_dev_out (\<lambda>a. DrmSyncobjExportSyncFile ops a syncobj) dev"

definition amdgpu_cs_syncobj_import_sync_file ::
    "'a syncobj_ops \<Rightarrow> 'a option \<Rightarrow> u32 \<Rightarrow> int \<Rightarrow> rc \<times> 'a option" where
  "amdgpu_cs_syncobj_import_sync_file ops dev syncobj fd =
     on_dev (\<lambda>a. DrmSyncobjImportSyncFile ops a syncobj fd) dev"

definition amdgpu_cs_syncobj_transfer ::
    "'a syncobj_ops \<Rightarrow> 'a option \<Rightarrow> u32 \<Rightarrow> u64 \<Rightarrow> u32 \<Rightarrow> u64 \<Rightarrow> u32 \<Rightarrow> rc \<times> 'a option" where
  "amdgpu_cs_syncobj_transfer ops dev dst_handle dst_point src_handle src_point flags =
     on_dev (\<lambda>a. DrmSyncobjTransfer ops a dst_handle dst_point src_handle src_point flags) dev"

definition amdgpu_cs_syncobj_accumulate ::
    "'a syncobj_ops \<Rightarrow> 'a option \<Rightarrow> u32 \<Rightarrow> u32 \<Rightarrow> u64 \<Rightarrow> rc \<times> 'a option" where
  "amdgpu_cs_syncobj_accumulate ops dev syncobj1 syncobj2 point =
     on_dev (\<lambda>a. DrmSyncobjAccumulate ops a syncobj1 syncobj2 point) dev"

section \<open>Points of timelines\<close>

text \<open>Point 0 is the object itself; any other point goes through a temporary binary object.\<close>

definition amdgpu_cs_syncobj_export_sync_file2 ::
    "'a syncobj_ops \<Rightarrow> 'a option \<Rightarrow> u32 \<Rightarrow> u64 \<Rightarrow> u32 \<Rightarrow> rc \<times> int option \<times> 'a option" where
  "amdgpu_cs_syncobj_export_sync_file2 ops dev syncobj point flags =
     (case dev of
        None \<Rightarrow> (Err EINVAL, None, None)
      | Some a \<Rightarrow>
          if point = 0 then
            (case DrmSyncobjExportSyncFile ops a syncobj of (r, fd, a') \<Rightarrow> (ext_rc r, Some fd, Some a'))
          else
            (case DrmSyncobjCreate ops a 0 of
               (r, binary_handle, a1) \<Rightarrow>
                 if r \<noteq> 0 then (ext_rc r, None, Some a1)
                 else
                   (case DrmSyncobjTransfer ops a1 binary_handle 0 syncobj point flags of
                      (r, a2) \<Rightarrow>
                        if r \<noteq> 0 then
                          (ext_rc r, None, Some (snd (DrmSyncobjDestroy ops a2 binary_handle)))
                        else
                          (case DrmSyncobjExportSyncFile ops a2 binary_handle of
                             (r, fd, a3) \<Rightarrow>
                               (ext_rc r, Some fd, Some (snd (DrmSyncobjDestroy ops a3 binary_handle)))))))"

definition amdgpu_cs_syncobj_import_sync_file2 ::
    "'a syncobj_ops \<Rightarrow> 'a option \<Rightarrow> u32 \<Rightarrow> u64 \<Rightarrow> int \<Rightarrow> rc \<times> 'a option" where
  "amdgpu_cs_syncobj_import_sync_file2 ops dev syncobj point sync_file_fd =
     (case dev of
        None \<Rightarrow> (Err EINVAL, None)
      | Some a \<Rightarrow>
          if point = 0 then
            (case DrmSyncobjImportSyncFile ops a syncobj sync_file_fd of (r, a') \<Rightarrow> (ext_rc r, Some a'))
          else
            (case DrmSyncobjCreate ops a 0 of
               (r, binary_handle, a1) \<Rightarrow>
                 if r \<noteq> 0 then (ext_rc r, Some a1)
                 else
                   (case DrmSyncobjImportSyncFile ops a1 binary_handle sync_file_fd of
                      (r, a2) \<Rightarrow>
                        if r \<noteq> 0 then
                          (ext_rc r, Some (snd (DrmSyncobjDestroy ops a2 binary_handle)))
                        else
                          (case DrmSyncobjTransfer ops a2 syncobj point binary_handle 0 0 of
                             (r, a3) \<Rightarrow>
                               (ext_rc r, Some (snd (DrmSyncobjDestroy ops a3 binary_handle)))))))"

section \<open>Handles\<close>

text \<open>
  What an accelerant documents about the handles it has given out: a successful creation adds a
  handle that was not in use, a successful destruction gives the handle back, either one changes no
  handle when it fails, and the other calls neither create nor destroy handles.
\<close>

definition syncobj_laws :: "'a syncobj_ops \<Rightarrow> ('a \<Rightarrow> u32 set) \<Rightarrow> bool" where
  "syncobj_laws ops live \<longleftrightarrow>
     (\<forall>a flags r h a'. DrmSyncobjCreate ops a flags = (r, h, a') \<longrightarrow>
        (if r = 0 then h \<notin> live a \<and> live a' = insert h (live a) else live a' = live a))
   \<and> (\<forall>a h r a'. DrmSyncobjDestroy ops a h = (r, a') \<longrightarrow>
        live a' = (if r = 0 then live a - {h} else live a))
   \<and> (\<forall>a d dp s sp fl r a'. DrmSyncobjTransfer ops a d dp s sp fl = (r, a') \<longrightarrow> live a' = live a)
   \<and> (\<forall>a h r fd a'. DrmSyncobjExportSyncFile ops a h = (r, fd, a') \<longrightarrow> live a' = live a)
   \<and> (\<forall>a h fd r a'. DrmSyncobjImportSyncFile ops a h fd = (r, a') \<longrightarrow> live a' = live a)"

lemma syncobj_law_facts:
  assumes "syncobj_laws ops live"
  shows law_create: "DrmSyncobjCreate ops a fl = (r, h, a') \<Longrightarrow>
      if r = 0 then h \<notin> live a \<and> live a' = insert h (live a) else live a' = live a"
    and law_destroy: "live (snd (DrmSyncobjDestroy ops a h)) =
      (if fst (DrmSyncobjDestroy ops a h) = 0 then live a - {h} else live a)"
    and law_transfer: "DrmSyncobjTransfer ops a d dp x sp fl = (r, a') \<Longrightarrow> live a' = live a"
    and law_export: "DrmSyncobjExportSyncFile ops a h = (r, fd, a') \<Longrightarrow> live a' = live a"
    and law_import: "DrmSyncobjImportSyncFile ops a h fd = (r, a') \<Longrightarrow> live a' = live a"
  using assms unfolding syncobj_laws_def by (blast | metis prod.collapse)+

definition demo_sync_ops :: "u32 list syncobj_ops" where
  "demo_sync_ops =
     \<lparr>DrmSyncobjCreate = (\<lambda>a fl. let h = of_nat (length a) in if h \<in> set a then (12, 0, a) else (0, h, h # a)),
      DrmSyncobjDestroy = (\<lambda>a h. (0, removeAll h a)),
      DrmSyncobjReset = (\<lambda>a hs n. (0, a)), DrmSyncobjSignal = (\<lambda>a hs n. (0, a)),
      DrmSyncobjTimelineSignal = (\<lambda>a hs ps n. (0, a)),
      DrmSyncobjWait = (\<lambda>a hs n t fl. (0, 0, a)), DrmSyncobjTimelineWait = (\<lambda>a hs ps n t fl. (0, 0, a)),
      DrmSyncobjQuery = (\<lambda>a hs n fl. (0, [], a)), DrmSyncobjHandleToFD = (\<lambda>a h. (0, 3, a)),
      DrmSyncobjFDToHandle = (\<lambda>a fd. (0, 0, a)), DrmSyncobjExportSyncFile = (\<lambda>a h. (5, -1, a)),
      DrmSyncobjImportSyncFile = (\<lambda>a h fd. (0, a)),
      DrmSyncobjTransfer = (\<lambda>a d dp s sp fl. if d \<in> set a then (0, a) else (2, a)),
      DrmSyncobjAccumulate = (\<lambda>a x y p. (0, a))\<rparr>"

lemma demo_sync_laws: "syncobj_laws demo_sync_ops set"
  by (auto simp: syncobj_laws_def demo_sync_ops_def Let_def split: if_splits)

section \<open>Properties\<close>

text \<open>The temporary object is gone, or the accelerant has refused to destroy it.\<close>

definition temporary_gone :: "'a syncobj_ops \<Rightarrow> ('a \<Rightarrow> u32 set) \<Rightarrow> 'a \<Rightarrow> 'a \<Rightarrow> bool" where
  "temporary_gone ops live a a' \<longleftrightarrow>
     live a' = live a
   \<or> (\<exists>b h. h \<notin> live a \<and> live b = insert h (live a) \<and> fst (DrmSyncobjDestroy ops b h) \<noteq> 0
        \<and> a' = snd (DrmSyncobjDestroy ops b h) \<and> live a' = insert h (live a))"

lemma destroyed_temporary:
  assumes "syncobj_laws ops live" and "h \<notin> live a" and "live b = insert h (live a)"
  shows "temporary_gone ops live a (snd (DrmSyncobjDestroy ops b h))"
  using assms(2,3) law_destroy [OF assms(1), of b h] by (auto simp: temporary_gone_def)

text \<open>C16. Exporting or importing a sync file at any point leaves no temporary object behind, whichever
  of the other calls fails: the handles in use are the same before and after, unless the accelerant
  refuses the one call that destroys the temporary object, whose result is not looked at. At point 0
  the functions are the plain ones on the object itself, which create no object; without
  a device they return EINVAL and call nothing. At any other point, an export transfers the point of
  the object to point 0 of the temporary one, from which it is exported, and an import goes the
  other way; the code returned is that of the first call that fails.\<close>

theorem sync_file2_leaks_nothing:
  assumes "syncobj_laws ops live"
  shows "(\<exists>r fd a'. amdgpu_cs_syncobj_export_sync_file2 ops (Some a) syncobj point flags = (r, fd, Some a')
      \<and> temporary_gone ops live a a')
    \<and> (\<exists>r a'. amdgpu_cs_syncobj_import_sync_file2 ops (Some a) syncobj point fd' = (r, Some a')
      \<and> temporary_gone ops live a a')
    \<and> amdgpu_cs_syncobj_export_sync_file2 ops dev syncobj 0 flags = amdgpu_cs_syncobj_export_sync_file ops dev syncobj
    \<and> amdgpu_cs_syncobj_import_sync_file2 ops dev syncobj 0 fd' = amdgpu_cs_syncobj_import_sync_file ops dev syncobj fd'
    \<and> (\<forall>a r fd b. DrmSyncobjExportSyncFile ops a syncobj = (r, fd, b) \<longrightarrow>
         amdgpu_cs_syncobj_export_sync_file ops (Some a) syncobj = (ext_rc r, Some fd, Some b) \<and> live b = live a)
    \<and> (\<forall>a r b. DrmSyncobjImportSyncFile ops a syncobj fd' = (r, b) \<longrightarrow>
         amdgpu_cs_syncobj_import_sync_file ops (Some a) syncobj fd' = (ext_rc r, Some b) \<and> live b = live a)
    \<and> amdgpu_cs_syncobj_export_sync_file2 ops None syncobj point flags = (Err EINVAL, None, None)
    \<and> amdgpu_cs_syncobj_import_sync_file2 ops None syncobj point fd' = (Err EINVAL, None)
    \<and> (\<forall>h a1 r2 a2 r3 fd a3. point \<noteq> 0 \<and> DrmSyncobjCreate ops a 0 = (0, h, a1)
         \<and> DrmSyncobjTransfer ops a1 h 0 syncobj point flags = (r2, a2)
         \<and> DrmSyncobjExportSyncFile ops a2 h = (r3, fd, a3) \<longrightarrow>
         amdgpu_cs_syncobj_export_sync_file2 ops (Some a) syncobj point flags =
           (if r2 \<noteq> 0 then (ext_rc r2, None, Some (snd (DrmSyncobjDestroy ops a2 h)))
            else (ext_rc r3, Some fd, Some (snd (DrmSyncobjDestroy ops a3 h)))))
    \<and> (\<forall>h a1 r2 a2 r3 a3. point \<noteq> 0 \<and> DrmSyncobjCreate ops a 0 = (0, h, a1)
         \<and> DrmSyncobjImportSyncFile ops a1 h fd' = (r2, a2)
         \<and> DrmSyncobjTransfer ops a2 syncobj point h 0 0 = (r3, a3) \<longrightarrow>
         amdgpu_cs_syncobj_import_sync_file2 ops (Some a) syncobj point fd' =
           (if r2 \<noteq> 0 then (ext_rc r2, Some (snd (DrmSyncobjDestroy ops a2 h)))
            else (ext_rc r3, Some (snd (DrmSyncobjDestroy ops a3 h)))))
    \<and> (\<forall>h r a1. point \<noteq> 0 \<and> DrmSyncobjCreate ops a 0 = (r, h, a1) \<and> r \<noteq> 0 \<longrightarrow>
         amdgpu_cs_syncobj_export_sync_file2 ops (Some a) syncobj point flags = (ext_rc r, None, Some a1)
       \<and> amdgpu_cs_syncobj_import_sync_file2 ops (Some a) syncobj point fd' = (ext_rc r, Some a1))"
proof -
  note files = amdgpu_cs_syncobj_export_sync_file2_def amdgpu_cs_syncobj_import_sync_file2_def
    amdgpu_cs_syncobj_export_sync_file_def amdgpu_cs_syncobj_import_sync_file_def on_dev_def on_dev_out_def
  note laws = law_transfer [OF assms] law_export [OF assms] law_import [OF assms]
  have "(\<exists>r fd a'. amdgpu_cs_syncobj_export_sync_file2 ops (Some a) syncobj point flags = (r, fd, Some a')
        \<and> temporary_gone ops live a a')
      \<and> (\<exists>r a'. amdgpu_cs_syncobj_import_sync_file2 ops (Some a) syncobj point fd' = (r, Some a')
        \<and> temporary_gone ops live a a')"
  proof (cases "point = 0")
    case True
    then show ?thesis using laws by (auto simp: files temporary_gone_def split: prod.split)
  next
    case False
    obtain r h a1 where c: "DrmSyncobjCreate ops a 0 = (r, h, a1)" by (cases "DrmSyncobjCreate ops a 0")
    show ?thesis
    proof (cases "r = 0")
      case True
      then have "h \<notin> live a" "live a1 = insert h (live a)" using law_create [OF assms c] by simp_all
      with True False c laws show ?thesis
        by (auto simp: files split: prod.split intro!: destroyed_temporary [OF assms])
    next
      case failed: False
      with False c law_create [OF assms c] show ?thesis by (simp add: files temporary_gone_def)
    qed
  qed
  then show ?thesis
    using laws(2,3) by (cases dev) (simp_all add: files split: prod.split)
qed

theorem sync_file2_leaks_nothing_witness:
  "amdgpu_cs_syncobj_export_sync_file2 demo_sync_ops (Some [7]) 7 3 0 = (Err (Ext 5), Some (-1), Some [7])
   \<and> (\<exists>r fd a'. amdgpu_cs_syncobj_export_sync_file2 demo_sync_ops (Some [7]) 7 3 0 = (r, fd, Some a')
        \<and> temporary_gone demo_sync_ops set [7] a')"
  using sync_file2_leaks_nothing [OF demo_sync_laws, of "[7]" 7 3 0]
  by (simp add: amdgpu_cs_syncobj_export_sync_file2_def demo_sync_ops_def ext_rc_def)

end
