(* ===== verification/Bytes.thy ===== *)
theory Bytes imports Prelude begin

text \<open>
  Memory as bytes, where a component hands a buffer to code outside the library that fills it:
  little-endian reading and writing of 32- and 64-bit integers and arrays of them; and C strings.
\<close>

definition le_nat :: "u8 list \<Rightarrow> nat" where
  "le_nat bs = foldr (\<lambda>b n. unat b + 256 * n) bs 0"

fun le_bytes :: "nat \<Rightarrow> nat \<Rightarrow> u8 list" where
  "le_bytes 0 v = []"
| "le_bytes (Suc n) v = of_nat (v mod 256) # le_bytes n (v div 256)"

definition u32_at :: "u8 list \<Rightarrow> nat \<Rightarrow> u32" where
  "u32_at bs off = of_nat (le_nat (take 4 (drop off bs)))"

definition u64_at :: "u8 list \<Rightarrow> nat \<Rightarrow> u64" where
  "u64_at bs off = of_nat (le_nat (take 8 (drop off bs)))"

fun words_bytes :: "u32 list \<Rightarrow> u8 list" where
  "words_bytes [] = []"
| "words_bytes (w # ws) = le_bytes 4 (unat w) @ words_bytes ws"

fun bytes_words :: "nat \<Rightarrow> u8 list \<Rightarrow> u32 list" where
  "bytes_words 0 bs = []"
| "bytes_words (Suc n) bs = u32_at bs 0 # bytes_words n (drop 4 bs)"

lemma length_le_bytes [simp]: "length (le_bytes n v) = n"
  by (induction n arbitrary: v) simp_all

lemma length_words_bytes [simp]: "length (words_bytes ws) = 4 * length ws"
  by (induction ws) simp_all

lemma length_bytes_words [simp]: "length (bytes_words n bs) = n"
  by (induction n arbitrary: bs) simp_all

lemma le_nat_le_bytes: "le_nat (le_bytes n v) = v mod 256 ^ n"
proof (induction n arbitrary: v)
  case 0
  then show ?case by (simp add: le_nat_def)
next
  case (Suc n)
  have "unat (of_nat (v mod 256) :: u8) = v mod 256" by (simp add: unat_of_nat take_bit_eq_mod)
  with Suc show ?case by (simp add: le_nat_def mod_mult2_eq)
qed

lemma u32_at_le_bytes [simp]: "u32_at (le_bytes 4 (unat w) @ bs) 0 = w"
proof -
  have "unat w < 2 ^ 32" using unsigned_less [of w, where ?'a = nat] by simp
  then show ?thesis by (simp add: u32_at_def le_nat_le_bytes)
qed

lemma u32_at_field:
  assumes "length xs = k" and "v < 2 ^ 32"
  shows "u32_at (xs @ le_bytes 4 v @ ys) k = of_nat v"
  using assms by (simp add: u32_at_def le_nat_le_bytes)

lemma bytes_words_words_bytes: "bytes_words (length ws) (words_bytes ws @ bs) = ws"
  by (induction ws) simp_all

text \<open>What is left of a buffer once its first bytes have been overwritten.\<close>

definition overlay :: "u8 list \<Rightarrow> u8 list \<Rightarrow> u8 list" where
  "overlay bs buf = bs @ drop (length bs) buf"

lemma length_overlay [simp]: "length bs \<le> length buf \<Longrightarrow> length (overlay bs buf) = length buf"
  by (simp add: overlay_def)

lemma overlay_Nil [simp]: "overlay [] buf = buf"
  by (simp add: overlay_def)

lemma overlay_all: "length bs = length buf \<Longrightarrow> overlay bs buf = bs"
  by (simp add: overlay_def)

text \<open>What a buffer holds as a C string: the characters before the first null character.\<close>

definition c_string :: "string \<Rightarrow> string" where
  "c_string s = takeWhile (\<lambda>c. c \<noteq> CHR 0x00) s"

end
