(* ===== verification/GpuInfo.thy ===== *)
theory GpuInfo imports Bytes begin

text \<open>
  The device queries of \<open>amdgpu/amdgpu_gpu_info.c\<close>. The accelerant's \<open>AmdgpuQueryInfo\<close> is a parameter
  over an abstract state: it answers a request with a code and the bytes it writes to
  \<open>return_pointer\<close>, of which the request's \<open>return_size\<close> lets at most that many through. Outputs of
  the library's functions are buffers of bytes or words; a write past the end of one is a fault.
\<close>

section \<open>Data\<close>

definition AMDGPU_INFO_ACCEL_WORKING :: u32 where "AMDGPU_INFO_ACCEL_WORKING = 0"
definition AMDGPU_INFO_CRTC_FROM_ID :: u32 where "AMDGPU_INFO_CRTC_FROM_ID = 1"
definition AMDGPU_INFO_HW_IP_INFO :: u32 where "AMDGPU_INFO_HW_IP_INFO = 2"
definition AMDGPU_INFO_HW_IP_COUNT :: u32 where "AMDGPU_INFO_HW_IP_COUNT = 3"
definition AMDGPU_INFO_FW_VERSION :: u32 where "AMDGPU_INFO_FW_VERSION = 0x0e"
definition AMDGPU_INFO_VRAM_USAGE :: u32 where "AMDGPU_INFO_VRAM_USAGE = 0x10"
definition AMDGPU_INFO_GTT_USAGE :: u32 where "AMDGPU_INFO_GTT_USAGE = 0x11"
definition AMDGPU_INFO_GDS_CONFIG :: u32 where "AMDGPU_INFO_GDS_CONFIG = 0x13"
definition AMDGPU_INFO_VRAM_GTT :: u32 where "AMDGPU_INFO_VRAM_GTT = 0x14"
definition AMDGPU_INFO_READ_MMR_REG :: u32 where "AMDGPU_INFO_READ_MMR_REG = 0x15"
definition AMDGPU_INFO_DEV_INFO :: u32 where "AMDGPU_INFO_DEV_INFO = 0x16"
definition AMDGPU_INFO_VIS_VRAM_USAGE :: u32 where "AMDGPU_INFO_VIS_VRAM_USAGE = 0x17"
definition AMDGPU_INFO_SENSOR :: u32 where "AMDGPU_INFO_SENSOR = 0x1d"
definition AMDGPU_INFO_VIDEO_CAPS :: u32 where "AMDGPU_INFO_VIDEO_CAPS = 0x21"

definition AMDGPU_FAMILY_CI :: u32 where "AMDGPU_FAMILY_CI = 120"
definition AMDGPU_FAMILY_AI :: u32 where "AMDGPU_FAMILY_AI = 141"

definition AMDGPU_GEM_DOMAIN_GTT :: u32 where "AMDGPU_GEM_DOMAIN_GTT = 2"
definition AMDGPU_GEM_DOMAIN_VRAM :: u32 where "AMDGPU_GEM_DOMAIN_VRAM = 4"
definition AMDGPU_GEM_CREATE_CPU_ACCESS_REQUIRED :: u32 where
  "AMDGPU_GEM_CREATE_CPU_ACCESS_REQUIRED = 1"

text \<open>The union of a request; \<open>no_query\<close> leaves it zeroed.\<close>

datatype info_query =
    no_query
  | mode_crtc u32
  | query_hw_ip u32 u32
  | read_mmr_reg u32 u32 u32 u32
  | query_fw u32 u32 u32
  | sensor_info u32

record drm_amdgpu_info =
  return_size :: u32
  info_query_id :: u32
  info_args :: info_query

record 'a info_ops =
  AmdgpuQueryInfo :: "'a \<Rightarrow> drm_amdgpu_info \<Rightarrow> int \<times> u8 list \<times> 'a"

record drm_amdgpu_info_device =
  device_id :: u32
  di_chip_rev :: u32
  external_rev :: u32
  pci_rev :: u32
  family :: u32
  di_num_shader_engines :: u32
  di_num_shader_arrays_per_engine :: u32
  di_gpu_counter_freq :: u32
  max_engine_clock :: u64
  max_memory_clock :: u64
  di_cu_active_number :: u32
  di_cu_ao_mask :: u32
  di_cu_bitmap :: "u32 list"
  di_enabled_rb_pipes_mask :: u32
  num_rb_pipes :: u32
  di_num_hw_gfx_contexts :: u32
  di_ids_flags :: u64
  di_virtual_address_offset :: u64
  di_virtual_address_max :: u64
  di_virtual_address_alignment :: u32
  pte_fragment_size :: u32
  gart_page_size :: u32
  di_ce_ram_size :: u32
  di_vram_type :: u32
  di_vram_bit_width :: u32
  di_vce_harvest_config :: u32
  high_va_offset :: u64
  high_va_max :: u64

text \<open>
  The structure in memory: 368 bytes, laid out as the header declares it. The fields from
  \<open>gc_double_offchip_lds_buf\<close> to \<open>cu_ao_bitmap\<close> and the last two are read nowhere in the library.
\<close>

definition sizeof_info_device :: nat where "sizeof_info_device = 368"

definition read_info_device :: "u8 list \<Rightarrow> drm_amdgpu_info_device" where
  "read_info_device m =
     \<lparr>device_id = u32_at m 0, di_chip_rev = u32_at m 4, external_rev = u32_at m 8, pci_rev = u32_at m 12,
      family = u32_at m 16, di_num_shader_engines = u32_at m 20,
      di_num_shader_arrays_per_engine = u32_at m 24, di_gpu_counter_freq = u32_at m 28,
      max_engine_clock = u64_at m 32, max_memory_clock = u64_at m 40, di_cu_active_number = u32_at m 48,
      di_cu_ao_mask = u32_at m 52, di_cu_bitmap = bytes_words 16 (drop 56 m),
      di_enabled_rb_pipes_mask = u32_at m 120, num_rb_pipes = u32_at m 124,
      di_num_hw_gfx_contexts = u32_at m 128, di_ids_flags = u64_at m 136,
      di_virtual_address_offset = u64_at m 144, di_virtual_address_max = u64_at m 152,
      di_virtual_address_alignment = u32_at m 160, pte_fragment_size = u32_at m 164,
      gart_page_size = u32_at m 168, di_ce_ram_size = u32_at m 172, di_vram_type = u32_at m 176,
      di_vram_bit_width = u32_at m 180, di_vce_harvest_config = u32_at m 184,
      high_va_offset = u64_at m 336, high_va_max = u64_at m 344\<rparr>"

record amdgpu_gpu_info =
  asic_id :: u32
  chip_rev :: u32
  chip_external_rev :: u32
  family_id :: u32
  ids_flags :: u64
  max_engine_clk :: u64
  max_memory_clk :: u64
  num_shader_engines :: u32
  num_shader_arrays_per_engine :: u32
  avail_quad_shader_pipes :: u32
  max_quad_shader_pipes :: u32
  cache_entries_per_quad_pipe :: u32
  num_hw_gfx_contexts :: u32
  rb_pipes :: u32
  enabled_rb_pipes_mask :: u32
  gpu_counter_freq :: u32
  backend_disable :: "u32 list"
  mc_arb_ramcfg :: u32
  gb_addr_cfg :: u32
  gb_tile_mode :: "u32 list"
  gb_macro_tile_mode :: "u32 list"
  pa_sc_raster_cfg :: "u32 list"
  pa_sc_raster_cfg1 :: "u32 list"
  cu_active_number :: u32
  cu_ao_mask :: u32
  cu_bitmap :: "u32 list"
  vram_type :: u32
  vram_bit_width :: u32
  ce_ram_size :: u32
  vce_harvest_config :: u32
  pci_rev_id :: u32

text \<open>The part of a device these functions work on; \<open>dev_info\<close> is the memory of that structure.\<close>

record 'a gpu_dev =
  gd_acc :: 'a
  dev_info :: "u8 list"
  gd_info :: amdgpu_gpu_info

section \<open>Queries\<close>

definition send_query ::
    "'a info_ops \<Rightarrow> 'a \<Rightarrow> drm_amdgpu_info \<Rightarrow> u8 list \<Rightarrow> (int \<times> u8 list \<times> 'a) outcome" where
  "send_query ops a request buf =
     (case AmdgpuQueryInfo ops a request of
        (r, bytes, a') \<Rightarrow>
          let written = take (unat (return_size request)) bytes
          in if length written \<le> length buf then Ret (r, overlay written buf, a') else Fault)"

definition amdgpu_query_info ::
    "'a info_ops \<Rightarrow> 'a \<Rightarrow> u32 \<Rightarrow> u32 \<Rightarrow> u8 list \<Rightarrow> (int \<times> u8 list \<times> 'a) outcome" where
  "amdgpu_query_info ops a info_id sz value =
     send_query ops a \<lparr>return_size = sz, info_query_id = info_id, info_args = no_query\<rparr> value"

definition amdgpu_query_crtc_from_id ::
    "'a info_ops \<Rightarrow> 'a \<Rightarrow> u32 \<Rightarrow> u8 list \<Rightarrow> (int \<times> u8 list \<times> 'a) outcome" where
  "amdgpu_query_crtc_from_id ops a crtc result =
     send_query ops a
       \<lparr>return_size = 4, info_query_id = AMDGPU_INFO_CRTC_FROM_ID, info_args = mode_crtc crtc\<rparr> result"

definition amdgpu_read_mm_registers ::
    "'a info_ops \<Rightarrow> 'a \<Rightarrow> u32 \<Rightarrow> u32 \<Rightarrow> u32 \<Rightarrow> u32 \<Rightarrow> u32 list \<Rightarrow> (int \<times> u32 list \<times> 'a) outcome" where
  "amdgpu_read_mm_registers ops a dword_offset count inst flags values =
     bind_outcome
       (send_query ops a
          \<lparr>return_size = count * 4, info_query_id = AMDGPU_INFO_READ_MMR_REG,
           info_args = read_mmr_reg dword_offset count inst flags\<rparr> (words_bytes values))
       (\<lambda>(r, buf, a'). Ret (r, bytes_words (length values) buf, a'))"

definition amdgpu_query_hw_ip_count ::
    "'a info_ops \<Rightarrow> 'a \<Rightarrow> u32 \<Rightarrow> u8 list \<Rightarrow> (int \<times> u8 list \<times> 'a) outcome" where
  "amdgpu_query_hw_ip_count ops a type count =
     send_query ops a
       \<lparr>return_size = 4, info_query_id = AMDGPU_INFO_HW_IP_COUNT, info_args = query_hw_ip type 0\<rparr> count"

text \<open>\<open>struct drm_amdgpu_info_hw_ip\<close> has 32 bytes.\<close>

definition amdgpu_query_hw_ip_info ::
    "'a info_ops \<Rightarrow> 'a \<Rightarrow> u32 \<Rightarrow> u32 \<Rightarrow> u8 list \<Rightarrow> (int \<times> u8 list \<times> 'a) outcome" where
  "amdgpu_query_hw_ip_info ops a type ip_instance info =
     send_query ops a
       \<lparr>return_size = 32, info_query_id = AMDGPU_INFO_HW_IP_INFO, info_args = query_hw_ip type ip_instance\<rparr>
       info"

text \<open>
  The answer goes to a local variable; the function returns before it copies the version and the
  feature out of it, so these outputs, given and returned, stay what they were.
\<close>

definition amdgpu_query_firmware_version ::
    "'a info_ops \<Rightarrow> 'a \<Rightarrow> u32 \<Rightarrow> u32 \<Rightarrow> u32 \<Rightarrow> u32 \<Rightarrow> u32 \<Rightarrow> (int \<times> u32 \<times> u32 \<times> 'a) outcome" where
  "amdgpu_query_firmware_version ops a fw_type ip_instance index version feature =
     bind_outcome
       (send_query ops a
          \<lparr>return_size = 8, info_query_id = AMDGPU_INFO_FW_VERSION,
           info_args = query_fw fw_type ip_instance index\<rparr> (replicate 8 0))
       (\<lambda>(r, firmware, a'). Ret (r, version, feature, a'))"

definition amdgpu_query_sensor_info ::
    "'a info_ops \<Rightarrow> 'a \<Rightarrow> u32 \<Rightarrow> u32 \<Rightarrow> u8 list \<Rightarrow> (int \<times> u8 list \<times> 'a) outcome" where
  "amdgpu_query_sensor_info ops a sensor_type sz value =
     send_query ops a
       \<lparr>return_size = sz, info_query_id = AMDGPU_INFO_SENSOR, info_args = sensor_info sensor_type\<rparr> value"

definition amdgpu_query_video_caps_info ::
    "'a info_ops \<Rightarrow> 'a \<Rightarrow> u32 \<Rightarrow> u32 \<Rightarrow> u8 list \<Rightarrow> (int \<times> u8 list \<times> 'a) outcome" where
  "amdgpu_query_video_caps_info ops a cap_type sz value =
     send_query ops a
       \<lparr>return_size = sz, info_query_id = AMDGPU_INFO_VIDEO_CAPS, info_args = sensor_info cap_type\<rparr> value"

section \<open>The device information at start-up\<close>

text \<open>\<open>if (r) return r;\<close> after a call that left the device in a new state.\<close>

definition if_ok ::
    "(int \<times> 'd) outcome \<Rightarrow> ('d \<Rightarrow> (int \<times> 'd) outcome) \<Rightarrow> (int \<times> 'd) outcome" where
  "if_ok x f = bind_outcome x (\<lambda>(r, d). if r \<noteq> 0 then Ret (r, d) else f d)"

definition query_dev_info :: "'a info_ops \<Rightarrow> 'a gpu_dev \<Rightarrow> (int \<times> 'a gpu_dev) outcome" where
  "query_dev_info ops d =
     bind_outcome (amdgpu_query_info ops (gd_acc d) AMDGPU_INFO_DEV_INFO 368 (dev_info d))
       (\<lambda>(r, m, a). Ret (r, d\<lparr>gd_acc := a, dev_info := m\<rparr>))"

definition copy_dev_info :: "drm_amdgpu_info_device \<Rightarrow> amdgpu_gpu_info \<Rightarrow> amdgpu_gpu_info" where
  "copy_dev_info di info =
     info\<lparr>asic_id := device_id di, chip_rev := di_chip_rev di, chip_external_rev := external_rev di,
          family_id := family di, max_engine_clk := max_engine_clock di,
          max_memory_clk := max_memory_clock di, gpu_counter_freq := di_gpu_counter_freq di,
          enabled_rb_pipes_mask := di_enabled_rb_pipes_mask di, rb_pipes := num_rb_pipes di,
          ids_flags := di_ids_flags di, num_hw_gfx_contexts := di_num_hw_gfx_contexts di,
          num_shader_engines := di_num_shader_engines di,
          num_shader_arrays_per_engine := di_num_shader_arrays_per_engine di,
          vram_type := di_vram_type di, vram_bit_width := di_vram_bit_width di,
          ce_ram_size := di_ce_ram_size di, vce_harvest_config := di_vce_harvest_config di,
          pci_rev_id := pci_rev di\<rparr>"

text \<open>Reading \<open>count\<close> registers into an array of the information, from its element \<open>i\<close> on.\<close>

definition read_regs ::
    "'a info_ops \<Rightarrow> u32 \<Rightarrow> u32 \<Rightarrow> u32 \<Rightarrow> (amdgpu_gpu_info \<Rightarrow> u32 list)
     \<Rightarrow> (u32 list \<Rightarrow> amdgpu_gpu_info \<Rightarrow> amdgpu_gpu_info) \<Rightarrow> nat \<Rightarrow> 'a gpu_dev
     \<Rightarrow> (int \<times> 'a gpu_dev) outcome" where
  "read_regs ops reg count inst get put i d =
     (let arr = get (gd_info d)
      in if i < length arr then
           bind_outcome (amdgpu_read_mm_registers ops (gd_acc d) reg count inst 0 (drop i arr))
             (\<lambda>(r, vs, a). Ret (r, d\<lparr>gd_acc := a, gd_info := put (take i arr @ vs) (gd_info d)\<rparr>))
         else Fault)"

definition se_instance :: "nat \<Rightarrow> u32" where
  "se_instance i = of_nat i OR push_bit 8 0xff"

text \<open>The body of the loop over the shader engines.\<close>

definition read_shader_engine :: "'a info_ops \<Rightarrow> nat \<Rightarrow> 'a gpu_dev \<Rightarrow> (int \<times> 'a gpu_dev) outcome" where
  "read_shader_engine ops i d =
     if_ok (read_regs ops 0x263d 1 (se_instance i) backend_disable (\<lambda>v. backend_disable_update (\<lambda>_. v)) i d) (\<lambda>d.
     let d' = d\<lparr>gd_info := backend_disable_update
                (\<lambda>v. v[i := drop_bit 16 (v ! i) AND 0xff]) (gd_info d)\<rparr> in
     if_ok (read_regs ops 0xa0d4 1 (se_instance i) pa_sc_raster_cfg (\<lambda>v. pa_sc_raster_cfg_update (\<lambda>_. v)) i d') (\<lambda>d.
     if AMDGPU_FAMILY_CI \<le> family_id (gd_info d) then
       read_regs ops 0xa0d5 1 (se_instance i) pa_sc_raster_cfg1 (\<lambda>v. pa_sc_raster_cfg1_update (\<lambda>_. v)) i d
     else Ret (0, d)))"

fun read_shader_engines :: "'a info_ops \<Rightarrow> nat list \<Rightarrow> 'a gpu_dev \<Rightarrow> (int \<times> 'a gpu_dev) outcome" where
  "read_shader_engines ops [] d = Ret (0, d)"
| "read_shader_engines ops (i # ns) d =
     if_ok (read_shader_engine ops i d) (read_shader_engines ops ns)"

text \<open>The number of rounds of \<open>for (i = 0; i < (int)num_shader_engines; i++)\<close>; a number from 2^31 on is
  negative as an \<open>int\<close>.\<close>

definition se_rounds :: "u32 \<Rightarrow> nat" where
  "se_rounds n = (if unat n < 2 ^ 31 then unat n else 0)"

text \<open>A single register is an array of one element.\<close>

definition read_addr_cfg :: "'a info_ops \<Rightarrow> 'a gpu_dev \<Rightarrow> (int \<times> 'a gpu_dev) outcome" where
  "read_addr_cfg ops d =
     read_regs ops 0x263e 1 0xffffffff (\<lambda>info. [gb_addr_cfg info]) (\<lambda>v. gb_addr_cfg_update (\<lambda>_. v ! 0)) 0 d"

definition read_tile_modes :: "'a info_ops \<Rightarrow> 'a gpu_dev \<Rightarrow> (int \<times> 'a gpu_dev) outcome" where
  "read_tile_modes ops d =
     if_ok (read_regs ops 0x2644 32 0xffffffff gb_tile_mode (\<lambda>v. gb_tile_mode_update (\<lambda>_. v)) 0 d) (\<lambda>d.
     if_ok
       (if AMDGPU_FAMILY_CI \<le> family_id (gd_info d) then
          read_regs ops 0x2664 16 0xffffffff gb_macro_tile_mode (\<lambda>v. gb_macro_tile_mode_update (\<lambda>_. v)) 0 d
        else Ret (0, d)) (\<lambda>d.
     read_regs ops 0x9d8 1 0xffffffff (\<lambda>info. [mc_arb_ramcfg info]) (\<lambda>v. mc_arb_ramcfg_update (\<lambda>_. v ! 0)) 0 d))"

definition copy_cu_info :: "drm_amdgpu_info_device \<Rightarrow> amdgpu_gpu_info \<Rightarrow> amdgpu_gpu_info" where
  "copy_cu_info di info =
     info\<lparr>cu_active_number := di_cu_active_number di, cu_ao_mask := di_cu_ao_mask di,
          cu_bitmap := di_cu_bitmap di\<rparr>"

definition amdgpu_query_gpu_info_init :: "'a info_ops \<Rightarrow> 'a gpu_dev \<Rightarrow> (int \<times> 'a gpu_dev) outcome" where
  "amdgpu_query_gpu_info_init ops d =
     if_ok (query_dev_info ops d) (\<lambda>d.
     let d' = d\<lparr>gd_info := copy_dev_info (read_info_device (dev_info d)) (gd_info d)\<rparr> in
     if_ok
       (if family_id (gd_info d') < AMDGPU_FAMILY_AI then
          read_shader_engines ops [0..<se_rounds (num_shader_engines (gd_info d'))] d'
        else Ret (0, d')) (\<lambda>d.
     if_ok (read_addr_cfg ops d) (\<lambda>d.
     if_ok
       (if family_id (gd_info d) < AMDGPU_FAMILY_AI then read_tile_modes ops d else Ret (0, d)) (\<lambda>d.
     Ret (0, d\<lparr>gd_info := copy_cu_info (read_info_device (dev_info d)) (gd_info d)\<rparr>)))))"

definition amdgpu_query_gpu_info :: "'a gpu_dev option \<Rightarrow> bool \<Rightarrow> rc \<times> amdgpu_gpu_info option" where
  "amdgpu_query_gpu_info dev has_info =
     (case dev of
        None \<Rightarrow> (Err EINVAL, None)
      | Some d \<Rightarrow> if \<not> has_info then (Err EINVAL, None) else (OK, Some (gd_info d)))"

section \<open>Heaps\<close>

record amdgpu_heap_info =
  heap_size :: u64
  heap_usage :: u64
  max_allocation :: u64

record drm_amdgpu_info_vram_gtt =
  vram_size :: u64
  vram_cpu_accessible_size :: u64
  gtt_size :: u64

definition read_vram_gtt :: "u8 list \<Rightarrow> drm_amdgpu_info_vram_gtt" where
  "read_vram_gtt m = \<lparr>vram_size = u64_at m 0, vram_cpu_accessible_size = u64_at m 8, gtt_size = u64_at m 16\<rparr>"

text \<open>The usage is read into the field of the caller's structure.\<close>

definition read_heap_usage ::
    "'a info_ops \<Rightarrow> 'a \<Rightarrow> u32 \<Rightarrow> amdgpu_heap_info \<Rightarrow> (rc \<times> amdgpu_heap_info \<times> 'a) outcome" where
  "read_heap_usage ops a info_id info =
     bind_outcome (amdgpu_query_info ops a info_id 8 (le_bytes 8 (unat (heap_usage info))))
       (\<lambda>(r, m, a'). Ret (ext_rc r, info\<lparr>heap_usage := u64_at m 0\<rparr>, a'))"

definition amdgpu_query_heap_info ::
    "'a info_ops \<Rightarrow> 'a \<Rightarrow> u32 \<Rightarrow> u32 \<Rightarrow> amdgpu_heap_info \<Rightarrow> (rc \<times> amdgpu_heap_info \<times> 'a) outcome" where
  "amdgpu_query_heap_info ops a heap flags info =
     bind_outcome (amdgpu_query_info ops a AMDGPU_INFO_VRAM_GTT 24 (replicate 24 0)) (\<lambda>(r, m, a1).
       if r \<noteq> 0 then Ret (ext_rc r, info, a1)
       else
         (let vram_gtt_info = read_vram_gtt m;
              visible = (flags AND AMDGPU_GEM_CREATE_CPU_ACCESS_REQUIRED \<noteq> 0)
          in if heap = AMDGPU_GEM_DOMAIN_VRAM then
               read_heap_usage ops a1
                 (if visible then AMDGPU_INFO_VIS_VRAM_USAGE else AMDGPU_INFO_VRAM_USAGE)
                 (info\<lparr>heap_size := (if visible then vram_cpu_accessible_size vram_gtt_info
                                    else vram_size vram_gtt_info),
                       max_allocation := vram_cpu_accessible_size vram_gtt_info\<rparr>)
             else if heap = AMDGPU_GEM_DOMAIN_GTT then
               read_heap_usage ops a1 AMDGPU_INFO_GTT_USAGE
                 (info\<lparr>heap_size := gtt_size vram_gtt_info,
                       max_allocation := vram_cpu_accessible_size vram_gtt_info\<rparr>)
             else Ret (Err EINVAL, info, a1)))"

record amdgpu_gds_resource_info =
  gds_gfx_partition_size :: u32
  compute_partition_size :: u32
  gds_total_size :: u32
  gws_per_gfx_partition :: u32
  gws_per_compute_partition :: u32
  oa_per_gfx_partition :: u32
  oa_per_compute_partition :: u32

definition read_info_gds :: "u8 list \<Rightarrow> amdgpu_gds_resource_info" where
  "read_info_gds m =
     \<lparr>gds_gfx_partition_size = u32_at m 0, compute_partition_size = u32_at m 4,
      gds_total_size = u32_at m 8, gws_per_gfx_partition = u32_at m 12,
      gws_per_compute_partition = u32_at m 16, oa_per_gfx_partition = u32_at m 20,
      oa_per_compute_partition = u32_at m 24\<rparr>"

definition amdgpu_query_gds_info ::
    "'a info_ops \<Rightarrow> 'a \<Rightarrow> amdgpu_gds_resource_info option
     \<Rightarrow> (rc \<times> amdgpu_gds_resource_info option \<times> 'a) outcome" where
  "amdgpu_query_gds_info ops a gds_info =
     (case gds_info of
        None \<Rightarrow> Ret (Err EINVAL, None, a)
      | Some info \<Rightarrow>
          bind_outcome (amdgpu_query_info ops a AMDGPU_INFO_GDS_CONFIG 32 (replicate 32 0)) (\<lambda>(r, m, a').
            if r \<noteq> 0 then Ret (ext_rc r, Some info, a') else Ret (OK, Some (read_info_gds m), a')))"

section \<open>The shape of the information\<close>

definition info_wf :: "amdgpu_gpu_info \<Rightarrow> bool" where
  "info_wf info \<longleftrightarrow>
     length (backend_disable info) = 4 \<and> length (gb_tile_mode info) = 32
   \<and> length (gb_macro_tile_mode info) = 16 \<and> length (pa_sc_raster_cfg info) = 4
   \<and> length (pa_sc_raster_cfg1 info) = 4 \<and> length (cu_bitmap info) = 16"

text \<open>
  The information agrees with what the device structure \<open>m\<close> in memory says, field by field at the
  byte each has in the layout of the accelerant's header; the second part is copied last.
\<close>

definition info_matches :: "u8 list \<Rightarrow> amdgpu_gpu_info \<Rightarrow> bool" where
  "info_matches m info \<longleftrightarrow>
     asic_id info = u32_at m 0 \<and> chip_rev info = u32_at m 4 \<and> chip_external_rev info = u32_at m 8
   \<and> pci_rev_id info = u32_at m 12 \<and> family_id info = u32_at m 16 \<and> num_shader_engines info = u32_at m 20
   \<and> num_shader_arrays_per_engine info = u32_at m 24 \<and> gpu_counter_freq info = u32_at m 28
   \<and> max_engine_clk info = u64_at m 32 \<and> max_memory_clk info = u64_at m 40
   \<and> enabled_rb_pipes_mask info = u32_at m 120 \<and> rb_pipes info = u32_at m 124
   \<and> num_hw_gfx_contexts info = u32_at m 128 \<and> ids_flags info = u64_at m 136
   \<and> ce_ram_size info = u32_at m 172 \<and> vram_type info = u32_at m 176 \<and> vram_bit_width info = u32_at m 180
   \<and> vce_harvest_config info = u32_at m 184"

definition cu_matches :: "u8 list \<Rightarrow> amdgpu_gpu_info \<Rightarrow> bool" where
  "cu_matches m info \<longleftrightarrow>
     cu_active_number info = u32_at m 48 \<and> cu_ao_mask info = u32_at m 52
   \<and> cu_bitmap info = map (\<lambda>k. u32_at m (56 + 4 * k)) [0..<16]"

lemma bytes_words_at: "bytes_words n bs = map (\<lambda>k. u32_at bs (4 * k)) [0..<n]"
proof (induction n arbitrary: bs)
  case (Suc n)
  have "map (\<lambda>k. u32_at bs (4 * k)) [0..<Suc n] = u32_at bs 0 # map (\<lambda>k. u32_at bs (4 * Suc k)) [0..<n]"
    by (simp only: upt_conv_Cons zero_less_Suc map_Suc_upt [symmetric]) simp
  then show ?case by (simp add: Suc.IH u32_at_def add.commute)
qed simp

definition init_inv :: "u8 list \<Rightarrow> 'a gpu_dev \<Rightarrow> bool" where
  "init_inv m d \<longleftrightarrow> dev_info d = m \<and> info_wf (gd_info d) \<and> info_matches m (gd_info d)"

definition init_ok :: "u8 list \<Rightarrow> (int \<times> 'a gpu_dev) outcome \<Rightarrow> bool" where
  "init_ok m x \<longleftrightarrow> (\<exists>r d'. x = Ret (r, d') \<and> init_inv m d')"

lemma init_ok_Ret [simp]: "init_ok m (Ret (r, d)) \<longleftrightarrow> init_inv m d"
  by (simp add: init_ok_def)

lemma init_ok_if_ok [intro]:
  "init_ok m x \<Longrightarrow> (\<And>d'. init_inv m d' \<Longrightarrow> init_ok m (f d')) \<Longrightarrow> init_ok m (if_ok x f)"
  by (auto simp: init_ok_def if_ok_def split: if_splits)

lemma send_query_total:
  assumes "unat (return_size request) \<le> length buf"
  obtains r buf' a' where "send_query ops a request buf = Ret (r, buf', a')" and "length buf' = length buf"
proof -
  obtain r bytes a' where q: "AmdgpuQueryInfo ops a request = (r, bytes, a')"
    by (cases "AmdgpuQueryInfo ops a request")
  let ?w = "take (unat (return_size request)) bytes"
  have "length ?w \<le> length buf" using assms by simp
  then show thesis
    by (intro that [of r "overlay ?w buf" a']) (simp_all only: send_query_def q prod.case Let_def if_True length_overlay)
qed

lemma read_regs_total:
  assumes "i < length (get (gd_info d))" and "unat (count * 4) \<le> 4 * (length (get (gd_info d)) - i)"
  obtains r vs a where "read_regs ops reg count inst get put i d =
      Ret (r, d\<lparr>gd_acc := a, gd_info := put (take i (get (gd_info d)) @ vs) (gd_info d)\<rparr>)"
    "length vs = length (get (gd_info d)) - i"
proof -
  let ?req = "\<lparr>return_size = count * 4, info_query_id = AMDGPU_INFO_READ_MMR_REG,
    info_args = read_mmr_reg reg count inst 0\<rparr>"
  have "unat (return_size ?req) \<le> length (words_bytes (drop i (get (gd_info d))))" using assms(2) by simp
  then obtain r buf a where "send_query ops (gd_acc d) ?req (words_bytes (drop i (get (gd_info d)))) = Ret (r, buf, a)"
    by (rule send_query_total)
  with assms(1) show thesis
    by (intro that [of r "bytes_words (length (get (gd_info d)) - i) buf" a])
      (simp_all add: read_regs_def amdgpu_read_mm_registers_def Let_def)
qed

lemma read_regs_init_ok:
  assumes inv: "init_inv m d" and i: "i < length (get (gd_info d))"
    and sz: "unat (count * 4) \<le> 4 * (length (get (gd_info d)) - i)"
    and wf: "\<And>v. length v = length (get (gd_info d)) \<Longrightarrow> info_wf (put v (gd_info d))"
    and keep: "\<And>v info. info_matches m (put v info) = info_matches m info"
  shows "init_ok m (read_regs ops reg count inst get put i d)"
proof -
  obtain r vs a where r: "read_regs ops reg count inst get put i d =
      Ret (r, d\<lparr>gd_acc := a, gd_info := put (take i (get (gd_info d)) @ vs) (gd_info d)\<rparr>)"
    "length vs = length (get (gd_info d)) - i"
    by (rule read_regs_total [of i get d count ops reg inst put]) (use i sz in auto)
  with i have "length (take i (get (gd_info d)) @ vs) = length (get (gd_info d))" by simp
  with inv wf keep r(1) show ?thesis by (auto simp: init_inv_def)
qed

lemma info_matches_kept:
  "info_matches m (backend_disable_update f info) = info_matches m info"
  "info_matches m (pa_sc_raster_cfg_update f info) = info_matches m info"
  "info_matches m (pa_sc_raster_cfg1_update f info) = info_matches m info"
  "info_matches m (gb_tile_mode_update f info) = info_matches m info"
  "info_matches m (gb_macro_tile_mode_update f info) = info_matches m info"
  "info_matches m (gb_addr_cfg_update g info) = info_matches m info"
  "info_matches m (mc_arb_ramcfg_update g info) = info_matches m info"
  "info_matches m (copy_cu_info di info) = info_matches m info"
  by (simp_all add: info_matches_def copy_cu_info_def)

lemma read_shader_engine_ok:
  assumes "init_inv m d" and "i < 4"
  shows "init_ok m (read_shader_engine ops i d)"
proof -
  have one: "unat ((1 :: u32) * 4) \<le> 4 * (4 - i)" using assms(2) by simp
  show ?thesis
    unfolding read_shader_engine_def Let_def
    using assms one
    by (auto intro!: init_ok_if_ok read_regs_init_ok simp: init_inv_def info_wf_def info_matches_kept)
qed

lemma read_shader_engines_ok:
  "init_inv m d \<Longrightarrow> \<forall>i\<in>set ns. i < 4 \<Longrightarrow> init_ok m (read_shader_engines ops ns d)"
proof (induction ns arbitrary: d)
  case (Cons i ns)
  then show ?case by (auto intro!: init_ok_if_ok read_shader_engine_ok)
qed simp

lemma read_addr_cfg_ok: "init_inv m d \<Longrightarrow> init_ok m (read_addr_cfg ops d)"
  unfolding read_addr_cfg_def
  by (rule read_regs_init_ok) (auto simp: init_inv_def info_wf_def info_matches_kept)

lemma read_tile_modes_ok: "init_inv m d \<Longrightarrow> init_ok m (read_tile_modes ops d)"
  unfolding read_tile_modes_def
  by (auto intro!: init_ok_if_ok read_regs_init_ok simp: init_inv_def info_wf_def info_matches_kept)

lemma copy_cu_info_matches: "cu_matches m (copy_cu_info (read_info_device m) info)"
proof -
  have "di_cu_bitmap (read_info_device m) = map (\<lambda>k. u32_at m (56 + 4 * k)) [0..<16]"
    by (simp add: read_info_device_def bytes_words_at) (simp add: u32_at_def add.commute)
  then show ?thesis by (simp add: cu_matches_def copy_cu_info_def read_info_device_def)
qed

lemma copy_cu_info_inv:
  assumes "init_inv m d"
  shows "init_inv m (d\<lparr>gd_info := copy_cu_info (read_info_device m) (gd_info d)\<rparr>)"
proof -
  have "length (di_cu_bitmap (read_info_device m)) = 16" by (simp add: read_info_device_def)
  then show ?thesis
    using assms by (simp add: init_inv_def info_matches_kept) (simp add: info_wf_def copy_cu_info_def)
qed

lemma copy_dev_info_inv:
  "info_wf (gd_info d) \<Longrightarrow> init_inv (dev_info d) (d\<lparr>gd_info := copy_dev_info (read_info_device (dev_info d)) (gd_info d)\<rparr>)"
  by (simp add: init_inv_def info_wf_def info_matches_def copy_dev_info_def read_info_device_def)

lemma if_ok_last: "if_ok x f = Ret (0, d') \<Longrightarrow> \<exists>d. f d = Ret (0, d')"
  by (cases x) (auto simp: if_ok_def split: prod.splits if_splits)

section \<open>Properties\<close>

text \<open>Properties of the whole function need what the first query answers.\<close>

definition dev_info_answer :: "'a info_ops \<Rightarrow> 'a gpu_dev \<Rightarrow> int \<times> u8 list \<times> 'a" where
  "dev_info_answer ops d =
     AmdgpuQueryInfo ops (gd_acc d)
       \<lparr>return_size = 368, info_query_id = AMDGPU_INFO_DEV_INFO, info_args = no_query\<rparr>"

lemma query_dev_info_answer:
  assumes "length (dev_info d) = sizeof_info_device" and "dev_info_answer ops d = (r, bytes, a)"
  shows "query_dev_info ops d = Ret (r, d\<lparr>gd_acc := a, dev_info := overlay (take 368 bytes) (dev_info d)\<rparr>)"
  using assms
  by (simp add: query_dev_info_def amdgpu_query_info_def send_query_def dev_info_answer_def Let_def sizeof_info_device_def)

text \<open>The device structure in memory after that query.\<close>

definition answered_info :: "'a info_ops \<Rightarrow> 'a gpu_dev \<Rightarrow> u8 list" where
  "answered_info ops d = overlay (take 368 (fst (snd (dev_info_answer ops d)))) (dev_info d)"

lemma init_after_answer:
  assumes "length (dev_info d) = sizeof_info_device" and "dev_info_answer ops d = (0, bytes, a)"
  shows "amdgpu_query_gpu_info_init ops d =
    (let m = answered_info ops d;
         d' = d\<lparr>gd_acc := a, dev_info := m, gd_info := copy_dev_info (read_info_device m) (gd_info d)\<rparr> in
     if_ok
       (if u32_at m 16 < AMDGPU_FAMILY_AI then
          read_shader_engines ops [0..<se_rounds (u32_at m 20)] d'
        else Ret (0, d')) (\<lambda>d.
     if_ok (read_addr_cfg ops d) (\<lambda>d.
     if_ok
       (if family_id (gd_info d) < AMDGPU_FAMILY_AI then read_tile_modes ops d else Ret (0, d)) (\<lambda>d.
     Ret (0, d\<lparr>gd_info := copy_cu_info (read_info_device (dev_info d)) (gd_info d)\<rparr>)))))"
  using query_dev_info_answer [OF assms] assms(2)
  by (simp add: amdgpu_query_gpu_info_init_def if_ok_def [of "Ret (0, x)" for x] answered_info_def Let_def
      copy_dev_info_def read_info_device_def)

text \<open>A device of an old family that answers with a given number of shader engines.\<close>

definition demo_info_bytes :: "nat \<Rightarrow> u8 list" where
  "demo_info_bytes n = replicate 16 0 @ le_bytes 4 110 @ le_bytes 4 n @ replicate 344 0"

definition demo_info_ops :: "nat \<Rightarrow> unit info_ops" where
  "demo_info_ops n =
     \<lparr>AmdgpuQueryInfo = (\<lambda>a req.
        if info_query_id req = AMDGPU_INFO_DEV_INFO then (0, demo_info_bytes n, a) else (0, [7, 0, 5, 0], a))\<rparr>"

definition zero_info :: amdgpu_gpu_info where
  "zero_info =
     \<lparr>asic_id = 0, chip_rev = 0, chip_external_rev = 0, family_id = 0, ids_flags = 0, max_engine_clk = 0,
      max_memory_clk = 0, num_shader_engines = 0, num_shader_arrays_per_engine = 0,
      avail_quad_shader_pipes = 0, max_quad_shader_pipes = 0, cache_entries_per_quad_pipe = 0,
      num_hw_gfx_contexts = 0, rb_pipes = 0, enabled_rb_pipes_mask = 0, gpu_counter_freq = 0,
      backend_disable = replicate 4 0, mc_arb_ramcfg = 0, gb_addr_cfg = 0,
      gb_tile_mode = replicate 32 0, gb_macro_tile_mode = replicate 16 0,
      pa_sc_raster_cfg = replicate 4 0, pa_sc_raster_cfg1 = replicate 4 0, cu_active_number = 0,
      cu_ao_mask = 0, cu_bitmap = replicate 16 0, vram_type = 0, vram_bit_width = 0, ce_ram_size = 0,
      vce_harvest_config = 0, pci_rev_id = 0\<rparr>"

definition demo_gpu_dev :: "unit gpu_dev" where
  "demo_gpu_dev = \<lparr>gd_acc = (), dev_info = replicate sizeof_info_device 0, gd_info = zero_info\<rparr>"

lemma demo_gpu_dev_ok:
  "length (dev_info demo_gpu_dev) = sizeof_info_device" "info_wf (gd_info demo_gpu_dev)"
  by (simp_all add: demo_gpu_dev_def info_wf_def zero_info_def)

lemma demo_answer:
  assumes "n < 2 ^ 32"
  shows "answered_info (demo_info_ops n) demo_gpu_dev = demo_info_bytes n"
    and "u32_at (demo_info_bytes n) 16 = 110" and "u32_at (demo_info_bytes n) 20 = of_nat n"
    and "fst (dev_info_answer (demo_info_ops n) demo_gpu_dev) = 0"
proof -
  have "length (demo_info_bytes n) = 368" by (simp add: demo_info_bytes_def)
  then show "answered_info (demo_info_ops n) demo_gpu_dev = demo_info_bytes n"
    by (simp add: answered_info_def dev_info_answer_def demo_info_ops_def demo_gpu_dev_def overlay_all
        sizeof_info_device_def)
  show "u32_at (demo_info_bytes n) 16 = 110"
    using u32_at_field [of "replicate 16 0" 16 110] by (simp add: demo_info_bytes_def)
  show "u32_at (demo_info_bytes n) 20 = of_nat n"
    using u32_at_field [of "replicate 16 0 @ le_bytes 4 110" 20 n] assms by (simp add: demo_info_bytes_def)
  show "fst (dev_info_answer (demo_info_ops n) demo_gpu_dev) = 0"
    by (simp add: dev_info_answer_def demo_info_ops_def)
qed

text \<open>C23. Starting from zeroed memory, whatever the accelerant answers to any of the queries, a device
  with at most four shader engines, or a family without the per-engine registers, is initialised
  without writing outside an array of the information: every array keeps its declared size, also when
  a query fails half way. On success every field that is taken from the device structure has the value at
  its place in the 368 bytes the accelerant answered with, the sixteen words of the map of the
  compute units included.\<close>

theorem gpu_info_init_typed:
  assumes "length (dev_info d) = sizeof_info_device" and "info_wf (gd_info d)"
    and "unat (u32_at (answered_info ops d) 20) \<le> 4 \<or> AMDGPU_FAMILY_AI \<le> u32_at (answered_info ops d) 16"
  shows "\<exists>r d'. amdgpu_query_gpu_info_init ops d = Ret (r, d') \<and> info_wf (gd_info d')
    \<and> (r = 0 \<longrightarrow> dev_info d' = answered_info ops d \<and> info_matches (answered_info ops d) (gd_info d')
         \<and> cu_matches (answered_info ops d) (gd_info d'))"
proof -
  obtain r0 bytes a where q: "dev_info_answer ops d = (r0, bytes, a)" by (cases "dev_info_answer ops d")
  show ?thesis
  proof (cases "r0 = 0")
    case False
    then show ?thesis
      using assms(2) query_dev_info_answer [OF assms(1) q]
      by (simp add: amdgpu_query_gpu_info_init_def if_ok_def [of "Ret (r0, x)" for x])
  next
    case True
    let ?m = "answered_info ops d"
    let ?d = "d\<lparr>gd_acc := a, dev_info := ?m, gd_info := copy_dev_info (read_info_device ?m) (gd_info d)\<rparr>"
    have inv: "init_inv ?m ?d"
      using copy_dev_info_inv [of "d\<lparr>gd_acc := a, dev_info := ?m\<rparr>"] assms(2) by simp
    have engines: "init_ok ?m (read_shader_engines ops [0..<se_rounds (u32_at ?m 20)] ?d)"
      if "u32_at ?m 16 < AMDGPU_FAMILY_AI"
      using that assms(3) by (intro read_shader_engines_ok [OF inv]) (auto simp: se_rounds_def)
    have cu: "init_inv ?m (d'\<lparr>gd_info := copy_cu_info (read_info_device (dev_info d')) (gd_info d')\<rparr>)"
      if "init_inv ?m d'" for d'
      using copy_cu_info_inv [OF that] that by (simp add: init_inv_def)
    have "init_ok ?m (amdgpu_query_gpu_info_init ops d)"
      unfolding init_after_answer [OF assms(1) q [unfolded True]] Let_def
      by (intro init_ok_if_ok read_addr_cfg_ok)
        (simp_all add: engines inv read_tile_modes_ok cu)
    then obtain r d' where res: "amdgpu_query_gpu_info_init ops d = Ret (r, d')" "init_inv ?m d'"
      by (auto simp: init_ok_def)
    have "cu_matches ?m (gd_info d')" if r0: "r = 0"
    proof -
      obtain e where "d' = e\<lparr>gd_info := copy_cu_info (read_info_device (dev_info e)) (gd_info e)\<rparr>"
        using res(1) r0 unfolding init_after_answer [OF assms(1) q [unfolded True]] Let_def
        by (auto dest!: if_ok_last)
      then show ?thesis
        using res(2) copy_cu_info_matches [of ?m "gd_info e"] by (simp add: init_inv_def)
    qed
    with res show ?thesis by (auto simp: init_inv_def)
  qed
qed

lemma if_ok_Fault [simp]: "if_ok Fault f = Fault"
  by (simp add: if_ok_def)

lemma if_ok_zero: "x = Ret (0, d) \<Longrightarrow> if_ok x f = f d"
  by (simp add: if_ok_def)

lemma if_ok_assoc: "if_ok (if_ok y f) g = if_ok y (\<lambda>d. if_ok (f d) g)"
  by (cases y) (auto simp: if_ok_def)

lemma read_shader_engines_append:
  "read_shader_engines ops (xs @ ys) d = if_ok (read_shader_engines ops xs d) (read_shader_engines ops ys)"
proof (induction xs arbitrary: d)
  case Nil
  then show ?case by (simp add: if_ok_def)
next
  case (Cons x xs)
  have "read_shader_engines ops (xs @ ys) = (\<lambda>d. if_ok (read_shader_engines ops xs d) (read_shader_engines ops ys))"
    using Cons by (intro ext)
  then show ?case by (simp add: if_ok_assoc)
qed

definition registers_readable :: "'a info_ops \<Rightarrow> bool" where
  "registers_readable ops \<longleftrightarrow>
     (\<forall>a req. info_query_id req = AMDGPU_INFO_READ_MMR_REG \<longrightarrow> fst (AmdgpuQueryInfo ops a req) = 0)"

lemma read_regs_zero:
  assumes "registers_readable ops" and "read_regs ops reg count inst get put i d = Ret (r, d')"
  shows "r = 0"
proof -
  have "fst (AmdgpuQueryInfo ops (gd_acc d) \<lparr>return_size = count * 4, info_query_id = AMDGPU_INFO_READ_MMR_REG,
      info_args = read_mmr_reg reg count inst 0\<rparr>) = 0"
    using assms(1) by (simp add: registers_readable_def)
  with assms(2) show ?thesis
    by (auto simp: read_regs_def amdgpu_read_mm_registers_def send_query_def Let_def bind_outcome_Ret_iff
        split: if_splits prod.splits)
qed

lemma if_ok_RetE:
  assumes "if_ok x f = Ret (r, d)" and "\<And>r d. x = Ret (r, d) \<Longrightarrow> r = 0" and "\<And>e r d. f e = Ret (r, d) \<Longrightarrow> r = 0"
  shows "r = 0"
  using assms by (cases x) (auto simp: if_ok_def split: prod.splits if_splits)

lemma read_shader_engines_zero:
  assumes "registers_readable ops" and "read_shader_engines ops ns d = Ret (r, d')"
  shows "r = 0"
proof -
  have one: "read_shader_engine ops i d = Ret (r, d') \<Longrightarrow> r = 0" for i d r d'
    unfolding read_shader_engine_def Let_def
    by (elim if_ok_RetE) (auto dest: read_regs_zero [OF assms(1)] elim!: if_ok_RetE split: if_splits)
  show ?thesis
    using assms(2)
  proof (induction ns arbitrary: r d d')
    case (Cons i ns)
    show ?case
      by (rule if_ok_RetE [OF Cons.prems [unfolded read_shader_engines.simps]]) (use one Cons.IH in auto)
  qed simp
qed

theorem gpu_info_init_typed_witness:
  "\<exists>r d'. amdgpu_query_gpu_info_init (demo_info_ops 4) demo_gpu_dev = Ret (r, d') \<and> info_wf (gd_info d')
     \<and> (r = 0 \<longrightarrow> family_id (gd_info d') = 110 \<and> num_shader_engines (gd_info d') = 4)"
  using gpu_info_init_typed [OF demo_gpu_dev_ok, of "demo_info_ops 4"] demo_answer [of 4]
  by (auto simp: info_matches_def)

text \<open>C24. A device of a family before AI that reports more than four shader engines (and fewer
  than 2^31, from where on the count is negative) makes the loop over them write past the end of the four-element arrays, unless a register query fails before that.\<close>

theorem gpu_info_init_overflow:
  assumes "length (dev_info d) = sizeof_info_device" and "info_wf (gd_info d)"
    and "fst (dev_info_answer ops d) = 0" and "registers_readable ops"
    and "4 < unat (u32_at (answered_info ops d) 20)" and "unat (u32_at (answered_info ops d) 20) < 2 ^ 31"
    and "u32_at (answered_info ops d) 16 < AMDGPU_FAMILY_AI"
  shows "amdgpu_query_gpu_info_init ops d = Fault"
proof -
  let ?m = "answered_info ops d"
  let ?n = "unat (u32_at ?m 20)"
  obtain bytes a where q: "dev_info_answer ops d = (0, bytes, a)"
    using assms(3) by (cases "dev_info_answer ops d") simp
  let ?d = "d\<lparr>gd_acc := a, dev_info := ?m, gd_info := copy_dev_info (read_info_device ?m) (gd_info d)\<rparr>"
  have inv: "init_inv ?m ?d"
    using copy_dev_info_inv [of "d\<lparr>gd_acc := a, dev_info := ?m\<rparr>"] assms(2) by simp
  have "init_ok ?m (read_shader_engines ops [0..<4] ?d)"
    by (rule read_shader_engines_ok [OF inv]) simp
  then obtain r d4 where d4: "read_shader_engines ops [0..<4] ?d = Ret (r, d4)" "init_inv ?m d4"
    by (auto simp: init_ok_def)
  have r: "r = 0" by (rule read_shader_engines_zero [OF assms(4) d4(1)])
  have "read_shader_engine ops 4 d4 = Fault"
    using d4(2) by (simp add: read_shader_engine_def read_regs_def init_inv_def info_wf_def)
  moreover have "[0..<?n] = [0..<4] @ 4 # [Suc 4..<?n]"
    using upt_add_eq_append [of 0 4 "?n - 4"] upt_conv_Cons [of 4 ?n] assms(5)
    by (metis add_diff_inverse_nat le0 not_less_iff_gr_or_eq)
  ultimately have "read_shader_engines ops [0..<se_rounds (u32_at ?m 20)] ?d = Fault"
    using assms(6) d4(1) by (simp add: se_rounds_def read_shader_engines_append if_ok_zero r)
  then show ?thesis
    using assms(7) by (simp add: init_after_answer [OF assms(1) q] Let_def)
qed

theorem gpu_info_init_overflow_witness:
  "amdgpu_query_gpu_info_init (demo_info_ops 6) demo_gpu_dev = Fault"
proof -
  have "registers_readable (demo_info_ops 6)"
    by (simp add: registers_readable_def demo_info_ops_def AMDGPU_INFO_READ_MMR_REG_def AMDGPU_INFO_DEV_INFO_def)
  with gpu_info_init_overflow [OF demo_gpu_dev_ok, of "demo_info_ops 6"] demo_answer [of 6]
  show ?thesis by (simp add: AMDGPU_FAMILY_AI_def)
qed

end
