(* ===== verification/AsicId.thy ===== *)
theory AsicId imports Bytes begin

text \<open>
  The marketing name of a device, \<open>amdgpu/amdgpu_asic_id.c\<close>: the table of ASIC ids is read line by
  line until the line of the device. A line is the list of the characters \<open>getline\<close> returns, its
  newline included; a file that cannot be opened is \<open>None\<close>. The C library's \<open>strtol\<close> with base 16,
  \<open>strtok_r\<close> with one delimiter and \<open>isblank\<close> are written out; \<open>strdup\<close> takes its outcome from the
  allocation script.
\<close>

section \<open>Strings of the C library\<close>

definition isblank :: "char \<Rightarrow> bool" where
  "isblank c \<longleftrightarrow> c = CHR '' '' \<or> c = CHR 0x09"

definition isspace :: "char \<Rightarrow> bool" where
  "isspace c \<longleftrightarrow> c = CHR '' '' \<or> (9 \<le> (of_char c :: nat) \<and> (of_char c :: nat) \<le> 13)"

definition hexval :: "char \<Rightarrow> nat option" where
  "hexval c =
     (let n = of_char c
      in if 48 \<le> n \<and> n \<le> 57 then Some (n - 48)
         else if 65 \<le> n \<and> n \<le> 70 then Some (n - 55)
         else if 97 \<le> n \<and> n \<le> 102 then Some (n - 87)
         else None)"

text \<open>The value of the digits at the start of a string, read behind the value \<open>acc\<close>.\<close>

fun hex_digits :: "nat \<Rightarrow> string \<Rightarrow> nat \<times> string" where
  "hex_digits acc [] = (acc, [])"
| "hex_digits acc (c # cs) =
     (case hexval c of None \<Rightarrow> (acc, c # cs) | Some d \<Rightarrow> hex_digits (16 * acc + d) cs)"

definition skip_0x :: "string \<Rightarrow> string" where
  "skip_0x s =
     (case s of
        a # x # h # t \<Rightarrow>
          if a = CHR ''0'' \<and> (x = CHR ''x'' \<or> x = CHR ''X'') \<and> hexval h \<noteq> None then h # t else s
      | _ \<Rightarrow> s)"

definition clamp_long :: "int \<Rightarrow> int" where
  "clamp_long n = max (- (2 ^ 63)) (min n (2 ^ 63 - 1))"

text \<open>\<open>strtol(s, &end, 16)\<close>: the value, and what \<open>end\<close> points to, all of \<open>s\<close> without any digit.\<close>

definition strtol16 :: "string \<Rightarrow> int \<times> string" where
  "strtol16 s =
     (let s1 = dropWhile isspace s;
          neg = (s1 \<noteq> [] \<and> hd s1 = CHR ''-'');
          s2 = (if s1 \<noteq> [] \<and> (hd s1 = CHR ''-'' \<or> hd s1 = CHR ''+'') then tl s1 else s1);
          s3 = skip_0x s2
      in if s3 = [] \<or> hexval (hd s3) = None then (0, s)
         else (case hex_digits 0 s3 of
                 (v, rest) \<Rightarrow> (clamp_long (if neg then - int v else int v), rest)))"

text \<open>\<open>strtok_r\<close> with the delimiter ",": the next token and the rest, \<open>None\<close> when there is none.\<close>

definition strtok_comma :: "string \<Rightarrow> (string \<times> string) option" where
  "strtok_comma s =
     (let s' = dropWhile (\<lambda>c. c = CHR '','') s
      in if s' = [] then None
         else Some (takeWhile (\<lambda>c. c \<noteq> CHR '','') s', drop 1 (dropWhile (\<lambda>c. c \<noteq> CHR '','') s')))"

section \<open>The table\<close>

text \<open>The fields of \<open>struct amdgpu_device\<close> the search uses and sets.\<close>

record asic_dev =
  ad_asic_id :: u32
  ad_pci_rev_id :: u32
  marketing_name :: "string option"

text \<open>The last step: the name without leading blanks.\<close>

definition parse_name :: "asic_dev \<Rightarrow> string \<Rightarrow> alloc_script \<Rightarrow> rc \<times> asic_dev \<times> alloc_script" where
  "parse_name dev rest sc =
     (case strtok_comma rest of
        None \<Rightarrow> (Err EINVAL, dev, sc)
      | Some (s_name, _) \<Rightarrow>
          (let name = dropWhile isblank s_name
           in if name = [] then (Err EINVAL, dev, sc)
              else
                (case calloc_next sc of
                   (True, sc') \<Rightarrow> (OK, dev\<lparr>marketing_name := Some name\<rparr>, sc')
                 | (False, sc') \<Rightarrow> (Err ENOMEM, dev\<lparr>marketing_name := None\<rparr>, sc'))))"

definition parse_revision :: "asic_dev \<Rightarrow> string \<Rightarrow> alloc_script \<Rightarrow> rc \<times> asic_dev \<times> alloc_script" where
  "parse_revision dev rest sc =
     (case strtok_comma rest of
        None \<Rightarrow> (Err EINVAL, dev, sc)
      | Some (s_rid, rest') \<Rightarrow>
          (case strtol16 s_rid of
             (rid, end) \<Rightarrow>
               if end \<noteq> [] then (Err EINVAL, dev, sc)
               else if word_of_int rid \<noteq> ad_pci_rev_id dev then (Err EAGAIN, dev, sc)
               else parse_name dev rest' sc))"

definition parse_one_line :: "asic_dev \<Rightarrow> string \<Rightarrow> alloc_script \<Rightarrow> rc \<times> asic_dev \<times> alloc_script" where
  "parse_one_line dev line sc =
     (if line = [] \<or> hd line = CHR ''#'' then (Err EAGAIN, dev, sc)
      else
        (case calloc_next sc of
           (False, sc') \<Rightarrow> (Err ENOMEM, dev, sc')
         | (True, sc') \<Rightarrow>
             (case strtok_comma line of
                None \<Rightarrow> (Err EINVAL, dev, sc')
              | Some (s_did, rest) \<Rightarrow>
                  (case strtol16 s_did of
                     (did, end) \<Rightarrow>
                       if end \<noteq> [] then (Err EINVAL, dev, sc')
                       else if word_of_int did \<noteq> ad_asic_id dev then (Err EAGAIN, dev, sc')
                       else parse_revision dev rest sc'))))"

text \<open>\<open>if (line[n - 1] == '\n') line[n - 1] = '\0';\<close>\<close>

definition trim_line :: "string \<Rightarrow> string" where
  "trim_line l = c_string (if l \<noteq> [] \<and> last l = CHR 0x0A then butlast l else l)"

text \<open>What is written to \<open>stderr\<close>, in order.\<close>

datatype asic_message = CannotOpen | TableVersion string | InvalidFormat nat string | CannotParse errno

text \<open>The first loop: the line number after it, the lines behind the version line, and its message.\<close>

fun skip_version :: "nat \<Rightarrow> string list \<Rightarrow> nat \<times> string list \<times> asic_message list" where
  "skip_version n [] = (n, [], [])"
| "skip_version n (l # ls) =
     (if trim_line l = [] \<or> hd (trim_line l) = CHR ''#'' then skip_version (n + 1) ls
      else (n, ls, [TableVersion (trim_line l)]))"

text \<open>The second loop: the last result, the line number and the line it stopped at.\<close>

fun search_lines ::
    "asic_dev \<Rightarrow> nat \<Rightarrow> rc \<Rightarrow> string \<Rightarrow> string list \<Rightarrow> alloc_script
     \<Rightarrow> rc \<times> nat \<times> string \<times> asic_dev \<times> alloc_script" where
  "search_lines dev n r cur [] sc = (r, n, cur, dev, sc)"
| "search_lines dev n r cur (l # ls) sc =
     (case parse_one_line dev (trim_line l) sc of
        (r', dev', sc') \<Rightarrow>
          if r' \<noteq> Err EAGAIN then (r', n, trim_line l, dev', sc')
          else search_lines dev' (n + 1) r' (trim_line l) ls sc')"

definition parse_report :: "rc \<Rightarrow> nat \<Rightarrow> string \<Rightarrow> asic_message list" where
  "parse_report r n line =
     (case r of
        OK \<Rightarrow> []
      | Err e \<Rightarrow> if e = EINVAL then [InvalidFormat n line] else if e \<noteq> EAGAIN then [CannotParse e] else [])"

definition amdgpu_parse_asic_ids ::
    "asic_dev \<Rightarrow> string list option \<Rightarrow> alloc_script \<Rightarrow> asic_message list \<times> asic_dev \<times> alloc_script" where
  "amdgpu_parse_asic_ids dev file sc =
     (case file of
        None \<Rightarrow> ([CannotOpen], dev, sc)
      | Some ls \<Rightarrow>
          (case skip_version 1 ls of
             (n, ls', msgs) \<Rightarrow>
               (case search_lines dev n OK [] ls' sc of
                  (r, n', line, dev', sc') \<Rightarrow> (msgs @ parse_report r n' line, dev', sc'))))"

section \<open>Entries and how they are written\<close>

type_synonym asic_entry = "nat \<times> nat \<times> string"

definition hex_char :: "nat \<Rightarrow> char" where
  "hex_char d = (if d < 10 then char_of (48 + d) else char_of (55 + d))"

fun print_hex :: "nat \<Rightarrow> string" where
  "print_hex n = (if n < 16 then [hex_char n] else print_hex (n div 16) @ [hex_char (n mod 16)])"

declare print_hex.simps [simp del]

definition print_entry :: "asic_entry \<Rightarrow> string" where
  "print_entry e =
     (case e of (did, rid, name) \<Rightarrow>
        print_hex did @ [CHR '','', CHR 0x09] @ print_hex rid @ [CHR '','', CHR 0x09] @ name @ [CHR 0x0A])"

definition plain_char :: "char \<Rightarrow> bool" where
  "plain_char c \<longleftrightarrow> c \<noteq> CHR '','' \<and> c \<noteq> CHR 0x00 \<and> c \<noteq> CHR 0x0A"

definition entry_ok :: "asic_entry \<Rightarrow> bool" where
  "entry_ok e \<longleftrightarrow>
     (case e of (did, rid, name) \<Rightarrow>
        did < 2 ^ 32 \<and> rid < 2 ^ 32 \<and> name \<noteq> [] \<and> \<not> isblank (hd name) \<and> list_all plain_char name)"

lemma hexval_hex_char: "d < 16 \<Longrightarrow> hexval (hex_char d) = Some d"
  by (auto simp: hexval_def hex_char_def Let_def)

lemma hex_digits_append:
  "list_all (\<lambda>c. hexval c \<noteq> None) xs \<Longrightarrow> hex_digits acc (xs @ ys) = hex_digits (fst (hex_digits acc xs)) ys"
  by (induction xs arbitrary: acc) (auto split: option.splits)

lemma print_hex_all: "list_all (\<lambda>c. hexval c \<noteq> None) (print_hex n)"
proof (induction n rule: print_hex.induct)
  case (1 n)
  then show ?case by (subst print_hex.simps) (auto simp: hexval_hex_char)
qed

lemma hex_digits_print: "hex_digits 0 (print_hex n) = (n, [])"
proof (induction n rule: print_hex.induct)
  case (1 n)
  show ?case
  proof (cases "n < 16")
    case True
    then show ?thesis by (subst print_hex.simps) (simp add: hexval_hex_char)
  next
    case False
    with 1 have "fst (hex_digits 0 (print_hex (n div 16))) = n div 16" by simp
    with False show ?thesis
      by (subst print_hex.simps) (simp add: hex_digits_append [OF print_hex_all] hexval_hex_char)
  qed
qed

lemma hexval_plain: "hexval c \<noteq> None \<Longrightarrow> plain_char c \<and> \<not> isspace c \<and> c \<noteq> CHR ''-'' \<and> c \<noteq> CHR ''+''
    \<and> c \<noteq> CHR ''x'' \<and> c \<noteq> CHR ''X'' \<and> c \<noteq> CHR ''#''"
  by (auto simp: hexval_def Let_def plain_char_def isspace_def split: if_splits)

lemma print_hex_nonempty: "print_hex n \<noteq> []"
  by (subst print_hex.simps) simp

lemma print_hex_cons:
  obtains c cs where "print_hex n = c # cs" and "list_all (\<lambda>c. hexval c \<noteq> None) (c # cs)"
  using print_hex_nonempty [of n] print_hex_all [of n] by (cases "print_hex n") auto

lemma skip_0x_print: "skip_0x (print_hex n) = print_hex n"
proof -
  have "hexval CHR ''x'' = None" "hexval CHR ''X'' = None" by (simp_all add: hexval_def)
  then have "list_all (\<lambda>c. hexval c \<noteq> None) s \<Longrightarrow> skip_0x s = s" for s
    by (auto simp: skip_0x_def split: list.splits)
  then show ?thesis using print_hex_all by blast
qed

lemma strtol16_print:
  assumes "n < 2 ^ 32" and "list_all isspace ws"
  shows "strtol16 (ws @ print_hex n) = (int n, [])"
proof -
  obtain c cs where c: "print_hex n = c # cs" "list_all (\<lambda>c. hexval c \<noteq> None) (c # cs)"
    by (rule print_hex_cons)
  have "dropWhile isspace (ws @ s) = dropWhile isspace s" for s
    using assms(2) by (induction ws) auto
  moreover have "\<not> isspace c" "c \<noteq> CHR ''-''" "c \<noteq> CHR ''+''" "hexval c \<noteq> None"
    using c(2) hexval_plain [of c] by auto
  moreover have "skip_0x (c # cs) = c # cs" "hex_digits 0 (c # cs) = (n, [])"
    using skip_0x_print [of n] hex_digits_print [of n] by (simp_all add: c(1))
  moreover have "clamp_long (int n) = int n" using assms(1) by (simp add: clamp_long_def)
  ultimately show ?thesis by (simp add: strtol16_def Let_def c(1))
qed

lemma no_comma_print: "c \<in> set (print_hex n) \<Longrightarrow> c \<noteq> CHR '',''"
  using print_hex_all [of n] hexval_plain [of c] by (auto simp: list_all_iff plain_char_def)

lemma strtok_comma_token:
  assumes "\<forall>c\<in>set t. c \<noteq> CHR '',''" and "t \<noteq> []"
  shows "strtok_comma (t @ CHR '','' # rest) = Some (t, rest)" and "strtok_comma t = Some (t, [])"
proof -
  have w: "dropWhile (\<lambda>c. c = CHR '','') (t @ s) = t @ s" for s using assms by (cases t) auto
  have "takeWhile (\<lambda>c. c \<noteq> CHR '','') (t @ CHR '','' # rest) = t"
    "dropWhile (\<lambda>c. c \<noteq> CHR '','') (t @ CHR '','' # rest) = CHR '','' # rest"
    "takeWhile (\<lambda>c. c \<noteq> CHR '','') t = t" "dropWhile (\<lambda>c. c \<noteq> CHR '','') t = []"
    using assms(1) by (simp_all add: takeWhile_append2 dropWhile_append2 takeWhile_eq_all_conv)
  note tok = this
  show "strtok_comma (t @ CHR '','' # rest) = Some (t, rest)"
    using assms(2) by (simp only: strtok_comma_def Let_def w tok) simp
  have w': "dropWhile (\<lambda>c. c = CHR '','') t = t" using w [of "[]"] by simp
  show "strtok_comma t = Some (t, [])"
    using assms(2) by (simp only: strtok_comma_def Let_def w' tok) simp
qed

lemma print_hex_plain: "list_all plain_char (print_hex n)"
  using print_hex_all [of n] hexval_plain by (auto simp: list_all_iff)

definition entry_line :: "asic_entry \<Rightarrow> string" where
  "entry_line e = butlast (print_entry e)"

lemma entry_line_eq:
  "entry_line (did, rid, name) =
     print_hex did @ [CHR '','', CHR 0x09] @ print_hex rid @ [CHR '','', CHR 0x09] @ name"
proof -
  have "print_entry (did, rid, name) =
      (print_hex did @ [CHR '','', CHR 0x09] @ print_hex rid @ [CHR '','', CHR 0x09] @ name) @ [CHR 0x0A]"
    by (simp add: print_entry_def)
  then show ?thesis unfolding entry_line_def by (simp only: butlast_snoc)
qed

lemma trim_print_entry: "entry_ok e \<Longrightarrow> trim_line (print_entry e) = entry_line e"
proof -
  assume ok: "entry_ok e"
  obtain did rid name where e: "e = (did, rid, name)" by (cases e)
  have l: "entry_line e = print_hex did @ [CHR '','', CHR 0x09] @ print_hex rid @ [CHR '','', CHR 0x09] @ name"
    using entry_line_eq [of did rid name] by (simp add: e)
  have nz: "list_all plain_char xs \<Longrightarrow> \<forall>c\<in>set xs. c \<noteq> CHR 0x00" for xs
    by (auto simp: list_all_iff plain_char_def)
  have "list_all plain_char name" using ok by (simp add: e entry_ok_def)
  then have "\<forall>c\<in>set (entry_line e). c \<noteq> CHR 0x00"
    using nz [OF print_hex_plain, of did] nz [OF print_hex_plain, of rid] nz [of name]
    unfolding l by (simp add: ball_Un)
  then have "c_string (entry_line e) = entry_line e"
    unfolding c_string_def by (simp only: takeWhile_eq_all_conv)
  moreover have "print_entry e = entry_line e @ [CHR 0x0A]"
    unfolding l by (simp add: e print_entry_def)
  ultimately show ?thesis by (simp add: trim_line_def)
qed

definition entry_matches :: "asic_dev \<Rightarrow> asic_entry \<Rightarrow> bool" where
  "entry_matches dev e \<longleftrightarrow>
     (case e of (did, rid, _) \<Rightarrow> of_nat did = ad_asic_id dev \<and> of_nat rid = ad_pci_rev_id dev)"

lemma parse_entry_line:
  assumes "entry_ok e"
  shows "parse_one_line dev (entry_line e) sc =
    (case calloc_next sc of
       (False, sc1) \<Rightarrow> (Err ENOMEM, dev, sc1)
     | (True, sc1) \<Rightarrow>
         if \<not> entry_matches dev e then (Err EAGAIN, dev, sc1)
         else (case calloc_next sc1 of
                 (True, sc2) \<Rightarrow> (OK, dev\<lparr>marketing_name := Some (snd (snd e))\<rparr>, sc2)
               | (False, sc2) \<Rightarrow> (Err ENOMEM, dev\<lparr>marketing_name := None\<rparr>, sc2)))"
proof -
  obtain did rid name where e: "e = (did, rid, name)" by (cases e)
  have ok: "did < 2 ^ 32" "rid < 2 ^ 32" "name \<noteq> []" "\<not> isblank (hd name)" "list_all plain_char name"
    using assms by (simp_all add: e entry_ok_def)
  let ?line = "print_hex did @ CHR '','' # CHR 0x09 # print_hex rid @ CHR '','' # CHR 0x09 # name"
  have l: "entry_line e = ?line" using entry_line_eq [of did rid name] by (simp add: e)
  obtain c cs where c: "print_hex did = c # cs" "list_all (\<lambda>c. hexval c \<noteq> None) (c # cs)"
    by (rule print_hex_cons)
  have start: "?line \<noteq> []" "hd ?line \<noteq> CHR ''#''" using c hexval_plain [of c] by auto
  have t1: "strtok_comma ?line = Some (print_hex did, CHR 0x09 # print_hex rid @ CHR '','' # CHR 0x09 # name)"
    using no_comma_print print_hex_nonempty by (intro strtok_comma_token) auto
  have t2: "strtok_comma (CHR 0x09 # print_hex rid @ CHR '','' # CHR 0x09 # name) =
      Some (CHR 0x09 # print_hex rid, CHR 0x09 # name)"
    using strtok_comma_token(1) [of "CHR 0x09 # print_hex rid"] no_comma_print by auto
  have t3: "strtok_comma (CHR 0x09 # name) = Some (CHR 0x09 # name, [])"
    using ok(5) by (intro strtok_comma_token(2)) (auto simp: list_all_iff plain_char_def)
  have n1: "strtol16 (print_hex did) = (int did, [])"
    using strtol16_print [OF ok(1), of "[]"] by simp
  have n2: "strtol16 (CHR 0x09 # print_hex rid) = (int rid, [])"
    using strtol16_print [OF ok(2), of "[CHR 0x09]"] by (simp add: isspace_def)
  have name: "dropWhile isblank (CHR 0x09 # name) = name"
    using ok(3,4) by (cases name) (simp_all add: isblank_def)
  have "parse_name dev (CHR 0x09 # name) sc1 = (case calloc_next sc1 of
      (True, sc2) \<Rightarrow> (OK, dev\<lparr>marketing_name := Some name\<rparr>, sc2)
    | (False, sc2) \<Rightarrow> (Err ENOMEM, dev\<lparr>marketing_name := None\<rparr>, sc2))" for sc1
    using ok(3) by (simp only: parse_name_def t3 option.case prod.case name Let_def if_False)
  then show ?thesis
    unfolding l parse_one_line_def
    by (simp only: start simp_thms if_False t1 option.case prod.case n1 parse_revision_def t2 n2)
      (auto simp: e entry_matches_def split: prod.split bool.split)
qed

lemma search_entries:
  assumes "list_all entry_ok es" and "list_all (\<lambda>e. \<not> entry_matches dev e) es"
  shows "search_lines dev n r cur (map print_entry es @ ls) [] =
    search_lines dev (n + length es) (if es = [] then r else Err EAGAIN)
      (if es = [] then cur else entry_line (last es)) ls []"
  using assms
proof (induction es arbitrary: n r cur)
  case (Cons e es)
  then show ?case by (simp add: trim_print_entry parse_entry_line)
qed simp

lemma skip_version_header:
  "list_all (\<lambda>l. trim_line l = [] \<or> hd (trim_line l) = CHR ''#'') hs \<Longrightarrow>
     trim_line v \<noteq> [] \<Longrightarrow> hd (trim_line v) \<noteq> CHR ''#'' \<Longrightarrow>
     skip_version n (hs @ v # ls) = (n + length hs, ls, [TableVersion (trim_line v)])"
  by (induction hs arbitrary: n) auto

text \<open>What a search in the whole table comes to, for every pattern of allocation failures.\<close>

definition named_from :: "asic_dev \<Rightarrow> asic_entry list \<Rightarrow> asic_dev" where
  "named_from dev es =
     (case find (entry_matches dev) es of
        None \<Rightarrow> dev
      | Some (_, _, name) \<Rightarrow> dev\<lparr>marketing_name := Some name\<rparr>)"

lemma search_table:
  assumes "list_all entry_ok es" and "r = OK \<or> r = Err EAGAIN"
  obtains (found) n' line r' sc' where
      "search_lines dev n r cur (map print_entry es) sc = (r', n', line, named_from dev es, sc')"
      "r' = OK \<or> r' = Err EAGAIN"
    | (entry_memory) n' line sc' where
      "search_lines dev n r cur (map print_entry es) sc = (Err ENOMEM, n', line, dev, sc')"
      "\<not> no_alloc_failure sc"
    | (name_memory) n' line sc' where
      "search_lines dev n r cur (map print_entry es) sc = (Err ENOMEM, n', line, dev\<lparr>marketing_name := None\<rparr>, sc')"
      "\<not> no_alloc_failure sc" "find (entry_matches dev) es \<noteq> None"
  using assms
proof (induction es arbitrary: n r cur sc thesis)
  case Nil
  then show ?case by (simp add: named_from_def)
next
  case (Cons e es)
  have ok: "entry_ok e" "list_all entry_ok es" using Cons.prems(4) by simp_all
  note line = trim_print_entry [OF ok(1)] parse_entry_line [OF ok(1)]
  obtain b sc1 where sc1: "calloc_next sc = (b, sc1)" by fastforce
  obtain b2 sc2 where sc2: "calloc_next sc1 = (b2, sc2)" by fastforce
  note script = calloc_next_script [OF sc1] calloc_next_script [OF sc2]
  consider (entry) "\<not> b" | (other) "b" "\<not> entry_matches dev e" | (name) "b" "entry_matches dev e" "\<not> b2"
    | (got) "b" "entry_matches dev e" "b2" by blast
  then show ?case
  proof cases
    case entry
    with script show ?thesis by (intro Cons.prems(2)) (auto simp: line sc1)
  next
    case name
    with script show ?thesis by (intro Cons.prems(3)) (auto simp: line sc1 sc2)
  next
    case got
    then show ?thesis
      by (intro Cons.prems(1) [of OK n "entry_line e" sc2])
        (auto simp: line sc1 sc2 named_from_def split: prod.split)
  next
    case other
    have step: "search_lines dev n r cur (map print_entry (e # es)) sc
        = search_lines dev (n + 1) (Err EAGAIN) (entry_line e) (map print_entry es) sc1"
      using other by (simp add: line sc1)
    have more: "find (entry_matches dev) (e # es) = find (entry_matches dev) es" "named_from dev (e # es) = named_from dev es"
      using other by (simp_all add: named_from_def)
    have fails: "no_alloc_failure sc \<longrightarrow> no_alloc_failure sc1" using script by blast
    show ?thesis
      by (rule Cons.IH [of "n + 1" "Err EAGAIN" "entry_line e" sc1])
        (use Cons.prems(1-3) ok(2) fails in \<open>simp_all only: step more\<close>, auto)
  qed
qed

section \<open>Properties\<close>

text \<open>C25. Reading back a written table, in a file that starts with comments and the version line: the
  version is reported, and a device gets the name of the first entry with its id and
  revision, or keeps what it had, and nothing else is reported, unless an allocation fails; then ENOMEM
  is reported, and the device keeps what it had, or has no name when it was the copy of the name of
  its entry that failed. A malformed line behind entries of other
  devices is reported (memory being available) with the number of the line before it, as the version line
  is not counted. A file that cannot be opened is reported, and the device is as before.\<close>

theorem asic_table_lookup:
  assumes "list_all entry_ok es"
    and "list_all (\<lambda>l. trim_line l = [] \<or> hd (trim_line l) = CHR ''#'') hs"
    and "trim_line v \<noteq> []" and "hd (trim_line v) \<noteq> CHR ''#''"
  shows "(\<exists>sc'. amdgpu_parse_asic_ids dev (Some (hs @ v # map print_entry es)) sc =
        ([TableVersion (trim_line v)],
         (case find (entry_matches dev) es of
            None \<Rightarrow> dev
          | Some (_, _, name) \<Rightarrow> dev\<lparr>marketing_name := Some name\<rparr>), sc')
      \<or> \<not> no_alloc_failure sc
        \<and> (\<exists>dev'. amdgpu_parse_asic_ids dev (Some (hs @ v # map print_entry es)) sc =
              ([TableVersion (trim_line v), CannotParse ENOMEM], dev', sc')
            \<and> (dev' = dev \<or> dev' = dev\<lparr>marketing_name := None\<rparr> \<and> find (entry_matches dev) es \<noteq> None)))
    \<and> (\<forall>bad ls sc' dev'. list_all (\<lambda>e. \<not> entry_matches dev e) es
         \<and> parse_one_line dev (trim_line bad) [] = (Err EINVAL, dev', sc') \<longrightarrow>
         amdgpu_parse_asic_ids dev (Some (hs @ v # map print_entry es @ bad # ls)) [] =
           ([TableVersion (trim_line v), InvalidFormat (length (hs @ v # map print_entry es)) (trim_line bad)],
            dev', sc'))
    \<and> amdgpu_parse_asic_ids dev None sc = ([CannotOpen], dev, sc)"
proof (intro conjI allI impI)
  note skip = skip_version_header [OF assms(2-4)]
  note parse = amdgpu_parse_asic_ids_def parse_report_def
  show "\<exists>sc'. amdgpu_parse_asic_ids dev (Some (hs @ v # map print_entry es)) sc =
        ([TableVersion (trim_line v)],
         (case find (entry_matches dev) es of
            None \<Rightarrow> dev
          | Some (_, _, name) \<Rightarrow> dev\<lparr>marketing_name := Some name\<rparr>), sc')
      \<or> \<not> no_alloc_failure sc
        \<and> (\<exists>dev'. amdgpu_parse_asic_ids dev (Some (hs @ v # map print_entry es)) sc =
              ([TableVersion (trim_line v), CannotParse ENOMEM], dev', sc')
            \<and> (dev' = dev \<or> dev' = dev\<lparr>marketing_name := None\<rparr> \<and> find (entry_matches dev) es \<noteq> None))"
    by (rule search_table [of es OK dev "1 + length hs" "[]" sc, OF assms(1)])
      (auto simp: parse skip named_from_def)
  fix bad ls sc' dev'
  assume "list_all (\<lambda>e. \<not> entry_matches dev e) es
    \<and> parse_one_line dev (trim_line bad) [] = (Err EINVAL, dev', sc')"
  then show "amdgpu_parse_asic_ids dev (Some (hs @ v # map print_entry es @ bad # ls)) [] =
           ([TableVersion (trim_line v), InvalidFormat (length (hs @ v # map print_entry es)) (trim_line bad)],
            dev', sc')"
    using search_entries [OF assms(1), of dev _ _ _ "bad # ls"] by (simp add: parse skip)
qed (simp add: amdgpu_parse_asic_ids_def)

definition demo_asic_dev :: asic_dev where
  "demo_asic_dev = \<lparr>ad_asic_id = 0x15dd, ad_pci_rev_id = 0xcb, marketing_name = None\<rparr>"

definition demo_entries :: "asic_entry list" where
  "demo_entries = [(0x15dd, 0xc3, ''Vega 3''), (0x15dd, 0xcb, ''Vega 3 G''), (0x15dd, 0xcb, ''Vega 8'')]"

theorem asic_table_lookup_witness:
  "\<exists>sc'. amdgpu_parse_asic_ids demo_asic_dev
     (Some ([''# ids'', [CHR 0x0A]] @ ''1.0.0'' # map print_entry demo_entries)) [] =
     ([TableVersion ''1.0.0''], demo_asic_dev\<lparr>marketing_name := Some ''Vega 3 G''\<rparr>, sc')"
proof -
  have "list_all entry_ok demo_entries"
    by (simp add: demo_entries_def entry_ok_def isblank_def plain_char_def)
  moreover have "list_all (\<lambda>l. trim_line l = [] \<or> hd (trim_line l) = CHR ''#'') [''# ids'', [CHR 0x0A]]"
    by (simp add: trim_line_def c_string_def)
  moreover have v: "trim_line ''1.0.0'' = ''1.0.0''"
    by (simp add: trim_line_def c_string_def)
  ultimately show ?thesis
    using asic_table_lookup [of demo_entries "[''# ids'', [CHR 0x0A]]" "''1.0.0''" demo_asic_dev "[]"]
    by (simp add: demo_entries_def entry_matches_def demo_asic_dev_def)
qed

end
