(* ===== verification/Device.thy ===== *)
theory Device imports GpuInfo AsicId VaRange HandleTable begin

text \<open>
  Devices, \<open>amdgpu/amdgpu_device.c\<close>, \<open>amdgpu_device_haiku.cpp\<close> and \<open>amdgpu_vm.c\<close>: the list of the
  open devices, their reference counts, and how one is set up from the answers of its accelerant,
  with the queries, the managers of addresses and the table of names of the other theories.
  Accelerants are addresses; their vtables, and the file with the names, are parameters over an
  abstract state. Initialisation runs under \<open>dev_mutex\<close>, so it is one step; dropping a reference is
  not, and is a step of its own before the device is freed.
\<close>

section \<open>State\<close>

record amdgpu_device =
  dev_refcount :: atomic_t
  dev_next :: "ptr option"
  acc_base :: ptr
  major_version :: u32
  minor_version :: u32
  dev_name :: "string option"
  dv_info :: "u8 list"
  dv_gpu :: amdgpu_gpu_info
  dv_va :: va_dev
  dv_bo_handles :: "ptr handle_table"
  dv_bo_flink_names :: "ptr handle_table"

datatype acc_iface = B_ACCELERANT_IFACE_DRM | B_ACCELERANT_IFACE_AMDGPU

record 'a device_ops =
  AcquireReference :: "'a \<Rightarrow> ptr \<Rightarrow> 'a"
  ReleaseReference :: "'a \<Rightarrow> ptr \<Rightarrow> 'a"
  QueryInterface :: "'a \<Rightarrow> ptr \<Rightarrow> acc_iface \<Rightarrow> bool \<times> 'a"
  DrmVersion :: "'a \<Rightarrow> ptr \<Rightarrow> (u32 \<times> u32 \<times> u32) \<times> 'a"
  info_vt :: "ptr \<Rightarrow> 'a info_ops"
  asic_table :: "'a \<Rightarrow> string list option"

record 'a dev_state =
  ds_acc :: 'a
  devs :: "ptr \<rightharpoonup> amdgpu_device"
  dev_list :: "ptr option"

section \<open>Freeing\<close>

text \<open>
  \<open>node\<close> is the address of a pointer to a device: \<open>None\<close> is \<open>&dev_list\<close>, \<open>Some p\<close> is \<open>&p->next\<close>.
\<close>

definition get_node :: "'a dev_state \<Rightarrow> ptr option \<Rightarrow> ptr option outcome" where
  "get_node s node =
     (case node of
        None \<Rightarrow> Ret (dev_list s)
      | Some p \<Rightarrow> (case devs s p of None \<Rightarrow> Fault | Some d \<Rightarrow> Ret (dev_next d)))"

definition set_node :: "'a dev_state \<Rightarrow> ptr option \<Rightarrow> ptr option \<Rightarrow> 'a dev_state outcome" where
  "set_node s node v =
     (case node of
        None \<Rightarrow> Ret (s\<lparr>dev_list := v\<rparr>)
      | Some p \<Rightarrow>
          (case devs s p of
             None \<Rightarrow> Fault
           | Some d \<Rightarrow> Ret (s\<lparr>devs := (devs s)(p \<mapsto> d\<lparr>dev_next := v\<rparr>)\<rparr>)))"

text \<open>\<open>while (*node != dev && (*node)->next) node = &(*node)->next;\<close>\<close>

partial_function (option) find_node ::
    "'a dev_state \<Rightarrow> ptr \<Rightarrow> ptr option \<Rightarrow> ptr option outcome option" where
  "find_node s dev node =
     (case get_node s node of
        Fault \<Rightarrow> Some Fault
      | Ret cur \<Rightarrow>
          if cur = Some dev then Some (Ret node)
          else
            (case cur of
               None \<Rightarrow> Some Fault
             | Some c \<Rightarrow>
                 (case devs s c of
                    None \<Rightarrow> Some Fault
                  | Some d \<Rightarrow>
                      if dev_next d = None then Some (Ret node) else find_node s dev (Some c))))"

definition unlink_device :: "'a dev_state \<Rightarrow> ptr \<Rightarrow> 'a dev_state outcome option" where
  "unlink_device s dev =
     Option.bind (find_node s dev None) (\<lambda>res. Some (
       bind_outcome res (\<lambda>node.
       bind_outcome (get_node s node) (\<lambda>cur.
       case cur of
         None \<Rightarrow> Fault
       | Some c \<Rightarrow> (case devs s c of None \<Rightarrow> Fault | Some d \<Rightarrow> set_node s node (dev_next d))))))"

text \<open>The managers, tables, the mutex and the name go with the device.\<close>

definition amdgpu_device_free_internal ::
    "'a device_ops \<Rightarrow> 'a dev_state \<Rightarrow> ptr \<Rightarrow> 'a dev_state outcome option" where
  "amdgpu_device_free_internal ops s dev =
     Option.bind (unlink_device s dev) (\<lambda>res. Some (
       bind_outcome res (\<lambda>s.
       case devs s dev of
         None \<Rightarrow> Fault
       | Some d \<Rightarrow>
           Ret (s\<lparr>ds_acc := ReleaseReference ops (ds_acc s) (acc_base d), devs := (devs s)(dev := None)\<rparr>))))"

text \<open>\<open>update_references(&(*dst)->refcount, &src->refcount)\<close>, before anything is freed.\<close>

definition device_counts ::
    "'a dev_state \<Rightarrow> ptr option \<Rightarrow> ptr option \<Rightarrow> (bool \<times> 'a dev_state) outcome" where
  "device_counts s dst src =
     bind_outcome (update_references (cells_of dev_refcount (devs s)) dst src) (\<lambda>(gone, cs).
       Ret (gone, s\<lparr>devs := with_cells (\<lambda>v d. d\<lparr>dev_refcount := v\<rparr>) (devs s) cs\<rparr>))"

definition amdgpu_device_reference ::
    "'a device_ops \<Rightarrow> 'a dev_state \<Rightarrow> ptr option \<Rightarrow> ptr option \<Rightarrow> 'a dev_state outcome option" where
  "amdgpu_device_reference ops s dst src =
     (case device_counts s dst src of
        Fault \<Rightarrow> Some Fault
      | Ret (gone, s') \<Rightarrow>
          (case dst of
             Some p \<Rightarrow> if gone then amdgpu_device_free_internal ops s' p else Some (Ret s')
           | None \<Rightarrow> if gone then Some Fault else Some (Ret s')))"

definition amdgpu_device_deinitialize ::
    "'a device_ops \<Rightarrow> 'a dev_state \<Rightarrow> ptr option \<Rightarrow> (rc \<times> 'a dev_state) outcome option" where
  "amdgpu_device_deinitialize ops s dev =
     Option.bind (amdgpu_device_reference ops s dev None) (\<lambda>res.
       Some (bind_outcome res (\<lambda>s'. Ret (OK, s'))))"

section \<open>Initialisation\<close>

text \<open>\<open>for (dev = dev_list; dev; dev = dev->next) if (dev->acc_base == acc) break;\<close>\<close>

partial_function (option) find_device ::
    "(ptr \<rightharpoonup> amdgpu_device) \<Rightarrow> ptr \<Rightarrow> ptr option \<Rightarrow> ptr option outcome option" where
  "find_device heap acc pos =
     (case pos of
        None \<Rightarrow> Some (Ret None)
      | Some p \<Rightarrow>
          (case heap p of
             None \<Rightarrow> Some Fault
           | Some d \<Rightarrow> if acc_base d = acc then Some (Ret (Some p)) else find_device heap acc (dev_next d)))"

text \<open>
  The part from the first reference to the accelerant up to the list: the result, the device filled
  in so far (\<open>None\<close> after a failure), the accelerant and the allocation script. \<open>check_version\<close> and
  \<open>check_working\<close> are its first two stages.
\<close>

definition check_version ::
    "'a device_ops \<Rightarrow> 'a \<Rightarrow> ptr \<Rightarrow> (rc \<times> u32 \<times> u32 \<times> 'a)" where
  "check_version ops a acc =
     (let a = AcquireReference ops a acc
      in case QueryInterface ops a acc B_ACCELERANT_IFACE_DRM of
           (False, a) \<Rightarrow> (Err EBADF, 0, 0, a)
         | (True, a) \<Rightarrow>
             (case QueryInterface ops a acc B_ACCELERANT_IFACE_AMDGPU of
                (False, a) \<Rightarrow> (Err EBADF, 0, 0, a)
              | (True, a) \<Rightarrow>
                  (case DrmVersion ops a acc of
                     ((major, minor, _), a) \<Rightarrow>
                       if major \<noteq> 3 then (Err EBADF, 0, 0, a) else (OK, major, minor, a))))"

definition check_working :: "'a info_ops \<Rightarrow> 'a \<Rightarrow> (rc \<times> 'a) outcome" where
  "check_working iops a =
     bind_outcome (amdgpu_query_info iops a AMDGPU_INFO_ACCEL_WORKING 4 (le_bytes 4 0)) (\<lambda>(r, m, a).
       Ret (if r \<noteq> 0 then ext_rc r else if u32_at m 0 = 0 then Err EBADF else OK, a))"

text \<open>The managers and the name, for a device whose information is known.\<close>

definition finish_device ::
    "'a device_ops \<Rightarrow> ptr \<Rightarrow> u32 \<Rightarrow> u32 \<Rightarrow> 'a gpu_dev \<Rightarrow> alloc_script
     \<Rightarrow> (amdgpu_device \<times> alloc_script) outcome" where
  "finish_device ops acc major minor d sc =
     (let di = read_info_device (dev_info d)
      in bind_outcome
           (device_vamgr_init (di_virtual_address_offset di) (di_virtual_address_max di)
              (high_va_offset di) (high_va_max di) (di_virtual_address_alignment di) sc) (\<lambda>(va, sc).
         case amdgpu_parse_asic_ids
             \<lparr>ad_asic_id = asic_id (gd_info d), ad_pci_rev_id = pci_rev_id (gd_info d), marketing_name = None\<rparr>
             (asic_table ops (gd_acc d)) sc of
           (_, named, sc) \<Rightarrow>
             Ret (\<lparr>dev_refcount = 1, dev_next = None, acc_base = acc, major_version = major,
                   minor_version = minor, dev_name = marketing_name named, dv_info = dev_info d,
                   dv_gpu = gd_info d, dv_va = va, dv_bo_handles = empty_table,
                   dv_bo_flink_names = empty_table\<rparr>, sc)))"

definition setup_device ::
    "'a device_ops \<Rightarrow> 'a \<Rightarrow> ptr \<Rightarrow> alloc_script
     \<Rightarrow> (rc \<times> amdgpu_device option \<times> 'a \<times> alloc_script) outcome" where
  "setup_device ops a acc sc =
     (case check_version ops a acc of
        (r, major, minor, a) \<Rightarrow>
          if r \<noteq> OK then Ret (r, None, ReleaseReference ops a acc, sc)
          else
            bind_outcome (check_working (info_vt ops acc) a) (\<lambda>(r, a).
            if r \<noteq> OK then Ret (r, None, ReleaseReference ops a acc, sc)
            else
              bind_outcome
                (amdgpu_query_gpu_info_init (info_vt ops acc)
                   \<lparr>gd_acc = a, dev_info = replicate sizeof_info_device 0, gd_info = zero_info\<rparr>) (\<lambda>(r, d).
              if r \<noteq> 0 then Ret (ext_rc r, None, ReleaseReference ops (gd_acc d) acc, sc)
              else
                bind_outcome (finish_device ops acc major minor d sc) (\<lambda>(dev, sc).
                Ret (OK, Some dev, gd_acc d, sc)))))"

text \<open>The result, the versions, the handle, the state and the rest of the script.\<close>

definition amdgpu_device_initialize_haiku ::
    "'a device_ops \<Rightarrow> ptr \<Rightarrow> 'a dev_state \<Rightarrow> ptr \<Rightarrow> alloc_script
     \<Rightarrow> (rc \<times> (u32 \<times> u32) option \<times> ptr option \<times> 'a dev_state \<times> alloc_script) outcome option" where
  "amdgpu_device_initialize_haiku ops newp s acc sc =
     Option.bind (find_device (devs s) acc (dev_list s)) (\<lambda>found.
       case found of
         Fault \<Rightarrow> Some Fault
       | Ret (Some p) \<Rightarrow>
           (case devs s p of
              None \<Rightarrow> Some Fault
            | Some d \<Rightarrow>
                Option.bind (amdgpu_device_reference ops s None (Some p)) (\<lambda>res. Some (
                  bind_outcome res (\<lambda>s'.
                    Ret (OK, Some (major_version d, minor_version d), Some p, s', sc)))))
       | Ret None \<Rightarrow>
           Some (case calloc_next sc of
              (False, sc) \<Rightarrow> Ret (Err ENOMEM, None, None, s, sc)
            | (True, sc) \<Rightarrow>
                bind_outcome (setup_device ops (ds_acc s) acc sc) (\<lambda>(r, dev, a, sc).
                  case dev of
                    None \<Rightarrow> Ret (r, None, None, s\<lparr>ds_acc := a\<rparr>, sc)
                  | Some d \<Rightarrow>
                      Ret (OK, Some (major_version d, minor_version d), Some newp,
                           s\<lparr>ds_acc := a, devs := (devs s)(newp \<mapsto> d\<lparr>dev_next := dev_list s\<rparr>),
                             dev_list := Some newp\<rparr>, sc))))"

text \<open>
  \<open>amdgpu_device_initialize\<close>: the accelerant of a file descriptor, a reference to which is held for
  the call. \<open>from_fd\<close> is \<open>AccelerantRoster::FromFd\<close>, its status an error below 0.
\<close>

definition amdgpu_device_initialize ::
    "('a \<Rightarrow> int \<Rightarrow> int \<times> ptr \<times> 'a) \<Rightarrow> 'a device_ops \<Rightarrow> ptr \<Rightarrow> 'a dev_state \<Rightarrow> int \<Rightarrow> alloc_script
     \<Rightarrow> (rc \<times> (u32 \<times> u32) option \<times> ptr option \<times> 'a dev_state \<times> alloc_script) outcome option" where
  "amdgpu_device_initialize from_fd ops newp s fd sc =
     (case from_fd (ds_acc s) fd of
        (status, acc, a) \<Rightarrow>
          if status < 0 then Some (Ret (Err (Ext status), None, None, s\<lparr>ds_acc := a\<rparr>, sc))
          else
            Option.bind (amdgpu_device_initialize_haiku ops newp (s\<lparr>ds_acc := a\<rparr>) acc sc) (\<lambda>res. Some (
              bind_outcome res (\<lambda>(r, v, h, s', sc').
                Ret (r, v, h, s'\<lparr>ds_acc := ReleaseReference ops (ds_acc s') acc\<rparr>, sc')))))"

section \<open>What a device tells\<close>

definition amdgpu_device_get_accelerant :: "amdgpu_device \<Rightarrow> ptr" where
  "amdgpu_device_get_accelerant d = acc_base d"

definition amdgpu_get_marketing_name :: "amdgpu_device \<Rightarrow> string option" where
  "amdgpu_get_marketing_name d = dev_name d"

datatype amdgpu_sw_info = amdgpu_sw_info_address32_hi | amdgpu_sw_info_invalid int

definition amdgpu_query_sw_info :: "amdgpu_device \<Rightarrow> amdgpu_sw_info \<Rightarrow> rc \<times> u32 option" where
  "amdgpu_query_sw_info d info =
     (case info of
        amdgpu_sw_info_address32_hi \<Rightarrow>
          (OK, Some (ucast (drop_bit 32
             ((if va_max (vamgr_high_32 (dv_va d)) \<noteq> 0 then va_max (vamgr_high_32 (dv_va d))
               else va_max (vamgr_32 (dv_va d))) - 1))))
      | amdgpu_sw_info_invalid _ \<Rightarrow> (Err EINVAL, None))"

record amdgpu_buffer_size_alignments =
  size_local :: u64
  size_remote :: u64

definition amdgpu_query_buffer_size_alignment :: "amdgpu_device \<Rightarrow> rc \<times> amdgpu_buffer_size_alignments" where
  "amdgpu_query_buffer_size_alignment d =
     (OK, \<lparr>size_local = ucast (pte_fragment_size (read_info_device (dv_info d))),
           size_remote = ucast (gart_page_size (read_info_device (dv_info d)))\<rparr>)"

definition amdgpu_vm_reserve_vmid :: "amdgpu_device \<Rightarrow> u32 \<Rightarrow> rc" where
  "amdgpu_vm_reserve_vmid d flags = Err ENOSYS"

definition amdgpu_vm_unreserve_vmid :: "amdgpu_device \<Rightarrow> u32 \<Rightarrow> rc" where
  "amdgpu_vm_unreserve_vmid d flags = Err ENOSYS"

section \<open>The list of devices\<close>

fun dev_seg :: "(ptr \<rightharpoonup> amdgpu_device) \<Rightarrow> ptr option \<Rightarrow> ptr list \<Rightarrow> ptr option \<Rightarrow> bool" where
  "dev_seg h p [] q \<longleftrightarrow> p = q"
| "dev_seg h p (x # xs) q \<longleftrightarrow> p = Some x \<and> (\<exists>d. h x = Some d \<and> dev_seg h (dev_next d) xs q)"

fun seg_start :: "ptr list \<Rightarrow> ptr option \<Rightarrow> ptr option" where
  "seg_start [] q = q"
| "seg_start (x # xs) q = Some x"

lemma dev_seg_start: "dev_seg h p xs q \<Longrightarrow> p = seg_start xs q"
  by (cases xs) simp_all

lemma dev_seg_append:
  "dev_seg h p (xs @ ys) q \<longleftrightarrow> dev_seg h p xs (seg_start ys q) \<and> dev_seg h (seg_start ys q) ys q"
proof (induction xs arbitrary: p)
  case Nil
  show ?case using dev_seg_start [of h p ys q] by auto
qed auto

lemma dev_seg_frame: "\<forall>x\<in>set xs. h' x = h x \<Longrightarrow> dev_seg h' p xs q = dev_seg h p xs q"
  by (induction xs arbitrary: p) auto

lemma dev_seg_dom: "dev_seg h p xs q \<Longrightarrow> set xs \<subseteq> dom h"
  by (induction xs arbitrary: p) auto

text \<open>A device without its link.\<close>

definition dev_core :: "amdgpu_device \<Rightarrow> amdgpu_device" where
  "dev_core d = d\<lparr>dev_next := None\<rparr>"

definition same_cores :: "(ptr \<rightharpoonup> amdgpu_device) \<Rightarrow> (ptr \<rightharpoonup> amdgpu_device) \<Rightarrow> bool" where
  "same_cores h h' \<longleftrightarrow> (\<forall>p. map_option dev_core (h' p) = map_option dev_core (h p))"

lemma same_cores_refl [simp]: "same_cores h h"
  by (simp add: same_cores_def)

lemma same_cores_next: "h p = Some d \<Longrightarrow> same_cores h (h(p \<mapsto> d\<lparr>dev_next := v\<rparr>))"
  by (simp add: same_cores_def dev_core_def)

lemma same_cores_fields:
  assumes "same_cores h h'"
  shows "dom h' = dom h" and "h p = Some d \<Longrightarrow> \<exists>d'. h' p = Some d' \<and> acc_base d' = acc_base d \<and> dev_refcount d' = dev_refcount d"
proof -
  have c: "map_option dev_core (h' p) = map_option dev_core (h p)" for p
    using assms by (simp add: same_cores_def)
  have "h' p = None \<longleftrightarrow> h p = None" for p using c [of p] by (metis map_option_is_None)
  then show "dom h' = dom h" by (auto simp: dom_def)
  show "\<exists>d'. h' p = Some d' \<and> acc_base d' = acc_base d \<and> dev_refcount d' = dev_refcount d" if h: "h p = Some d"
  proof -
    obtain d' where d': "h' p = Some d'" "dev_core d' = dev_core d" using c [of p] h by (auto simp: map_option_eq_Some)
    then have "acc_base (dev_core d') = acc_base (dev_core d)" "dev_refcount (dev_core d') = dev_refcount (dev_core d)"
      by simp_all
    with d'(1) show ?thesis by (simp add: dev_core_def)
  qed
qed

text \<open>The loops.\<close>

lemma find_device_seg:
  "dev_seg h p xs None \<Longrightarrow> find_device h acc p = Some (Ret (find (\<lambda>q. acc_base (the (h q)) = acc) xs))"
proof (induction xs arbitrary: p)
  case Nil
  then show ?case by (simp add: find_device.simps [of h acc None])
next
  case (Cons x xs)
  then obtain d where "p = Some x" "h x = Some d" "dev_seg h (dev_next d) xs None" by auto
  with Cons.IH show ?case by (simp add: find_device.simps [of h acc "Some x"])
qed

lemma find_node_seg:
  "dev_seg (devs s) p (us @ t # vs) None \<Longrightarrow> t \<notin> set us \<Longrightarrow> get_node s node = Ret p \<Longrightarrow>
     find_node s t node = Some (Ret (if us = [] then node else Some (last us)))"
proof (induction us arbitrary: p node)
  case Nil
  then show ?case by (subst find_node.simps) simp
next
  case (Cons u us)
  then obtain d where d: "p = Some u" "devs s u = Some d" "dev_seg (devs s) (dev_next d) (us @ t # vs) None" "u \<noteq> t"
    by auto
  then obtain y where "dev_next d = Some y" using dev_seg_start [OF d(3)] by (cases us) auto
  moreover have "find_node s t (Some u) = Some (Ret (if us = [] then Some u else Some (last us)))"
    using Cons.IH [OF d(3), of "Some u"] Cons.prems(2) d(2) by (simp add: get_node_def)
  ultimately show ?case
    using d Cons.prems(3) by (subst find_node.simps) simp
qed

lemma unlink_device_seg:
  assumes l: "dev_seg (devs s) (dev_list s) (us @ t # vs) None" and dist: "distinct (us @ t # vs)"
  obtains s' where "unlink_device s t = Some (Ret s')" "ds_acc s' = ds_acc s"
    "dev_seg (devs s') (dev_list s') (us @ vs) None" "same_cores (devs s) (devs s')"
proof -
  let ?node = "if us = [] then None else Some (last us)"
  have node: "find_node s t None = Some (Ret ?node)"
    using find_node_seg [OF l, of None] dist by (simp add: get_node_def)
  obtain d where d: "devs s t = Some d" "dev_seg (devs s) (dev_next d) vs None"
    and pre: "dev_seg (devs s) (dev_list s) us (Some t)"
    using l by (auto simp: dev_seg_append)
  show thesis
  proof (cases us rule: rev_cases)
    case Nil
    then have "dev_list s = Some t" using pre by simp
    with Nil node d show thesis
      by (intro that [of "s\<lparr>dev_list := dev_next d\<rparr>"])
        (simp_all add: unlink_device_def get_node_def set_node_def)
  next
    case (snoc ws u)
    then obtain du where u: "devs s u = Some du" "dev_next du = Some t" "dev_seg (devs s) (dev_list s) ws (Some u)"
      using pre by (auto simp: dev_seg_append)
    let ?s' = "s\<lparr>devs := (devs s)(u \<mapsto> du\<lparr>dev_next := dev_next d\<rparr>)\<rparr>"
    have "unlink_device s t = Some (Ret ?s')"
      using node snoc u d by (simp add: unlink_device_def get_node_def set_node_def)
    moreover have "dev_seg (devs ?s') p ws q = dev_seg (devs s) p ws q"
      "dev_seg (devs ?s') p vs q = dev_seg (devs s) p vs q" for p q
      using dist snoc by (auto intro!: dev_seg_frame)
    then have "dev_seg (devs ?s') (dev_list ?s') (us @ vs) None"
      using snoc u d(2) dev_seg_start [OF d(2)] by (simp add: dev_seg_append)
    ultimately show thesis using same_cores_next [where h = "devs s" and p = u and d = du] u(1)
      by (intro that [of ?s']) simp_all
  qed
qed

section \<open>The invariant\<close>

definition registry_ok :: "'a dev_state \<Rightarrow> ptr list \<Rightarrow> bool" where
  "registry_ok s hs \<longleftrightarrow>
     (\<exists>xs. dev_seg (devs s) (dev_list s) xs None \<and> distinct xs \<and> set xs = dom (devs s))
   \<and> inj_on (\<lambda>p. acc_base (the (devs s p))) (dom (devs s)) \<and> set hs = dom (devs s)
   \<and> (\<forall>p d. devs s p = Some d \<longrightarrow> unat (dev_refcount d) = count_list hs p \<and> count_list hs p < 2 ^ 31)"

lemma finish_device_result:
  "finish_device ops acc major minor gd sc = Ret (d, sc') \<Longrightarrow> acc_base d = acc \<and> dev_refcount d = 1"
  unfolding finish_device_def Let_def
  by (elim bind_outcome_RetE) (auto split: prod.split_asm)

lemma setup_device_result:
  "setup_device ops a acc sc = Ret (r, Some d, a', sc') \<Longrightarrow> acc_base d = acc \<and> dev_refcount d = 1"
  unfolding setup_device_def
  by (auto elim!: bind_outcome_RetE split: prod.split_asm if_split_asm; drule finish_device_result; simp)

lemma device_counts_take:
  assumes "devs s p = Some d" and "atomic_positive (dev_refcount d)"
  shows "device_counts s None (Some p) =
    Ret (False, s\<lparr>devs := (devs s)(p \<mapsto> d\<lparr>dev_refcount := dev_refcount d + 1\<rparr>)\<rparr>)"
proof -
  have c: "cells_of dev_refcount (devs s) p = Some (dev_refcount d)" using assms(1) by (simp add: cells_of_Some)
  have w: "with_cells (\<lambda>v d. d\<lparr>dev_refcount := v\<rparr>) (devs s) ((cells_of dev_refcount (devs s))(p \<mapsto> dev_refcount d + 1)) =
      (devs s)(p \<mapsto> d\<lparr>dev_refcount := dev_refcount d + 1\<rparr>)"
    by (rule with_cells_one [where get = dev_refcount]) (simp_all add: assms(1))
  show ?thesis
    by (simp only: device_counts_def update_references_take [where cs = "cells_of dev_refcount (devs s)", OF c]
        assms(2) if_True bind_outcome_simps prod.case w)
qed

lemma device_counts_drop:
  assumes "devs s p = Some d" and "atomic_positive (dev_refcount d)"
  shows "device_counts s (Some p) None =
    Ret (dev_refcount d = 1, s\<lparr>devs := (devs s)(p \<mapsto> d\<lparr>dev_refcount := dev_refcount d - 1\<rparr>)\<rparr>)"
proof -
  have c: "cells_of dev_refcount (devs s) p = Some (dev_refcount d)" using assms(1) by (simp add: cells_of_Some)
  have w: "with_cells (\<lambda>v d. d\<lparr>dev_refcount := v\<rparr>) (devs s) ((cells_of dev_refcount (devs s))(p \<mapsto> dev_refcount d - 1)) =
      (devs s)(p \<mapsto> d\<lparr>dev_refcount := dev_refcount d - 1\<rparr>)"
    by (rule with_cells_one [where get = dev_refcount]) (simp_all add: assms(1))
  show ?thesis
    by (simp only: device_counts_def update_references_drop [where cs = "cells_of dev_refcount (devs s)", OF c]
        assms(2) if_True bind_outcome_simps prod.case w)
qed

lemma dev_seg_count [simp]:
  "h p = Some d \<Longrightarrow> dev_seg (h(p \<mapsto> d\<lparr>dev_refcount := v\<rparr>)) q xs q' = dev_seg h q xs q'"
  by (induction xs arbitrary: q) auto

lemma registry_recount:
  assumes ok: "registry_ok s hs" and d: "devs s p = Some d" and "set hs' = set hs"
    and "\<forall>q. q \<noteq> p \<longrightarrow> count_list hs' q = count_list hs q"
    and "unat v = count_list hs' p" and "count_list hs' p < 2 ^ 31"
  shows "registry_ok (s\<lparr>devs := (devs s)(p \<mapsto> d\<lparr>dev_refcount := v\<rparr>)\<rparr>) hs'"
proof -
  let ?h = "(devs s)(p \<mapsto> d\<lparr>dev_refcount := v\<rparr>)"
  have "(\<lambda>q. acc_base (the (?h q))) = (\<lambda>q. acc_base (the (devs s q)))" using d by auto
  moreover have "dom ?h = dom (devs s)" using d by auto
  moreover have "\<forall>q e. ?h q = Some e \<longrightarrow> unat (dev_refcount e) = count_list hs' q \<and> count_list hs' q < 2 ^ 31"
    using ok assms(4-6) by (auto simp: registry_ok_def)
  ultimately show ?thesis
    using ok d assms(3) unfolding registry_ok_def by simp
qed

lemma registry_opened:
  assumes ok: "registry_ok s hs" and d: "devs s p = Some d" and cnt: "count_ok (unat (dev_refcount d))"
  shows "registry_ok (s\<lparr>devs := (devs s)(p \<mapsto> d\<lparr>dev_refcount := dev_refcount d + 1\<rparr>)\<rparr>) (p # hs)"
  using ok d cnt unat_count_inc [OF cnt]
  by (intro registry_recount [OF ok d]) (auto simp: registry_ok_def count_ok_def)

lemma registry_added:
  assumes ok: "registry_ok s hs" and new: "p \<notin> dom (devs s)" and "dev_refcount d = 1"
    and acc: "\<forall>q d'. devs s q = Some d' \<longrightarrow> acc_base d' \<noteq> acc_base d"
  shows "registry_ok (s\<lparr>ds_acc := a, devs := (devs s)(p \<mapsto> d\<lparr>dev_next := dev_list s\<rparr>), dev_list := Some p\<rparr>) (p # hs)"
proof -
  let ?h = "(devs s)(p \<mapsto> d\<lparr>dev_next := dev_list s\<rparr>)"
  obtain xs where xs: "dev_seg (devs s) (dev_list s) xs None" "distinct xs" "set xs = dom (devs s)"
    using ok by (auto simp: registry_ok_def)
  have "dev_seg ?h (dev_list s) xs None"
    using xs new by (subst dev_seg_frame [of xs ?h "devs s"]) auto
  then have seg: "dev_seg ?h (Some p) (p # xs) None" "distinct (p # xs)" "set (p # xs) = dom ?h"
    using xs new by auto
  have hs: "set hs = dom (devs s)" using ok by (simp add: registry_ok_def)
  then have zero: "count_list hs p = 0" using new by simp
  have "inj_on (\<lambda>q. acc_base (the (?h q))) (dom ?h)"
    using ok acc new by (auto simp: registry_ok_def inj_on_def) (metis domI option.sel)+
  then show ?thesis
    using ok seg hs zero assms(3) new unfolding registry_ok_def
    by (auto simp del: dev_seg.simps intro!: exI [of _ "p # xs"])
qed

text \<open>Opening an accelerant no device has: a failure changes nothing but the accelerant, a success puts a
  device with one reference in front of the list.\<close>

lemma initialize_new:
  assumes run: "amdgpu_device_initialize_haiku ops newp s acc sc = Some (Ret (r, v, h, s', sc'))"
    and found: "find_device (devs s) acc (dev_list s) = Some (Ret None)"
  shows "h = None \<and> (\<exists>a. s' = s\<lparr>ds_acc := a\<rparr>) \<or>
    (\<exists>a d. h = Some newp \<and> acc_base d = acc \<and> dev_refcount d = 1
      \<and> s' = s\<lparr>ds_acc := a, devs := (devs s)(newp \<mapsto> d\<lparr>dev_next := dev_list s\<rparr>), dev_list := Some newp\<rparr>)"
proof (cases "calloc_next sc")
  case (Pair b sc1)
  show ?thesis
  proof (cases b)
    case False
    then have "s' = s\<lparr>ds_acc := ds_acc s\<rparr>" "h = None"
      using run Pair by (simp_all add: amdgpu_device_initialize_haiku_def found)
    then show ?thesis by blast
  next
    case True
    then obtain r' dev a sc2 where "setup_device ops (ds_acc s) acc sc1 = Ret (r', dev, a, sc2)"
        and rest: "(case dev of
            None \<Rightarrow> Ret (r', None, None, s\<lparr>ds_acc := a\<rparr>, sc2)
          | Some d \<Rightarrow>
              Ret (OK, Some (major_version d, minor_version d), Some newp,
                   s\<lparr>ds_acc := a, devs := (devs s)(newp \<mapsto> d\<lparr>dev_next := dev_list s\<rparr>),
                     dev_list := Some newp\<rparr>, sc2)) = Ret (r, v, h, s', sc')"
      using run Pair
      by (auto simp: amdgpu_device_initialize_haiku_def found elim!: bind_outcome_RetE)
    then show ?thesis
      using setup_device_result [of ops "ds_acc s" acc sc1 r' _ a sc2] by (cases dev) auto
  qed
qed

lemma initialize_registry:
  assumes ok: "registry_ok s hs" and new: "newp \<notin> dom (devs s)"
    and cnt: "\<forall>p d. devs s p = Some d \<longrightarrow> count_ok (unat (dev_refcount d))"
    and run: "amdgpu_device_initialize_haiku ops newp s acc sc = Some (Ret (r, v, h, s', sc'))"
  shows "registry_ok s' (case h of None \<Rightarrow> hs | Some p \<Rightarrow> p # hs)"
proof -
  obtain xs where xs: "dev_seg (devs s) (dev_list s) xs None" "set xs = dom (devs s)"
    using ok by (auto simp: registry_ok_def)
  note found = find_device_seg [OF xs(1), of acc]
  show ?thesis
  proof (cases "find (\<lambda>q. acc_base (the (devs s q)) = acc) xs")
    case (Some p)
    then have "p \<in> set xs" by (auto simp: find_Some_iff)
    then obtain d where d: "devs s p = Some d" using xs(2) by auto
    then have "p \<in> set hs" "unat (dev_refcount d) = count_list hs p" "count_list hs p < 2 ^ 31"
      using ok by (auto simp: registry_ok_def)
    then have pos: "atomic_positive (dev_refcount d)"
      by (simp add: atomic_positive_iff) (metis count_list_0_iff gr0I)
    have "s' = s\<lparr>devs := (devs s)(p \<mapsto> d\<lparr>dev_refcount := dev_refcount d + 1\<rparr>)\<rparr>" "h = Some p"
      using run device_counts_take [OF d pos]
      by (simp_all add: amdgpu_device_initialize_haiku_def found Some d amdgpu_device_reference_def)
    with registry_opened [OF ok d] cnt d show ?thesis by auto
  next
    case None
    then have other: "\<forall>q d'. devs s q = Some d' \<longrightarrow> acc_base d' \<noteq> acc"
      using xs(2) by (auto simp: find_None_iff)
    have "find_device (devs s) acc (dev_list s) = Some (Ret None)" using found None by simp
    from initialize_new [OF run this]
    show ?thesis
    proof
      assume "h = None \<and> (\<exists>a. s' = s\<lparr>ds_acc := a\<rparr>)"
      then show ?thesis using ok by (auto simp: registry_ok_def)
    next
      assume "\<exists>a d. h = Some newp \<and> acc_base d = acc \<and> dev_refcount d = 1
          \<and> s' = s\<lparr>ds_acc := a, devs := (devs s)(newp \<mapsto> d\<lparr>dev_next := dev_list s\<rparr>), dev_list := Some newp\<rparr>"
      then show ?thesis using registry_added [OF ok new] other by auto
    qed
  qed
qed

lemma registry_handle:
  assumes "registry_ok s hs" and "p \<in> set hs"
  obtains d where "devs s p = Some d" "atomic_positive (dev_refcount d)" "unat (dev_refcount d) = count_list hs p"
proof -
  obtain d where d: "devs s p = Some d" using assms by (auto simp: registry_ok_def)
  then have "unat (dev_refcount d) = count_list hs p" "count_list hs p < 2 ^ 31"
    using assms(1) by (auto simp: registry_ok_def)
  moreover have "count_list hs p \<noteq> 0" using assms(2) by (simp add: count_list_0_iff)
  ultimately show thesis using that [OF d] by (simp add: atomic_positive_iff)
qed

lemma set_remove1_count:
  fixes p :: ptr
  assumes "p \<in> set hs"
  shows "set (remove1 p hs) = (if count_list hs p = 1 then set hs - {p} else set hs)"
proof -
  have mem: "x \<in> set ys \<longleftrightarrow> count_list ys x \<noteq> 0" for x and ys :: "ptr list" by (simp add: count_list_0_iff)
  have "count_list hs p \<noteq> 0" using assms by (simp add: count_list_0_iff)
  then show ?thesis unfolding set_eq_iff mem by (auto simp: mem)
qed

text \<open>Taking the last handle of a device out of the registry: what the unlinking left is well-formed.\<close>

lemma registry_removed:
  assumes ok: "registry_ok s hs" and d: "devs s p = Some d" and last: "count_list hs p = 1"
    and cores: "same_cores ((devs s)(p \<mapsto> d\<lparr>dev_refcount := n\<rparr>)) (devs s1)"
    and xs: "distinct (us @ p # vs)" "set (us @ p # vs) = dom (devs s)"
    and seg: "dev_seg (devs s1) (dev_list s1) (us @ vs) None"
  shows "registry_ok (s1\<lparr>ds_acc := a, devs := (devs s1)(p := None)\<rparr>) (remove1 p hs)"
proof -
  let ?s' = "s1\<lparr>ds_acc := a, devs := (devs s1)(p := None)\<rparr>"
  have inj: "inj_on (\<lambda>p. acc_base (the (devs s p))) (dom (devs s))"
    and hs: "set hs = dom (devs s)"
    and counts: "\<forall>q d. devs s q = Some d \<longrightarrow> unat (dev_refcount d) = count_list hs q \<and> count_list hs q < 2 ^ 31"
    using ok by (simp_all add: registry_ok_def)
  have dom1: "dom (devs s1) = dom (devs s)" using same_cores_fields(1) [OF cores] d by auto
  have seg': "dev_seg (devs ?s') (dev_list ?s') (us @ vs) None"
    using seg xs(1) by (subst dev_seg_frame [of "us @ vs" "devs ?s'" "devs s1"]) auto
  have keep: "\<exists>d'. devs s q = Some d' \<and> acc_base d' = acc_base d'' \<and> dev_refcount d' = dev_refcount d''"
    if q: "devs s1 q = Some d''" "q \<noteq> p" for q d''
  proof -
    obtain d' where d': "devs s q = Some d'" using q(1) dom1 by (metis domD domI)
    with q same_cores_fields(2) [OF cores, of q d'] show ?thesis by auto
  qed
  have "inj_on (\<lambda>q. acc_base (the (devs ?s' q))) (dom (devs ?s'))"
  proof (rule inj_onI)
    fix q q' assume a: "q \<in> dom (devs ?s')" "q' \<in> dom (devs ?s')"
      "acc_base (the (devs ?s' q)) = acc_base (the (devs ?s' q'))"
    then obtain e e' where e: "devs s1 q = Some e" "devs s1 q' = Some e'" "q \<noteq> p" "q' \<noteq> p"
      by (auto split: if_splits)
    obtain f f' where "devs s q = Some f" "acc_base f = acc_base e" "devs s q' = Some f'" "acc_base f' = acc_base e'"
      using keep [OF e(1,3)] keep [OF e(2,4)] by auto
    then show "q = q'" using inj a(3) e by (auto simp: inj_on_def) (metis domI option.sel)
  qed
  then show ?thesis
    using seg' xs hs dom1 last set_remove1_count [of p hs] counts keep d
    unfolding registry_ok_def
    by (intro conjI exI [of _ "us @ vs"]) (auto, metis+)
qed

lemma deinitialize_registry:
  assumes ok: "registry_ok s hs" and p: "p \<in> set hs"
  obtains s' where "amdgpu_device_deinitialize ops s (Some p) = Some (Ret (OK, s'))"
    "registry_ok s' (remove1 p hs)" "devs s' p = None \<longleftrightarrow> count_list hs p = 1"
proof -
  obtain d where d: "devs s p = Some d" "atomic_positive (dev_refcount d)" "unat (dev_refcount d) = count_list hs p"
    by (rule registry_handle [OF ok p])
  have one: "dev_refcount d = 1 \<longleftrightarrow> count_list hs p = 1"
    unfolding d(3) [symmetric] by (simp add: unat_eq_iff)
  let ?d = "d\<lparr>dev_refcount := dev_refcount d - 1\<rparr>"
  let ?s = "s\<lparr>devs := (devs s)(p \<mapsto> ?d)\<rparr>"
  note drop = device_counts_drop [OF d(1,2)]
  have cnt: "unat (dev_refcount d - 1) = count_list hs p - 1" using unat_count_dec [OF d(2)] d(3) by simp
  obtain xs where xs: "dev_seg (devs s) (dev_list s) xs None" "distinct xs" "set xs = dom (devs s)"
    using ok by (auto simp: registry_ok_def)
  have counts: "\<forall>q d. devs s q = Some d \<longrightarrow> unat (dev_refcount d) = count_list hs q \<and> count_list hs q < 2 ^ 31"
    using ok by (simp add: registry_ok_def)
  show thesis
  proof (cases "count_list hs p = 1")
    case False
    have "amdgpu_device_deinitialize ops s (Some p) = Some (Ret (OK, ?s))"
      using False one by (simp add: amdgpu_device_deinitialize_def amdgpu_device_reference_def drop)
    moreover have "registry_ok ?s (remove1 p hs)"
      using cnt False set_remove1_count [OF p] counts d(1)
      by (intro registry_recount [OF ok d(1)]) (auto intro: le_less_trans [OF diff_le_self])
    ultimately show thesis using that False by simp
  next
    case True
    obtain us vs where split: "xs = us @ p # vs" using xs(3) d(1) by (metis domI split_list)
    have "dev_seg (devs ?s) (dev_list ?s) (us @ p # vs) None" using xs(1) split d(1) by simp
    then obtain s1 where s1: "unlink_device ?s p = Some (Ret s1)" "dev_seg (devs s1) (dev_list s1) (us @ vs) None"
        "same_cores (devs ?s) (devs s1)"
      using unlink_device_seg [of ?s us p vs] xs(2) split by blast
    obtain d1 where d1: "devs s1 p = Some d1" using same_cores_fields(2) [OF s1(3), of p ?d] by auto
    let ?s' = "s1\<lparr>ds_acc := ReleaseReference ops (ds_acc s1) (acc_base d1), devs := (devs s1)(p := None)\<rparr>"
    have "amdgpu_device_deinitialize ops s (Some p) = Some (Ret (OK, ?s'))"
      using True one s1(1) d1
      by (simp add: amdgpu_device_deinitialize_def amdgpu_device_reference_def drop amdgpu_device_free_internal_def)
    moreover have "registry_ok ?s' (remove1 p hs)"
      using s1(2,3) xs(2,3) split by (intro registry_removed [OF ok d(1) True, of _ s1 us vs]) simp_all
    ultimately show thesis using that True by simp
  qed
qed

section \<open>Runs\<close>

text \<open>Clients open devices of accelerants and close handles they hold, in any order.\<close>

type_synonym 'a dev_sys = "'a dev_state \<times> ptr list \<times> alloc_script"

inductive device_step :: "'a device_ops \<Rightarrow> 'a dev_sys \<Rightarrow> 'a dev_sys \<Rightarrow> bool" for ops where
  dev_open: "\<lbrakk>newp \<notin> dom (devs s); \<forall>p d. devs s p = Some d \<longrightarrow> count_ok (unat (dev_refcount d));
         amdgpu_device_initialize_haiku ops newp s acc sc = Some (Ret (r, v, h, s', sc'))\<rbrakk> \<Longrightarrow>
     device_step ops (s, hs, sc) (s', (case h of None \<Rightarrow> hs | Some p \<Rightarrow> p # hs), sc')"
| dev_close: "\<lbrakk>p \<in> set hs; amdgpu_device_deinitialize ops s (Some p) = Some (Ret (r, s'))\<rbrakk> \<Longrightarrow>
     device_step ops (s, hs, sc) (s', remove1 p hs, sc)"

definition no_devices :: "'a \<Rightarrow> 'a dev_state" where
  "no_devices a = \<lparr>ds_acc = a, devs = Map.empty, dev_list = None\<rparr>"

lemma registry_start: "registry_ok (no_devices a) []"
  by (auto simp: registry_ok_def no_devices_def intro!: exI [of _ "[]"])

lemma device_step_registry:
  "device_step ops (s, hs, sc) (s', hs', sc') \<Longrightarrow> registry_ok s hs \<Longrightarrow> registry_ok s' hs'"
proof -
  assume step: "device_step ops (s, hs, sc) (s', hs', sc')" and ok: "registry_ok s hs"
  from step show ?thesis
  proof cases
    case (dev_open newp acc r v h)
    then show ?thesis using initialize_registry [OF ok] by blast
  next
    case (dev_close p r)
    obtain s1 where "amdgpu_device_deinitialize ops s (Some p) = Some (Ret (OK, s1))" "registry_ok s1 (remove1 p hs)"
      by (rule deinitialize_registry [OF ok dev_close(3)])
    with dev_close show ?thesis by simp
  qed
qed

lemma device_run_registry:
  assumes "(device_step ops)\<^sup>*\<^sup>* (no_devices a, [], sc) (s, hs, sc')"
  shows "registry_ok s hs"
proof -
  have "(device_step ops)\<^sup>*\<^sup>* x y \<Longrightarrow> registry_ok (fst x) (fst (snd x)) \<Longrightarrow> registry_ok (fst y) (fst (snd y))" for x y
  proof (induction rule: rtranclp_induct)
    case (step y z)
    then show ?case
      using device_step_registry [of ops "fst y" "fst (snd y)" "snd (snd y)" "fst z" "fst (snd z)" "snd (snd z)"]
      by simp
  qed
  from this [OF assms] registry_start [of a] show ?thesis by simp
qed

section \<open>A device that opens\<close>

text \<open>An accelerant of a family without the register queries, with 0x2000 to 0x4000 as addresses.\<close>

definition demo_dev_bytes :: "u8 list" where
  "demo_dev_bytes = replicate 16 0 @ le_bytes 4 142 @ replicate 348 0"

definition demo_dev_ops :: "nat device_ops" where
  "demo_dev_ops =
     \<lparr>AcquireReference = (\<lambda>a acc. a + 1), ReleaseReference = (\<lambda>a acc. a - 1),
      QueryInterface = (\<lambda>a acc i. (True, a)), DrmVersion = (\<lambda>a acc. ((3, 49, 0), a)),
      info_vt = (\<lambda>acc. \<lparr>AmdgpuQueryInfo = (\<lambda>a req.
        if info_query_id req = AMDGPU_INFO_DEV_INFO then (0, demo_dev_bytes, a)
        else if info_query_id req = AMDGPU_INFO_ACCEL_WORKING then (0, le_bytes 4 1, a) else (0, [], a))\<rparr>),
      asic_table = (\<lambda>a. None)\<rparr>"

lemma device_vamgr_init_returns: "\<exists>va. device_vamgr_init a b c d e [] = Ret (va, [])"
  by (simp add: device_vamgr_init_def amdgpu_vamgr_init_def Let_def)

lemma demo_query:
  "AmdgpuQueryInfo (info_vt demo_dev_ops acc) a req =
     (if info_query_id req = AMDGPU_INFO_DEV_INFO then (0, demo_dev_bytes, a)
      else if info_query_id req = AMDGPU_INFO_ACCEL_WORKING then (0, le_bytes 4 1, a) else (0, [], a))"
  by (simp add: demo_dev_ops_def)

lemma demo_gpu_init:
  "\<exists>d. amdgpu_query_gpu_info_init (info_vt demo_dev_ops acc)
     \<lparr>gd_acc = a, dev_info = replicate sizeof_info_device 0, gd_info = zero_info\<rparr> = Ret (0, d) \<and> gd_acc d = a"
proof -
  let ?d = "\<lparr>gd_acc = a, dev_info = replicate sizeof_info_device 0, gd_info = zero_info\<rparr>"
  have l: "length (dev_info ?d) = sizeof_info_device" by simp
  have ans: "dev_info_answer (info_vt demo_dev_ops acc) ?d = (0, demo_dev_bytes, a)"
    by (simp add: dev_info_answer_def demo_query)
  have "length demo_dev_bytes = 368" by (simp add: demo_dev_bytes_def)
  then have m: "answered_info (info_vt demo_dev_ops acc) ?d = demo_dev_bytes"
    by (simp add: answered_info_def ans) (simp add: overlay_all sizeof_info_device_def)
  have fam: "u32_at demo_dev_bytes 16 = 142"
    using u32_at_field [of "replicate 16 0" 16 142] by (simp add: demo_dev_bytes_def)
  have words: "bytes_words (Suc 0) (words_bytes [x]) = [x]" for x
    using bytes_words_words_bytes [of "[x]" "[]"] by simp
  have "family (read_info_device demo_dev_bytes) = 142" by (simp add: read_info_device_def fam)
  then show ?thesis
    unfolding init_after_answer [OF l ans] m
    by (simp add: fam AMDGPU_FAMILY_AI_def if_ok_def read_addr_cfg_def read_regs_def
        amdgpu_read_mm_registers_def send_query_def demo_query AMDGPU_INFO_READ_MMR_REG_def
        AMDGPU_INFO_DEV_INFO_def AMDGPU_INFO_ACCEL_WORKING_def copy_dev_info_def words Let_def del: words_bytes.simps bytes_words.simps)
qed

lemma demo_setup:
  "\<exists>d. setup_device demo_dev_ops a acc [] = Ret (OK, Some d, a + 1, [])"
proof -
  have v: "check_version demo_dev_ops a acc = (OK, 3, 49, a + 1)"
    by (simp add: check_version_def demo_dev_ops_def)
  have "u32_at (le_bytes 4 1) 0 = 1" using u32_at_field [of "[]" 0 1 "[]"] by simp
  then have w: "check_working (info_vt demo_dev_ops acc) (a + 1) = Ret (OK, a + 1)"
    by (simp add: check_working_def amdgpu_query_info_def send_query_def demo_query overlay_all
        AMDGPU_INFO_DEV_INFO_def AMDGPU_INFO_ACCEL_WORKING_def del: le_bytes.simps)
  obtain d where d: "amdgpu_query_gpu_info_init (info_vt demo_dev_ops acc)
     \<lparr>gd_acc = a + 1, dev_info = replicate sizeof_info_device 0, gd_info = zero_info\<rparr> = Ret (0, d)" "gd_acc d = a + 1"
    using demo_gpu_init by blast
  obtain dev where "finish_device demo_dev_ops acc 3 49 d [] = Ret (dev, [])"
    using device_vamgr_init_returns
    by (simp add: finish_device_def Let_def amdgpu_parse_asic_ids_def demo_dev_ops_def) (metis bind_outcome_simps(2) case_prod_conv)
  with v w d show ?thesis by (simp add: setup_device_def)
qed

lemma demo_open:
  assumes "find_device (devs s) acc (dev_list s) = Some (Ret None)"
  obtains d where "amdgpu_device_initialize_haiku demo_dev_ops p s acc [] =
    Some (Ret (OK, Some (major_version d, minor_version d), Some p,
      s\<lparr>ds_acc := ds_acc s + 1, devs := (devs s)(p \<mapsto> d\<lparr>dev_next := dev_list s\<rparr>), dev_list := Some p\<rparr>, []))"
    "acc_base d = acc" "dev_refcount d = 1"
proof -
  obtain d where d: "setup_device demo_dev_ops (ds_acc s) acc [] = Ret (OK, Some d, ds_acc s + 1, [])"
    using demo_setup by blast
  then show thesis
    using assms setup_device_result [OF d] by (intro that [of d]) (simp_all add: amdgpu_device_initialize_haiku_def)
qed

lemma reopen:
  assumes "find_device (devs s) acc (dev_list s) = Some (Ret (Some p))" and "devs s p = Some d"
    and "atomic_positive (dev_refcount d)"
  shows "amdgpu_device_initialize_haiku ops newp s acc sc =
    Some (Ret (OK, Some (major_version d, minor_version d), Some p,
      s\<lparr>devs := (devs s)(p \<mapsto> d\<lparr>dev_refcount := dev_refcount d + 1\<rparr>)\<rparr>, sc))"
  by (simp add: amdgpu_device_initialize_haiku_def assms amdgpu_device_reference_def
      device_counts_take [OF assms(2,3)])

text \<open>The accelerant at 9 opened twice.\<close>

lemma demo_device_run:
  obtains s where "(device_step demo_dev_ops)\<^sup>*\<^sup>* (no_devices 0, [], []) (s, [5, 5], [])"
proof -
  define s0 :: "nat dev_state" where "s0 = no_devices 0"
  have s0: "devs s0 = Map.empty" "dev_list s0 = None" by (simp_all add: s0_def no_devices_def)
  have "find_device (devs s0) 9 (dev_list s0) = Some (Ret None)"
    by (simp add: s0 find_device.simps)
  then obtain d where d: "amdgpu_device_initialize_haiku demo_dev_ops 5 s0 9 [] =
      Some (Ret (OK, Some (major_version d, minor_version d), Some 5,
        s0\<lparr>ds_acc := ds_acc s0 + 1, devs := (devs s0)(5 \<mapsto> d\<lparr>dev_next := dev_list s0\<rparr>), dev_list := Some 5\<rparr>, []))"
    and base: "acc_base d = 9" "dev_refcount d = 1"
    by (rule demo_open)
  define s1 where "s1 = s0\<lparr>ds_acc := ds_acc s0 + 1, devs := (devs s0)(5 \<mapsto> d\<lparr>dev_next := dev_list s0\<rparr>), dev_list := Some 5\<rparr>"
  have s1: "devs s1 5 = Some (d\<lparr>dev_next := None\<rparr>)" "dev_list s1 = Some 5" "dom (devs s1) = {5}"
    by (simp_all add: s1_def s0)
  have step1: "device_step demo_dev_ops (s0, [], []) (s1, [5], [])"
    using device_step.dev_open [OF _ _ d, of "[]"] by (simp add: s0 s1_def)
  have "find_device (devs s1) 9 (dev_list s1) = Some (Ret (Some 5))"
    using base s1 by (simp add: find_device.simps)
  from reopen [OF this s1(1)] base(2)
  obtain v s2 where r: "amdgpu_device_initialize_haiku demo_dev_ops 6 s1 9 [] = Some (Ret (OK, v, Some 5, s2, []))"
    by (auto simp: atomic_positive_iff)
  have cnt: "\<forall>p e. devs s1 p = Some e \<longrightarrow> count_ok (unat (dev_refcount e))"
    using base(2) by (auto simp: s1_def s0 count_ok_def split: if_splits)
  have "device_step demo_dev_ops (s1, [5], []) (s2, [5, 5], [])"
    using device_step.dev_open [OF _ cnt r, of "[5]"] s1(3) by simp
  with r_into_rtranclp [of "device_step demo_dev_ops", OF step1]
  show thesis unfolding s0_def by (intro that [of s2]) (rule rtranclp.rtrancl_into_rtrancl)
qed

lemma registry_facts:
  assumes "registry_ok s hs"
  shows "set hs = dom (devs s)"
    "\<forall>p d. devs s p = Some d \<longrightarrow> unat (dev_refcount d) = count_list hs p"
    "inj_on (\<lambda>p. acc_base (the (devs s p))) (dom (devs s))"
  using assms by (simp_all add: registry_ok_def)

text \<open>The accelerant at 9 opened once.\<close>

lemma demo_device_first:
  obtains s d where "(device_step demo_dev_ops)\<^sup>*\<^sup>* (no_devices 0, [], []) (s, [5], [])" "devs s 5 = Some d"
    "acc_base d = 9" "dev_refcount d = 1"
proof -
  obtain d where d: "amdgpu_device_initialize_haiku demo_dev_ops 5 (no_devices 0) 9 [] =
      Some (Ret (OK, Some (major_version d, minor_version d), Some 5,
        (no_devices 0)\<lparr>ds_acc := 1, devs := Map.empty(5 \<mapsto> d\<lparr>dev_next := None\<rparr>), dev_list := Some 5\<rparr>, []))"
    and base: "acc_base d = 9" "dev_refcount d = 1"
    by (rule demo_open [of "no_devices 0" 9 5]) (simp_all add: no_devices_def find_device.simps)
  have "device_step demo_dev_ops (no_devices 0, [], [])
      ((no_devices 0)\<lparr>ds_acc := 1, devs := Map.empty(5 \<mapsto> d\<lparr>dev_next := None\<rparr>), dev_list := Some 5\<rparr>, [5], [])"
    using device_step.dev_open [OF _ _ d, of "[]"] by (simp add: no_devices_def)
  then show thesis using base
    by (intro that [of "(no_devices 0)\<lparr>ds_acc := 1, devs := Map.empty(5 \<mapsto> d\<lparr>dev_next := None\<rparr>), dev_list := Some 5\<rparr>" "d\<lparr>dev_next := None\<rparr>"])
      simp_all
qed

section \<open>Properties\<close>

text \<open>C20. In every run of clients that open devices and close the handles they hold, whatever the
  accelerants answer and whichever allocations fail, the open devices are exactly those somebody holds
  a handle of, each counts its handles, no accelerant has two devices, and closing any handle held
  returns and frees the device exactly when it was the last one.\<close>

theorem device_runs_counted:
  assumes "(device_step ops)\<^sup>*\<^sup>* (no_devices a, [], sc) (s, hs, sc')"
  shows "set hs = dom (devs s)
    \<and> (\<forall>p d. devs s p = Some d \<longrightarrow> unat (dev_refcount d) = count_list hs p)
    \<and> inj_on (\<lambda>p. acc_base (the (devs s p))) (dom (devs s))
    \<and> (\<forall>p\<in>set hs. \<exists>s'. amdgpu_device_deinitialize ops s (Some p) = Some (Ret (OK, s'))
         \<and> (devs s' p = None \<longleftrightarrow> count_list hs p = 1))"
proof -
  have ok: "registry_ok s hs" by (rule device_run_registry [OF assms])
  have "\<exists>s'. amdgpu_device_deinitialize ops s (Some p) = Some (Ret (OK, s'))
      \<and> (devs s' p = None \<longleftrightarrow> count_list hs p = 1)" if p: "p \<in> set hs" for p
  proof -
    obtain s' where "amdgpu_device_deinitialize ops s (Some p) = Some (Ret (OK, s'))"
      "devs s' p = None \<longleftrightarrow> count_list hs p = 1"
      by (rule deinitialize_registry [OF ok p, of ops])
    then show ?thesis by (intro exI [of _ s'] conjI)
  qed
  with registry_facts [OF ok] show ?thesis by (intro conjI ballI) assumption+
qed

theorem device_runs_counted_witness:
  "\<exists>s s'. (device_step demo_dev_ops)\<^sup>*\<^sup>* (no_devices 0, [], []) (s, [5, 5], [])
     \<and> dom (devs s) = {5} \<and> map_option (\<lambda>d. unat (dev_refcount d)) (devs s 5) = Some 2
     \<and> amdgpu_device_deinitialize demo_dev_ops s (Some 5) = Some (Ret (OK, s')) \<and> devs s' 5 \<noteq> None"
proof -
  obtain s where run: "(device_step demo_dev_ops)\<^sup>*\<^sup>* (no_devices 0, [], []) (s, [5, 5], [])"
    by (rule demo_device_run)
  note facts = device_runs_counted [OF run]
  have dom: "dom (devs s) = {5}" using facts [THEN conjunct1] by simp
  then obtain d where d: "devs s 5 = Some d" by blast
  have "unat (dev_refcount d) = 2"
    using facts [THEN conjunct2, THEN conjunct1, rule_format, OF d] by simp
  moreover obtain s' where "amdgpu_device_deinitialize demo_dev_ops s (Some 5) = Some (Ret (OK, s'))"
    "devs s' 5 = None \<longleftrightarrow> count_list [5, 5 :: ptr] 5 = 1"
    using facts [THEN conjunct2, THEN conjunct2, THEN conjunct2, rule_format, of 5] by (metis list.set_intros(1))
  moreover have "count_list [5, 5 :: ptr] 5 \<noteq> 1" by simp
  ultimately show ?thesis using run dom d by (intro exI [of _ s] exI [of _ s'] conjI) simp_all
qed

text \<open>C22. \<open>amdgpu_device_deinitialize\<close> drops the last reference without the lock. A client that opens the
  same accelerant before the device is freed finds it in the list with no reference left, which the
  assertion in \<open>update_references\<close> catches.\<close>

theorem close_open_race:
  assumes "(device_step ops)\<^sup>*\<^sup>* (no_devices a, [], sc) (s, hs, sc')"
    and "count_list hs p = 1" and "devs s p = Some d" and "device_counts s (Some p) None = Ret (gone, s1)"
  shows "gone \<and> amdgpu_device_initialize_haiku ops newp s1 (acc_base d) sc'' = Some Fault"
proof -
  have ok: "registry_ok s hs" by (rule device_run_registry [OF assms(1)])
  have cnt: "unat (dev_refcount d) = 1" using ok assms(2,3) by (auto simp: registry_ok_def)
  then have one: "dev_refcount d = 1" by (simp add: unat_eq_iff)
  then have drop: "gone" "s1 = s\<lparr>devs := (devs s)(p \<mapsto> d\<lparr>dev_refcount := 0\<rparr>)\<rparr>"
    using assms(4) device_counts_drop [OF assms(3)] by (simp_all add: atomic_positive_iff)
  obtain xs where xs: "dev_seg (devs s) (dev_list s) xs None" "set xs = dom (devs s)"
    and inj: "inj_on (\<lambda>p. acc_base (the (devs s p))) (dom (devs s))"
    using ok by (auto simp: registry_ok_def)
  have seg: "dev_seg (devs s1) (dev_list s1) xs None" using xs(1) assms(3) by (simp add: drop(2))
  have base: "acc_base (the (devs s1 q)) = acc_base (the (devs s q))" for q using assms(3) by (simp add: drop(2))
  have "p \<in> set xs" using xs(2) assms(3) by auto
  moreover have "acc_base (the (devs s q)) = acc_base d \<longleftrightarrow> q = p" if "q \<in> set xs" for q
    using that inj xs(2) assms(3) by (auto simp: inj_on_def) (metis domI option.sel)
  ultimately have "find (\<lambda>q. acc_base (the (devs s1 q)) = acc_base d) xs = Some p"
    unfolding base by (induction xs) auto
  with find_device_seg [OF seg, of "acc_base d"]
  have "find_device (devs s1) (acc_base d) (dev_list s1) = Some (Ret (Some p))" by simp
  moreover have "device_counts s1 None (Some p) = Fault"
    by (simp add: drop(2) device_counts_def update_references_def cells_of_def atomic_positive_iff)
  ultimately show ?thesis
    using drop(1) by (simp add: amdgpu_device_initialize_haiku_def amdgpu_device_reference_def drop(2))
qed

theorem close_open_race_witness:
  "\<exists>s s1. (device_step demo_dev_ops)\<^sup>*\<^sup>* (no_devices 0, [], []) (s, [5], [])
     \<and> device_counts s (Some 5) None = Ret (True, s1)
     \<and> amdgpu_device_initialize_haiku demo_dev_ops 6 s1 9 [] = Some Fault"
proof -
  obtain s d where run: "(device_step demo_dev_ops)\<^sup>*\<^sup>* (no_devices 0, [], []) (s, [5], [])"
    and d: "devs s 5 = Some d" "acc_base d = 9" "dev_refcount d = 1"
    by (rule demo_device_first)
  have drop: "device_counts s (Some 5) None = Ret (True, s\<lparr>devs := (devs s)(5 \<mapsto> d\<lparr>dev_refcount := 0\<rparr>)\<rparr>)"
    using device_counts_drop [OF d(1)] d(3) by (simp add: atomic_positive_iff)
  have "count_list [5 :: ptr] 5 = 1" by simp
  note race = close_open_race [OF run this d(1) drop, of 6 "[]"]
  from run drop race [THEN conjunct2, unfolded d(2)] show ?thesis by (intro exI conjI)
qed

end
