(* ===== verification/Ioctl.thy ===== *)
theory Ioctl imports Cs GpuInfo begin

text \<open>
  The requests of the DRM interface and their arguments, \<open>headers/drm.h\<close> and
  \<open>headers/amdgpu_drm.h\<close>. The platform's \<open>ioccom.h\<close> packs a direction, a group, a number and the
  size of the argument into a request and takes them out again; here a request is these parts (the
  group is always 'd'). An argument is the structure a request's pointer leads to, or nothing for
  a null pointer; arrays behind addresses in a structure are kept with it. A call of the driver
  answers with a code and the structure it leaves behind.
\<close>

section \<open>Status codes of the platform\<close>

definition B_OK :: int where "B_OK = 0"
definition B_ERROR :: int where "B_ERROR = -1"
definition B_NO_MEMORY :: int where "B_NO_MEMORY = -2147483648"
definition E_NOENT :: int where "E_NOENT = -2147459069"

lemmas status_codes = B_OK_def B_ERROR_def B_NO_MEMORY_def E_NOENT_def

section \<open>Requests\<close>

datatype ioc_dir = IOC_VOID | IOC_OUT | IOC_IN | IOC_INOUT

record ioc =
  ioc_dir :: ioc_dir
  ioc_nr :: u64
  ioc_len :: nat

definition DRM_IOC :: "ioc_dir \<Rightarrow> u64 \<Rightarrow> nat \<Rightarrow> ioc" where
  "DRM_IOC dir nr len = \<lparr>ioc_dir = dir, ioc_nr = nr, ioc_len = len\<rparr>"

definition DRM_IO :: "u64 \<Rightarrow> ioc" where "DRM_IO nr = DRM_IOC IOC_VOID nr 0"
definition DRM_IOW :: "u64 \<Rightarrow> nat \<Rightarrow> ioc" where "DRM_IOW nr len = DRM_IOC IOC_IN nr len"
definition DRM_IOWR :: "u64 \<Rightarrow> nat \<Rightarrow> ioc" where "DRM_IOWR nr len = DRM_IOC IOC_INOUT nr len"

definition DRM_COMMAND_BASE :: u64 where "DRM_COMMAND_BASE = 0x40"
definition DRM_COMMAND_END :: u64 where "DRM_COMMAND_END = 0xA0"

text \<open>The last argument is the size of the structure, here and below.\<close>

definition DRM_IOCTL_VERSION :: ioc where "DRM_IOCTL_VERSION = DRM_IOWR 0x00 64"
definition DRM_IOCTL_GEM_CLOSE :: ioc where "DRM_IOCTL_GEM_CLOSE = DRM_IOW 0x09 8"
definition DRM_IOCTL_GET_CAP :: ioc where "DRM_IOCTL_GET_CAP = DRM_IOWR 0x0c 16"
definition DRM_IOCTL_SET_CLIENT_CAP :: ioc where "DRM_IOCTL_SET_CLIENT_CAP = DRM_IOW 0x0d 16"
definition DRM_IOCTL_AUTH_MAGIC :: ioc where "DRM_IOCTL_AUTH_MAGIC = DRM_IOW 0x11 4"
definition DRM_IOCTL_PRIME_HANDLE_TO_FD :: ioc where "DRM_IOCTL_PRIME_HANDLE_TO_FD = DRM_IOWR 0x2d 12"
definition DRM_IOCTL_PRIME_FD_TO_HANDLE :: ioc where "DRM_IOCTL_PRIME_FD_TO_HANDLE = DRM_IOWR 0x2e 12"
definition DRM_IOCTL_SYNCOBJ_CREATE :: ioc where "DRM_IOCTL_SYNCOBJ_CREATE = DRM_IOWR 0xBF 8"
definition DRM_IOCTL_SYNCOBJ_DESTROY :: ioc where "DRM_IOCTL_SYNCOBJ_DESTROY = DRM_IOWR 0xC0 8"
definition DRM_IOCTL_SYNCOBJ_HANDLE_TO_FD :: ioc where
  "DRM_IOCTL_SYNCOBJ_HANDLE_TO_FD = DRM_IOWR 0xC1 16"
definition DRM_IOCTL_SYNCOBJ_FD_TO_HANDLE :: ioc where
  "DRM_IOCTL_SYNCOBJ_FD_TO_HANDLE = DRM_IOWR 0xC2 16"
definition DRM_IOCTL_SYNCOBJ_WAIT :: ioc where "DRM_IOCTL_SYNCOBJ_WAIT = DRM_IOWR 0xC3 32"
definition DRM_IOCTL_SYNCOBJ_RESET :: ioc where "DRM_IOCTL_SYNCOBJ_RESET = DRM_IOWR 0xC4 16"
definition DRM_IOCTL_SYNCOBJ_SIGNAL :: ioc where "DRM_IOCTL_SYNCOBJ_SIGNAL = DRM_IOWR 0xC5 16"
definition DRM_IOCTL_SYNCOBJ_TIMELINE_WAIT :: ioc where
  "DRM_IOCTL_SYNCOBJ_TIMELINE_WAIT = DRM_IOWR 0xCA 40"
definition DRM_IOCTL_SYNCOBJ_QUERY :: ioc where "DRM_IOCTL_SYNCOBJ_QUERY = DRM_IOWR 0xCB 24"
definition DRM_IOCTL_SYNCOBJ_TRANSFER :: ioc where "DRM_IOCTL_SYNCOBJ_TRANSFER = DRM_IOWR 0xCC 32"
definition DRM_IOCTL_SYNCOBJ_TIMELINE_SIGNAL :: ioc where
  "DRM_IOCTL_SYNCOBJ_TIMELINE_SIGNAL = DRM_IOWR 0xCD 24"
definition DRM_IOCTL_SYNCOBJ_ACCUMULATE :: ioc where "DRM_IOCTL_SYNCOBJ_ACCUMULATE = DRM_IOWR 0xCF 16"

lemmas drm_requests = DRM_IOCTL_VERSION_def DRM_IOCTL_GEM_CLOSE_def DRM_IOCTL_GET_CAP_def
  DRM_IOCTL_SET_CLIENT_CAP_def DRM_IOCTL_AUTH_MAGIC_def DRM_IOCTL_PRIME_HANDLE_TO_FD_def
  DRM_IOCTL_PRIME_FD_TO_HANDLE_def DRM_IOCTL_SYNCOBJ_CREATE_def DRM_IOCTL_SYNCOBJ_DESTROY_def
  DRM_IOCTL_SYNCOBJ_HANDLE_TO_FD_def DRM_IOCTL_SYNCOBJ_FD_TO_HANDLE_def DRM_IOCTL_SYNCOBJ_WAIT_def
  DRM_IOCTL_SYNCOBJ_RESET_def DRM_IOCTL_SYNCOBJ_SIGNAL_def DRM_IOCTL_SYNCOBJ_TIMELINE_WAIT_def
  DRM_IOCTL_SYNCOBJ_QUERY_def DRM_IOCTL_SYNCOBJ_TRANSFER_def DRM_IOCTL_SYNCOBJ_TIMELINE_SIGNAL_def
  DRM_IOCTL_SYNCOBJ_ACCUMULATE_def DRM_IOWR_def DRM_IOW_def DRM_IO_def DRM_IOC_def

definition DRM_AMDGPU_GEM_CREATE :: u64 where "DRM_AMDGPU_GEM_CREATE = 0x00"
definition DRM_AMDGPU_GEM_MMAP :: u64 where "DRM_AMDGPU_GEM_MMAP = 0x01"
definition DRM_AMDGPU_CTX :: u64 where "DRM_AMDGPU_CTX = 0x02"
definition DRM_AMDGPU_CS :: u64 where "DRM_AMDGPU_CS = 0x04"
definition DRM_AMDGPU_INFO :: u64 where "DRM_AMDGPU_INFO = 0x05"
definition DRM_AMDGPU_GEM_VA :: u64 where "DRM_AMDGPU_GEM_VA = 0x08"
definition DRM_AMDGPU_WAIT_CS :: u64 where "DRM_AMDGPU_WAIT_CS = 0x09"
definition DRM_AMDGPU_GEM_USERPTR :: u64 where "DRM_AMDGPU_GEM_USERPTR = 0x11"

lemmas amdgpu_requests = DRM_AMDGPU_GEM_CREATE_def DRM_AMDGPU_GEM_MMAP_def DRM_AMDGPU_CTX_def
  DRM_AMDGPU_CS_def DRM_AMDGPU_INFO_def DRM_AMDGPU_GEM_VA_def DRM_AMDGPU_WAIT_CS_def
  DRM_AMDGPU_GEM_USERPTR_def DRM_COMMAND_BASE_def DRM_COMMAND_END_def

section \<open>Arguments of drm.h\<close>

text \<open>A string buffer is its characters, as many as it has room for; \<open>None\<close> is a null pointer.\<close>

record drm_version =
  v_major :: int
  v_minor :: int
  v_patchlevel :: int
  v_name_len :: u64
  v_name :: "string option"
  v_date_len :: u64
  v_date :: "string option"
  v_desc_len :: u64
  v_desc :: "string option"

record drm_auth =
  auth_magic :: u32

record drm_gem_close =
  gem_handle :: u32

record drm_get_cap =
  cap_capability :: u64
  cap_value :: u64

record drm_set_client_cap =
  client_capability :: u64
  client_value :: u64

record drm_prime_handle =
  prime_handle :: u32
  prime_flags :: u32
  prime_fd :: int

record drm_syncobj_create =
  so_create_handle :: u32
  so_create_flags :: u32

record drm_syncobj_destroy =
  so_destroy_handle :: u32

record drm_syncobj_handle =
  so_handle :: u32
  so_flags :: u32
  so_fd :: int

record drm_syncobj_transfer =
  src_handle :: u32
  dst_handle :: u32
  src_point :: u64
  dst_point :: u64
  transfer_flags :: u32

record drm_syncobj_accumulate =
  acc_syncobj1 :: u32
  acc_syncobj2 :: u32
  acc_point :: u64

record drm_syncobj_wait =
  wait_handles :: "u32 list"
  wait_timeout_nsec :: int
  wait_count_handles :: u32
  wait_flags :: u32
  wait_first_signaled :: u32

record drm_syncobj_timeline_wait =
  tl_handles :: "u32 list"
  tl_points :: "u64 list"
  tl_timeout_nsec :: int
  tl_count_handles :: u32
  tl_flags :: u32
  tl_first_signaled :: u32

record drm_syncobj_array =
  sa_handles :: "u32 list"
  sa_count_handles :: u32

record drm_syncobj_timeline_array =
  ta_handles :: "u32 list"
  ta_points :: "u64 list"
  ta_count_handles :: u32
  ta_flags :: u32

section \<open>Arguments of amdgpu_drm.h\<close>

text \<open>A union is a datatype of what was last stored in it.\<close>

datatype drm_amdgpu_gem_create =
    gem_create_in (gc_bo_size: u64) (gc_alignment: u64) (gc_domains: u64) (gc_domain_flags: u64)
  | gem_create_out (gc_handle: u32)

datatype drm_amdgpu_gem_mmap = gem_mmap_in (gm_handle: u32) | gem_mmap_out (gm_addr_ptr: u64)

datatype drm_amdgpu_ctx = ctx_in drm_amdgpu_ctx_in | ctx_out drm_amdgpu_ctx_out

record drm_amdgpu_wait_cs_in =
  wcs_handle :: u64
  wcs_timeout :: u64
  wcs_ip_type :: u32
  wcs_ip_instance :: u32
  wcs_ring :: u32
  wcs_ctx_id :: u32

text \<open>The status lies over the handle; the rest of the request stays behind it.\<close>

datatype drm_amdgpu_wait_cs =
    wait_cs_in drm_amdgpu_wait_cs_in
  | wait_cs_out u64 drm_amdgpu_wait_cs_in

fun wait_cs_request :: "drm_amdgpu_wait_cs \<Rightarrow> drm_amdgpu_wait_cs_in" where
  "wait_cs_request (wait_cs_in i) = i"
| "wait_cs_request (wait_cs_out status i) = i"

record drm_amdgpu_gem_va =
  va_handle :: u32
  va_operation :: u32
  va_op_flags :: u32
  va_address :: u64
  va_offset_in_bo :: u64
  va_map_size :: u64

record drm_amdgpu_gem_userptr =
  up_addr :: u64
  up_size :: u64
  up_flags :: u32
  up_handle :: u32

record drm_amdgpu_cs_chunk_syncobj =
  cso_handle :: u32
  cso_flags :: u32
  cso_point :: u64

text \<open>The memory at \<open>bo_info_ptr\<close> is kept as bytes.\<close>

record drm_amdgpu_bo_list_in =
  bl_operation :: u32
  bl_list_handle :: u32
  bl_bo_number :: u32
  bl_bo_info_size :: u32
  bl_bo_info_ptr :: u64
  bl_bo_info :: "u8 list"

text \<open>What the address in a chunk points to, for all kinds of chunks.\<close>

datatype cs_chunk_memory =
    ib_memory drm_amdgpu_cs_chunk_ib
  | fence_memory drm_amdgpu_cs_chunk_fence
  | dep_memory "drm_amdgpu_cs_chunk_dep list"
  | bo_list_memory drm_amdgpu_bo_list_in
  | syncobj_memory "drm_amdgpu_cs_chunk_syncobj list"
  | other_memory

record ioctl_cs_chunk =
  ch_id :: u32
  ch_length_dw :: u32
  ch_data :: u64
  ch_memory :: cs_chunk_memory

record drm_amdgpu_cs_in =
  cs_ctx_id :: u32
  cs_bo_list_handle :: u32
  cs_num_chunks :: u32
  cs_chunks :: "ioctl_cs_chunk list"

datatype drm_amdgpu_cs = cs_in drm_amdgpu_cs_in | cs_out u64

section \<open>Calls\<close>

datatype drm_arg =
    no_arg
  | arg_version drm_version
  | arg_auth drm_auth
  | arg_gem_close drm_gem_close
  | arg_get_cap drm_get_cap
  | arg_set_client_cap drm_set_client_cap
  | arg_prime_handle drm_prime_handle
  | arg_syncobj_create drm_syncobj_create
  | arg_syncobj_destroy drm_syncobj_destroy
  | arg_syncobj_handle drm_syncobj_handle
  | arg_syncobj_transfer drm_syncobj_transfer
  | arg_syncobj_accumulate drm_syncobj_accumulate
  | arg_syncobj_wait drm_syncobj_wait
  | arg_syncobj_timeline_wait drm_syncobj_timeline_wait
  | arg_syncobj_array drm_syncobj_array
  | arg_syncobj_timeline_array drm_syncobj_timeline_array
  | arg_gem_create drm_amdgpu_gem_create
  | arg_gem_mmap drm_amdgpu_gem_mmap
  | arg_ctx drm_amdgpu_ctx
  | arg_cs drm_amdgpu_cs
  | arg_info drm_amdgpu_info "u8 list"
  | arg_gem_va drm_amdgpu_gem_va
  | arg_wait_cs drm_amdgpu_wait_cs
  | arg_gem_userptr drm_amdgpu_gem_userptr

text \<open>The union of a request, read as words through any of its members.\<close>

definition info_word :: "drm_amdgpu_info \<Rightarrow> nat \<Rightarrow> u32" where
  "info_word rq k =
     (case info_args rq of
        no_query \<Rightarrow> [0, 0, 0, 0]
      | mode_crtc crtc \<Rightarrow> [crtc, 0, 0, 0]
      | query_hw_ip t ip_instance \<Rightarrow> [t, ip_instance, 0, 0]
      | read_mmr_reg off num inst flags \<Rightarrow> [off, num, inst, flags]
      | query_fw t ip_instance index \<Rightarrow> [t, ip_instance, index, 0]
      | sensor_info t \<Rightarrow> [t, 0, 0, 0]) ! k"

record 's drm_os =
  Ioctl :: "'s \<Rightarrow> int \<Rightarrow> ioc \<Rightarrow> drm_arg \<Rightarrow> (int \<times> drm_arg \<times> 's) outcome"
  Errno :: "'s \<Rightarrow> int"

text \<open>The structure an argument is.\<close>

definition arg_kind :: "drm_arg \<Rightarrow> nat" where
  "arg_kind a =
     (case a of
        no_arg \<Rightarrow> 0 | arg_version _ \<Rightarrow> 1 | arg_auth _ \<Rightarrow> 2 | arg_gem_close _ \<Rightarrow> 3 | arg_get_cap _ \<Rightarrow> 4
      | arg_set_client_cap _ \<Rightarrow> 5 | arg_prime_handle _ \<Rightarrow> 6 | arg_syncobj_create _ \<Rightarrow> 7
      | arg_syncobj_destroy _ \<Rightarrow> 8 | arg_syncobj_handle _ \<Rightarrow> 9 | arg_syncobj_transfer _ \<Rightarrow> 10
      | arg_syncobj_accumulate _ \<Rightarrow> 11 | arg_syncobj_wait _ \<Rightarrow> 12 | arg_syncobj_timeline_wait _ \<Rightarrow> 13
      | arg_syncobj_array _ \<Rightarrow> 14 | arg_syncobj_timeline_array _ \<Rightarrow> 15 | arg_gem_create _ \<Rightarrow> 16
      | arg_gem_mmap _ \<Rightarrow> 17 | arg_ctx _ \<Rightarrow> 18 | arg_cs _ \<Rightarrow> 19 | arg_info _ _ \<Rightarrow> 20 | arg_gem_va _ \<Rightarrow> 21
      | arg_wait_cs _ \<Rightarrow> 22 | arg_gem_userptr _ \<Rightarrow> 23)"

lemma arg_kind_simps [simp]:
  "arg_kind no_arg = 0" "arg_kind (arg_version x1) = 1" "arg_kind (arg_auth x2) = 2"
  "arg_kind (arg_gem_close x3) = 3" "arg_kind (arg_get_cap x4) = 4" "arg_kind (arg_set_client_cap x5) = 5"
  "arg_kind (arg_prime_handle x6) = 6" "arg_kind (arg_syncobj_create x7) = 7"
  "arg_kind (arg_syncobj_destroy x8) = 8" "arg_kind (arg_syncobj_handle x9) = 9"
  "arg_kind (arg_syncobj_transfer x10) = 10" "arg_kind (arg_syncobj_accumulate x11) = 11"
  "arg_kind (arg_syncobj_wait x12) = 12" "arg_kind (arg_syncobj_timeline_wait x13) = 13"
  "arg_kind (arg_syncobj_array x14) = 14" "arg_kind (arg_syncobj_timeline_array x15) = 15"
  "arg_kind (arg_gem_create x16) = 16" "arg_kind (arg_gem_mmap x17) = 17" "arg_kind (arg_ctx x18) = 18"
  "arg_kind (arg_cs x19) = 19" "arg_kind (arg_info x20 m) = 20" "arg_kind (arg_gem_va x21) = 21"
  "arg_kind (arg_wait_cs x22) = 22" "arg_kind (arg_gem_userptr x23) = 23"
  by (simp_all add: arg_kind_def)

end
