(* ===== verification/Drm.thy ===== *)
theory Drm imports Ioctl begin

text \<open>
  The client functions of \<open>libdrm_common.c\<close>: each fills a structure, calls the driver and hands out
  what it stored. The driver (\<open>drmIoctl\<close> and \<open>errno\<close>) is a parameter over a state \<open>'s\<close>; the library's
  own one is the stub. An output is \<open>None\<close> when the function leaves it alone. An answer of another
  shape than the request's argument is a fault, and so is following a null pointer.
\<close>

section \<open>Memory and errors\<close>

definition c_int :: "u64 \<Rightarrow> int" where
  "c_int w = sint (ucast w :: u32)"

text \<open>\<open>drmMalloc(int)\<close>: a negative size becomes one of more than half the address space for \<open>calloc\<close>.\<close>

definition drmMalloc :: "int \<Rightarrow> alloc_script \<Rightarrow> string option \<times> alloc_script" where
  "drmMalloc sz sc =
     (case calloc_next sc of
        (ok, sc') \<Rightarrow> (if ok \<and> 0 \<le> sz then Some (replicate (nat sz) (CHR 0x00)) else None, sc'))"

datatype drm_err = DRM_ERR_NO_DEVICE | DRM_ERR_NO_ACCESS | DRM_ERR_NOT_ROOT | DRM_ERR_INVALID | drm_err_other int

definition drm_err_of :: "int \<Rightarrow> drm_err" where
  "drm_err_of err =
     (if err = -1001 then DRM_ERR_NO_DEVICE else if err = -1002 then DRM_ERR_NO_ACCESS
      else if err = -1003 then DRM_ERR_NOT_ROOT else if err = -1004 then DRM_ERR_INVALID
      else drm_err_other err)"

text \<open>The message, without the text \<open>strerror\<close> gives, and the result.\<close>

definition drmError :: "int \<Rightarrow> string \<Rightarrow> (string \<times> drm_err) \<times> int" where
  "drmError err label = ((label, drm_err_of err), 1)"

section \<open>Commands\<close>

definition drm_command ::
    "'s drm_os \<Rightarrow> 's \<Rightarrow> int \<Rightarrow> ioc \<Rightarrow> drm_arg \<Rightarrow> (int \<times> drm_arg \<times> 's) outcome" where
  "drm_command os s fd request data =
     bind_outcome (Ioctl os s fd request data) (\<lambda>(ret, a, s'). Ret (if ret \<noteq> 0 then Errno os s' else 0, a, s'))"

definition drmCommandNone :: "'s drm_os \<Rightarrow> 's \<Rightarrow> int \<Rightarrow> u64 \<Rightarrow> (int \<times> drm_arg \<times> 's) outcome" where
  "drmCommandNone os s fd index = drm_command os s fd (DRM_IO (DRM_COMMAND_BASE + index)) no_arg"

definition drmCommandRead ::
    "'s drm_os \<Rightarrow> 's \<Rightarrow> int \<Rightarrow> u64 \<Rightarrow> drm_arg \<Rightarrow> nat \<Rightarrow> (int \<times> drm_arg \<times> 's) outcome" where
  "drmCommandRead os s fd index data len =
     drm_command os s fd (DRM_IOC IOC_OUT (DRM_COMMAND_BASE + index) len) data"

definition drmCommandWrite ::
    "'s drm_os \<Rightarrow> 's \<Rightarrow> int \<Rightarrow> u64 \<Rightarrow> drm_arg \<Rightarrow> nat \<Rightarrow> (int \<times> drm_arg \<times> 's) outcome" where
  "drmCommandWrite os s fd index data len =
     drm_command os s fd (DRM_IOC IOC_IN (DRM_COMMAND_BASE + index) len) data"

definition drmCommandWriteRead ::
    "'s drm_os \<Rightarrow> 's \<Rightarrow> int \<Rightarrow> u64 \<Rightarrow> drm_arg \<Rightarrow> nat \<Rightarrow> (int \<times> drm_arg \<times> 's) outcome" where
  "drmCommandWriteRead os s fd index data len =
     drm_command os s fd (DRM_IOC IOC_INOUT (DRM_COMMAND_BASE + index) len) data"

section \<open>Version\<close>

record drmVersion =
  version_major :: int
  version_minor :: int
  version_patchlevel :: int
  name_len :: int
  name :: "string option"
  date_len :: int
  date :: "string option"
  desc_len :: int
  desc :: "string option"

text \<open>The memory \<open>drmMalloc(sizeof(*version))\<close> gives.\<close>

definition zero_version :: drm_version where
  "zero_version = \<lparr>v_major = 0, v_minor = 0, v_patchlevel = 0, v_name_len = 0, v_name = None,
     v_date_len = 0, v_date = None, v_desc_len = 0, v_desc = None\<rparr>"

text \<open>\<open>if (len) buf = drmMalloc(len + 1);\<close> and \<open>if (len) buf[len] = '\0';\<close>\<close>

definition version_room :: "u64 \<Rightarrow> string option \<Rightarrow> alloc_script \<Rightarrow> string option \<times> alloc_script" where
  "version_room len buf sc = (if len \<noteq> 0 then drmMalloc (c_int (len + 1)) sc else (buf, sc))"

definition terminate_at :: "u64 \<Rightarrow> string option \<Rightarrow> string option outcome" where
  "terminate_at len buf =
     (if len = 0 then Ret buf
      else
        (case buf of
           None \<Rightarrow> Fault
         | Some b \<Rightarrow> if unat len < length b then Ret (Some (b[unat len := CHR 0x00])) else Fault))"

definition version_rooms :: "drm_version \<Rightarrow> alloc_script \<Rightarrow> drm_version \<times> alloc_script" where
  "version_rooms v sc =
     (case version_room (v_name_len v) (v_name v) sc of (n, sc) \<Rightarrow>
      case version_room (v_date_len v) (v_date v) sc of (da, sc) \<Rightarrow>
      case version_room (v_desc_len v) (v_desc v) sc of (de, sc) \<Rightarrow>
        (v\<lparr>v_name := n, v_date := da, v_desc := de\<rparr>, sc))"

definition terminate_version :: "drm_version \<Rightarrow> drm_version outcome" where
  "terminate_version v =
     bind_outcome (terminate_at (v_name_len v) (v_name v)) (\<lambda>n.
     bind_outcome (terminate_at (v_date_len v) (v_date v)) (\<lambda>da.
     bind_outcome (terminate_at (v_desc_len v) (v_desc v)) (\<lambda>de.
     Ret (v\<lparr>v_name := n, v_date := da, v_desc := de\<rparr>))))"

text \<open>\<open>strdup\<close> of a buffer: it has to be there and to hold a null character.\<close>

definition strdup :: "string option \<Rightarrow> alloc_script \<Rightarrow> (string option \<times> alloc_script) outcome" where
  "strdup s sc =
     (case s of
        None \<Rightarrow> Fault
      | Some b \<Rightarrow>
          if CHR 0x00 \<notin> set b then Fault
          else (case calloc_next sc of (ok, sc') \<Rightarrow> Ret (if ok then Some (c_string b) else None, sc')))"

definition drmCopyVersion :: "drm_version \<Rightarrow> alloc_script \<Rightarrow> (drmVersion \<times> alloc_script) outcome" where
  "drmCopyVersion s sc =
     bind_outcome (strdup (v_name s) sc) (\<lambda>(n, sc).
     bind_outcome (strdup (v_date s) sc) (\<lambda>(da, sc).
     bind_outcome (strdup (v_desc s) sc) (\<lambda>(de, sc).
     Ret (\<lparr>version_major = v_major s, version_minor = v_minor s, version_patchlevel = v_patchlevel s,
           name_len = c_int (v_name_len s), name = n, date_len = c_int (v_date_len s), date = da,
           desc_len = c_int (v_desc_len s), desc = de\<rparr>, sc))))"

text \<open>What is freed, in order; freeing a null pointer does nothing.\<close>

datatype version_block = text_block string | version_structure

definition drmFree :: "version_block option \<Rightarrow> version_block list" where
  "drmFree pt = (case pt of None \<Rightarrow> [] | Some b \<Rightarrow> [b])"

definition drmFreeKernelVersion :: "drm_version option \<Rightarrow> version_block list" where
  "drmFreeKernelVersion v =
     (case v of
        None \<Rightarrow> []
      | Some v \<Rightarrow>
          drmFree (map_option text_block (v_name v)) @ drmFree (map_option text_block (v_date v)) @
          drmFree (map_option text_block (v_desc v)) @ drmFree (Some version_structure))"

definition drmFreeVersion :: "drmVersion option \<Rightarrow> version_block list" where
  "drmFreeVersion v =
     (case v of
        None \<Rightarrow> []
      | Some v \<Rightarrow>
          drmFree (map_option text_block (name v)) @ drmFree (map_option text_block (date v)) @
          drmFree (map_option text_block (desc v)) @ drmFree (Some version_structure))"

text \<open>After the second answer. The result of the allocation of the copy is not checked. The results
  here are the copy, what was freed, and the new states.\<close>

definition version_result ::
    "drm_version \<Rightarrow> 's \<Rightarrow> alloc_script
     \<Rightarrow> (drmVersion option \<times> version_block list \<times> 's \<times> alloc_script) outcome" where
  "version_result v s sc =
     bind_outcome (terminate_version v) (\<lambda>v.
     case calloc_next sc of
       (False, sc) \<Rightarrow> Fault
     | (True, sc) \<Rightarrow>
         bind_outcome (drmCopyVersion v sc) (\<lambda>(d, sc). Ret (Some d, drmFreeKernelVersion (Some v), s, sc)))"

text \<open>What an error frees: the structure the call was given, if there was one. The message about the
  second call goes to \<open>stderr\<close> and is left out.\<close>

definition version_failed ::
    "drm_arg \<Rightarrow> 's \<Rightarrow> alloc_script
     \<Rightarrow> (drmVersion option \<times> version_block list \<times> 's \<times> alloc_script) outcome" where
  "version_failed a s sc =
     (case a of
        arg_version v \<Rightarrow> Ret (None, drmFreeKernelVersion (Some v), s, sc)
      | no_arg \<Rightarrow> Ret (None, drmFreeKernelVersion None, s, sc)
      | _ \<Rightarrow> Fault)"

definition drmGetVersion ::
    "'s drm_os \<Rightarrow> 's \<Rightarrow> int \<Rightarrow> alloc_script
     \<Rightarrow> (drmVersion option \<times> version_block list \<times> 's \<times> alloc_script) outcome" where
  "drmGetVersion os s fd sc =
     (case calloc_next sc of (ok, sc) \<Rightarrow>
      bind_outcome (Ioctl os s fd DRM_IOCTL_VERSION (if ok then arg_version zero_version else no_arg))
        (\<lambda>(ret, a, s).
        if ret \<noteq> 0 then version_failed a s sc
        else
          (case a of
             arg_version v \<Rightarrow>
               (case version_rooms v sc of (v, sc) \<Rightarrow>
                bind_outcome (Ioctl os s fd DRM_IOCTL_VERSION (arg_version v)) (\<lambda>(ret, a, s).
                  if ret \<noteq> 0 then version_failed a s sc
                  else (case a of arg_version v \<Rightarrow> version_result v s sc | _ \<Rightarrow> Fault)))
           | _ \<Rightarrow> Fault)))"

section \<open>Calls with one answer\<close>

text \<open>\<open>ret = drmIoctl(...); if (ret) return ret; *out = args.field; return 0;\<close>\<close>

definition drm_call ::
    "'s drm_os \<Rightarrow> 's \<Rightarrow> int \<Rightarrow> ioc \<Rightarrow> drm_arg \<Rightarrow> (drm_arg \<Rightarrow> 'v outcome)
     \<Rightarrow> (int \<times> 'v option \<times> 's) outcome" where
  "drm_call os s fd request arg out =
     bind_outcome (Ioctl os s fd request arg) (\<lambda>(ret, a, s').
       if ret \<noteq> 0 then Ret (ret, None, s') else bind_outcome (out a) (\<lambda>v. Ret (0, Some v, s')))"

text \<open>\<open>return drmIoctl(...);\<close>\<close>

definition drm_send :: "'s drm_os \<Rightarrow> 's \<Rightarrow> int \<Rightarrow> ioc \<Rightarrow> drm_arg \<Rightarrow> (int \<times> 's) outcome" where
  "drm_send os s fd request arg =
     bind_outcome (Ioctl os s fd request arg) (\<lambda>(ret, a, s'). Ret (ret, s'))"

definition drmGetCap :: "'s drm_os \<Rightarrow> 's \<Rightarrow> int \<Rightarrow> u64 \<Rightarrow> (int \<times> u64 option \<times> 's) outcome" where
  "drmGetCap os s fd capability =
     drm_call os s fd DRM_IOCTL_GET_CAP (arg_get_cap \<lparr>cap_capability = capability, cap_value = 0\<rparr>)
       (\<lambda>a. case a of arg_get_cap c \<Rightarrow> Ret (cap_value c) | _ \<Rightarrow> Fault)"

definition drmSetClientCap :: "'s drm_os \<Rightarrow> 's \<Rightarrow> int \<Rightarrow> u64 \<Rightarrow> u64 \<Rightarrow> (int \<times> 's) outcome" where
  "drmSetClientCap os s fd capability value =
     drm_send os s fd DRM_IOCTL_SET_CLIENT_CAP
       (arg_set_client_cap \<lparr>client_capability = capability, client_value = value\<rparr>)"

definition drmSyncobjCreate :: "'s drm_os \<Rightarrow> 's \<Rightarrow> int \<Rightarrow> u32 \<Rightarrow> (int \<times> u32 option \<times> 's) outcome" where
  "drmSyncobjCreate os s fd flags =
     drm_call os s fd DRM_IOCTL_SYNCOBJ_CREATE
       (arg_syncobj_create \<lparr>so_create_handle = 0, so_create_flags = flags\<rparr>)
       (\<lambda>a. case a of arg_syncobj_create c \<Rightarrow> Ret (so_create_handle c) | _ \<Rightarrow> Fault)"

definition drmSyncobjDestroy :: "'s drm_os \<Rightarrow> 's \<Rightarrow> int \<Rightarrow> u32 \<Rightarrow> (int \<times> 's) outcome" where
  "drmSyncobjDestroy os s fd handle =
     drm_send os s fd DRM_IOCTL_SYNCOBJ_DESTROY (arg_syncobj_destroy \<lparr>so_destroy_handle = handle\<rparr>)"

text \<open>The two fields of \<open>struct drm_syncobj_handle\<close> that are handed out.\<close>

definition out_fd :: "drm_arg \<Rightarrow> int outcome" where
  "out_fd a = (case a of arg_syncobj_handle h \<Rightarrow> Ret (so_fd h) | _ \<Rightarrow> Fault)"

definition out_handle :: "drm_arg \<Rightarrow> u32 outcome" where
  "out_handle a = (case a of arg_syncobj_handle h \<Rightarrow> Ret (so_handle h) | _ \<Rightarrow> Fault)"

definition drmSyncobjHandleToFD :: "'s drm_os \<Rightarrow> 's \<Rightarrow> int \<Rightarrow> u32 \<Rightarrow> (int \<times> int option \<times> 's) outcome" where
  "drmSyncobjHandleToFD os s fd handle =
     drm_call os s fd DRM_IOCTL_SYNCOBJ_HANDLE_TO_FD
       (arg_syncobj_handle \<lparr>so_handle = handle, so_flags = 0, so_fd = -1\<rparr>) out_fd"

definition drmSyncobjFDToHandle :: "'s drm_os \<Rightarrow> 's \<Rightarrow> int \<Rightarrow> int \<Rightarrow> (int \<times> u32 option \<times> 's) outcome" where
  "drmSyncobjFDToHandle os s fd obj_fd =
     drm_call os s fd DRM_IOCTL_SYNCOBJ_FD_TO_HANDLE
       (arg_syncobj_handle \<lparr>so_handle = 0, so_flags = 0, so_fd = obj_fd\<rparr>) out_handle"

definition DRM_SYNCOBJ_FD_TO_HANDLE_FLAGS_IMPORT_SYNC_FILE :: u32 where
  "DRM_SYNCOBJ_FD_TO_HANDLE_FLAGS_IMPORT_SYNC_FILE = 1"
definition DRM_SYNCOBJ_HANDLE_TO_FD_FLAGS_EXPORT_SYNC_FILE :: u32 where
  "DRM_SYNCOBJ_HANDLE_TO_FD_FLAGS_EXPORT_SYNC_FILE = 1"

definition drmSyncobjImportSyncFile :: "'s drm_os \<Rightarrow> 's \<Rightarrow> int \<Rightarrow> u32 \<Rightarrow> int \<Rightarrow> (int \<times> 's) outcome" where
  "drmSyncobjImportSyncFile os s fd handle sync_file_fd =
     drm_send os s fd DRM_IOCTL_SYNCOBJ_FD_TO_HANDLE
       (arg_syncobj_handle \<lparr>so_handle = handle,
          so_flags = DRM_SYNCOBJ_FD_TO_HANDLE_FLAGS_IMPORT_SYNC_FILE, so_fd = sync_file_fd\<rparr>)"

definition drmSyncobjExportSyncFile :: "'s drm_os \<Rightarrow> 's \<Rightarrow> int \<Rightarrow> u32 \<Rightarrow> (int \<times> int option \<times> 's) outcome" where
  "drmSyncobjExportSyncFile os s fd handle =
     drm_call os s fd DRM_IOCTL_SYNCOBJ_HANDLE_TO_FD
       (arg_syncobj_handle \<lparr>so_handle = handle,
          so_flags = DRM_SYNCOBJ_HANDLE_TO_FD_FLAGS_EXPORT_SYNC_FILE, so_fd = -1\<rparr>) out_fd"

text \<open>
  The two waits return \<open>errno\<close> when the call gave a negative value, and hand out the first
  signalled index, where the caller asks for it, after any other.
\<close>

definition wait_answer ::
    "'s drm_os \<Rightarrow> bool \<Rightarrow> (drm_arg \<Rightarrow> u32 outcome) \<Rightarrow> int \<times> drm_arg \<times> 's
     \<Rightarrow> (int \<times> u32 option \<times> 's) outcome" where
  "wait_answer os wants first ans =
     (case ans of
        (ret, a, s') \<Rightarrow>
          if ret < 0 then Ret (Errno os s', None, s')
          else if wants then bind_outcome (first a) (\<lambda>v. Ret (ret, Some v, s'))
          else Ret (ret, None, s'))"

definition drmSyncobjWait ::
    "'s drm_os \<Rightarrow> 's \<Rightarrow> int \<Rightarrow> u32 list \<Rightarrow> u32 \<Rightarrow> int \<Rightarrow> u32 \<Rightarrow> bool \<Rightarrow> (int \<times> u32 option \<times> 's) outcome" where
  "drmSyncobjWait os s fd handles num_handles timeout_nsec flags wants =
     bind_outcome
       (Ioctl os s fd DRM_IOCTL_SYNCOBJ_WAIT
          (arg_syncobj_wait \<lparr>wait_handles = handles, wait_timeout_nsec = timeout_nsec,
             wait_count_handles = num_handles, wait_flags = flags, wait_first_signaled = 0\<rparr>))
       (wait_answer os wants (\<lambda>a. case a of arg_syncobj_wait w \<Rightarrow> Ret (wait_first_signaled w) | _ \<Rightarrow> Fault))"

definition drmSyncobjTimelineWait ::
    "'s drm_os \<Rightarrow> 's \<Rightarrow> int \<Rightarrow> u32 list \<Rightarrow> u64 list \<Rightarrow> u32 \<Rightarrow> int \<Rightarrow> u32 \<Rightarrow> bool
     \<Rightarrow> (int \<times> u32 option \<times> 's) outcome" where
  "drmSyncobjTimelineWait os s fd handles points num_handles timeout_nsec flags wants =
     bind_outcome
       (Ioctl os s fd DRM_IOCTL_SYNCOBJ_TIMELINE_WAIT
          (arg_syncobj_timeline_wait \<lparr>tl_handles = handles, tl_points = points,
             tl_timeout_nsec = timeout_nsec, tl_count_handles = num_handles, tl_flags = flags,
             tl_first_signaled = 0\<rparr>))
       (wait_answer os wants
          (\<lambda>a. case a of arg_syncobj_timeline_wait w \<Rightarrow> Ret (tl_first_signaled w) | _ \<Rightarrow> Fault))"

definition drmSyncobjReset :: "'s drm_os \<Rightarrow> 's \<Rightarrow> int \<Rightarrow> u32 list \<Rightarrow> u32 \<Rightarrow> (int \<times> 's) outcome" where
  "drmSyncobjReset os s fd handles handle_count =
     drm_send os s fd DRM_IOCTL_SYNCOBJ_RESET
       (arg_syncobj_array \<lparr>sa_handles = handles, sa_count_handles = handle_count\<rparr>)"

definition drmSyncobjSignal :: "'s drm_os \<Rightarrow> 's \<Rightarrow> int \<Rightarrow> u32 list \<Rightarrow> u32 \<Rightarrow> (int \<times> 's) outcome" where
  "drmSyncobjSignal os s fd handles handle_count =
     drm_send os s fd DRM_IOCTL_SYNCOBJ_SIGNAL
       (arg_syncobj_array \<lparr>sa_handles = handles, sa_count_handles = handle_count\<rparr>)"

definition drmSyncobjTimelineSignal ::
    "'s drm_os \<Rightarrow> 's \<Rightarrow> int \<Rightarrow> u32 list \<Rightarrow> u64 list \<Rightarrow> u32 \<Rightarrow> (int \<times> 's) outcome" where
  "drmSyncobjTimelineSignal os s fd handles points handle_count =
     drm_send os s fd DRM_IOCTL_SYNCOBJ_TIMELINE_SIGNAL
       (arg_syncobj_timeline_array \<lparr>ta_handles = handles, ta_points = points,
          ta_count_handles = handle_count, ta_flags = 0\<rparr>)"

text \<open>The driver stores the points a query asks for in the caller's array, whatever the code.\<close>

definition query_points :: "int \<times> drm_arg \<times> 's \<Rightarrow> (int \<times> u64 list \<times> 's) outcome" where
  "query_points ans =
     (case ans of
        (ret, arg_syncobj_timeline_array t, s') \<Rightarrow> Ret (ret, ta_points t, s')
      | _ \<Rightarrow> Fault)"

definition drmSyncobjQuery ::
    "'s drm_os \<Rightarrow> 's \<Rightarrow> int \<Rightarrow> u32 list \<Rightarrow> u64 list \<Rightarrow> u32 \<Rightarrow> (int \<times> u64 list \<times> 's) outcome" where
  "drmSyncobjQuery os s fd handles points handle_count =
     bind_outcome
       (Ioctl os s fd DRM_IOCTL_SYNCOBJ_QUERY
          (arg_syncobj_timeline_array \<lparr>ta_handles = handles, ta_points = points,
             ta_count_handles = handle_count, ta_flags = 0\<rparr>)) query_points"

definition drmSyncobjQuery2 ::
    "'s drm_os \<Rightarrow> 's \<Rightarrow> int \<Rightarrow> u32 list \<Rightarrow> u64 list \<Rightarrow> u32 \<Rightarrow> u32 \<Rightarrow> (int \<times> u64 list \<times> 's) outcome" where
  "drmSyncobjQuery2 os s fd handles points handle_count flags =
     bind_outcome
       (Ioctl os s fd DRM_IOCTL_SYNCOBJ_QUERY
          (arg_syncobj_timeline_array \<lparr>ta_handles = handles, ta_points = points,
             ta_count_handles = handle_count, ta_flags = flags\<rparr>)) query_points"

definition drmSyncobjTransfer ::
    "'s drm_os \<Rightarrow> 's \<Rightarrow> int \<Rightarrow> u32 \<Rightarrow> u64 \<Rightarrow> u32 \<Rightarrow> u64 \<Rightarrow> u32 \<Rightarrow> (int \<times> 's) outcome" where
  "drmSyncobjTransfer os s fd dsth dstp srch srcp flags =
     drm_send os s fd DRM_IOCTL_SYNCOBJ_TRANSFER
       (arg_syncobj_transfer \<lparr>src_handle = srch, dst_handle = dsth, src_point = srcp, dst_point = dstp,
          transfer_flags = flags\<rparr>)"

definition drmSyncobjAccumulate :: "'s drm_os \<Rightarrow> 's \<Rightarrow> int \<Rightarrow> u32 \<Rightarrow> u32 \<Rightarrow> u64 \<Rightarrow> (int \<times> 's) outcome" where
  "drmSyncobjAccumulate os s fd syncobj1 syncobj2 point =
     drm_send os s fd DRM_IOCTL_SYNCOBJ_ACCUMULATE
       (arg_syncobj_accumulate \<lparr>acc_syncobj1 = syncobj1, acc_syncobj2 = syncobj2, acc_point = point\<rparr>)"

section \<open>Buffers and devices\<close>

definition drmPrimeHandleToFD :: "'s drm_os \<Rightarrow> 's \<Rightarrow> int \<Rightarrow> u32 \<Rightarrow> u32 \<Rightarrow> (int \<times> int option \<times> 's) outcome" where
  "drmPrimeHandleToFD os s fd handle flags =
     drm_call os s fd DRM_IOCTL_PRIME_HANDLE_TO_FD
       (arg_prime_handle \<lparr>prime_handle = handle, prime_flags = flags, prime_fd = -1\<rparr>)
       (\<lambda>a. case a of arg_prime_handle h \<Rightarrow> Ret (prime_fd h) | _ \<Rightarrow> Fault)"

definition drmPrimeFDToHandle :: "'s drm_os \<Rightarrow> 's \<Rightarrow> int \<Rightarrow> int \<Rightarrow> (int \<times> u32 option \<times> 's) outcome" where
  "drmPrimeFDToHandle os s fd pfd =
     drm_call os s fd DRM_IOCTL_PRIME_FD_TO_HANDLE
       (arg_prime_handle \<lparr>prime_handle = 0, prime_flags = 0, prime_fd = pfd\<rparr>)
       (\<lambda>a. case a of arg_prime_handle h \<Rightarrow> Ret (prime_handle h) | _ \<Rightarrow> Fault)"

definition drmCloseBufferHandle :: "'s drm_os \<Rightarrow> 's \<Rightarrow> int \<Rightarrow> u32 \<Rightarrow> (int \<times> 's) outcome" where
  "drmCloseBufferHandle os s fd handle =
     drm_send os s fd DRM_IOCTL_GEM_CLOSE (arg_gem_close \<lparr>gem_handle = handle\<rparr>)"

definition drmAuthMagic :: "'s drm_os \<Rightarrow> 's \<Rightarrow> int \<Rightarrow> u32 \<Rightarrow> (int \<times> 's) outcome" where
  "drmAuthMagic os s fd magic =
     bind_outcome (Ioctl os s fd DRM_IOCTL_AUTH_MAGIC (arg_auth \<lparr>auth_magic = magic\<rparr>)) (\<lambda>(ret, a, s').
       Ret (if ret \<noteq> 0 then - Errno os s' else 0, s'))"

text \<open>
  A device's information about its bus is the memory its pointer leads to; what is known about the
  device itself is memory too, or holds a list of strings behind a pointer.
\<close>

datatype drm_deviceinfo = flat_info "u8 list" | compatible_info "string list option"

record drmDevice =
  nodes :: "string list"
  available_nodes :: u32
  bustype :: int
  businfo :: "u8 list option"
  deviceinfo :: "drm_deviceinfo option"

definition DRM_BUS_PCI :: int where "DRM_BUS_PCI = 0"
definition DRM_BUS_USB :: int where "DRM_BUS_USB = 1"
definition DRM_BUS_PLATFORM :: int where "DRM_BUS_PLATFORM = 2"
definition DRM_BUS_HOST1X :: int where "DRM_BUS_HOST1X = 3"

lemmas drm_bus = DRM_BUS_PCI_def DRM_BUS_USB_def DRM_BUS_PLATFORM_def DRM_BUS_HOST1X_def

definition c_memcmp :: "u8 list option \<Rightarrow> u8 list option \<Rightarrow> nat \<Rightarrow> bool outcome" where
  "c_memcmp a b n =
     (case (a, b) of
        (Some x, Some y) \<Rightarrow> if n \<le> length x \<and> n \<le> length y then Ret (take n x = take n y) else Fault
      | _ \<Rightarrow> Fault)"

definition bus_info_size :: "int \<Rightarrow> nat option" where
  "bus_info_size t =
     (if t = DRM_BUS_PCI then Some 6 else if t = DRM_BUS_USB then Some 2
      else if t = DRM_BUS_PLATFORM then Some 512 else if t = DRM_BUS_HOST1X then Some 512 else None)"

definition drmDevicesEqual :: "drmDevice option \<Rightarrow> drmDevice option \<Rightarrow> int outcome" where
  "drmDevicesEqual a b =
     (case (a, b) of
        (Some x, Some y) \<Rightarrow>
          if bustype x \<noteq> bustype y then Ret 0
          else
            (case bus_info_size (bustype x) of
               Some n \<Rightarrow> bind_outcome (c_memcmp (businfo x) (businfo y) n) (\<lambda>eq. Ret (if eq then 1 else 0))
             | None \<Rightarrow> Ret 0)
      | _ \<Rightarrow> Ret 0)"

section \<open>Drivers\<close>

text \<open>A driver answers a call with the structure it was called with; the client functions of one never
  trip over an answer.\<close>

locale drm_driver =
  fixes os :: "'s drm_os"
  assumes same_structure: "Ioctl os s fd request a = Ret (r, a', s') \<Longrightarrow> arg_kind a' = arg_kind a"
begin

lemma call_result:
  assumes "Ioctl os s fd request a = Ret (r, a', s')"
    and "\<And>b. arg_kind b = arg_kind a \<Longrightarrow> out b = Ret (field b)"
  shows "drm_call os s fd request a out = Ret (r, if r = 0 then Some (field a') else None, s')"
  using assms same_structure [OF assms(1)] by (simp add: drm_call_def)

lemma query_result:
  assumes "Ioctl os s fd request (arg_syncobj_timeline_array t) = Ret (r, a', s')"
  shows "\<exists>ps. query_points (r, a', s') = Ret (r, ps, s')"
  using same_structure [OF assms] by (cases a') (simp_all add: query_points_def)

end

section \<open>The version of a driver\<close>

text \<open>
  What a driver's version call promises: it reports the lengths of its three strings and fills the
  buffers given that are longer than the string.
\<close>

definition filled :: "string \<Rightarrow> string option \<Rightarrow> string option \<Rightarrow> bool" where
  "filled str buf buf' \<longleftrightarrow>
     (case buf of
        None \<Rightarrow> buf' = None
      | Some b \<Rightarrow> length str < length b \<longrightarrow> (\<exists>t. buf' = Some (str @ t) \<and> length (str @ t) = length b))"

definition room_for :: "string \<Rightarrow> string option \<Rightarrow> bool" where
  "room_for str buf \<longleftrightarrow> (case buf of None \<Rightarrow> True | Some b \<Rightarrow> length str < length b)"

definition answers_version ::
    "'s drm_os \<Rightarrow> int \<times> int \<times> int \<Rightarrow> string \<Rightarrow> string \<Rightarrow> string \<Rightarrow> bool" where
  "answers_version os ver n da de \<longleftrightarrow>
     (\<forall>s fd v. room_for n (v_name v) \<longrightarrow> room_for da (v_date v) \<longrightarrow> room_for de (v_desc v) \<longrightarrow>
        (\<exists>s' v'. Ioctl os s fd DRM_IOCTL_VERSION (arg_version v) = Ret (0, arg_version v', s')
          \<and> (v_major v', v_minor v', v_patchlevel v') = ver
          \<and> v_name_len v' = of_nat (length n) \<and> filled n (v_name v) (v_name v')
          \<and> v_date_len v' = of_nat (length da) \<and> filled da (v_date v) (v_date v')
          \<and> v_desc_len v' = of_nat (length de) \<and> filled de (v_desc v) (v_desc v')))"

definition c_text :: "string \<Rightarrow> bool" where
  "c_text str \<longleftrightarrow> CHR 0x00 \<notin> set str \<and> length str < 2 ^ 31 - 1"

lemma c_text_len:
  assumes "c_text str"
  shows "unat (of_nat (length str) :: u64) = length str" and "c_int (of_nat (length str)) = int (length str)"
    and "c_int (of_nat (length str) + 1) = int (length str) + 1"
    and "(of_nat (length str) :: u64) = 0 \<longleftrightarrow> str = []"
proof -
  have l: "length str < 2 ^ 31 - 1" using assms by (simp add: c_text_def)
  then show u: "unat (of_nat (length str) :: u64) = length str" by (simp add: unat_of_nat take_bit_nat_eq_self)
  have c: "c_int (of_nat k) = int k" if "k < 2 ^ 31" for k
  proof -
    have "(ucast (of_nat k :: u64) :: u32) = of_nat k"
      using that by (simp add: unat_eq_iff unsigned_ucast_eq unat_of_nat take_bit_nat_eq_self)
    moreover have "sint (of_nat k :: u32) = int k"
      using that by (simp add: signed_of_nat signed_take_bit_int_eq_self)
    ultimately show ?thesis by (simp add: c_int_def)
  qed
  show "c_int (of_nat (length str)) = int (length str)" using l by (intro c) simp
  have "length str + 1 < 2 ^ 31" using l by simp
  from c [OF this] show "c_int (of_nat (length str) + 1) = int (length str) + 1"
    by (simp only: of_nat_add of_nat_1)
  show "(of_nat (length str) :: u64) = 0 \<longleftrightarrow> str = []" unfolding unat_eq_iff u by simp
qed

text \<open>A string's buffer after the allocation, and after the driver and the terminator.\<close>

definition text_buffer :: "string \<Rightarrow> string option" where
  "text_buffer str = (if str = [] then None else Some (replicate (length str + 1) (CHR 0x00)))"

definition text_answer :: "string \<Rightarrow> string option" where
  "text_answer str = (if str = [] then None else Some (str @ [CHR 0x00]))"

lemma version_room_text:
  assumes "c_text str" and "no_alloc_failure sc"
  obtains sc' where "version_room (of_nat (length str)) None sc = (text_buffer str, sc')" "no_alloc_failure sc'"
proof (cases "str = []")
  case True
  then show thesis using assms(2) by (intro that [of sc]) (simp_all add: version_room_def text_buffer_def)
next
  case False
  obtain sc' where "calloc_next sc = (True, sc')" "no_alloc_failure sc'"
    by (rule calloc_next_no_failure [OF assms(2)])
  with False assms show thesis
    by (intro that [of sc'])
      (simp_all add: version_room_def c_text_len drmMalloc_def nat_add_distrib text_buffer_def)
qed

lemma room_for_text_buffer [simp]: "room_for str (text_buffer str)"
  by (simp add: room_for_def text_buffer_def)

lemma terminate_text:
  assumes "c_text str" and "filled str (text_buffer str) buf"
  shows "terminate_at (of_nat (length str)) buf = Ret (text_answer str)"
proof (cases "str = []")
  case True
  with assms(2) show ?thesis by (simp add: filled_def text_buffer_def terminate_at_def text_answer_def)
next
  case False
  with assms(2) obtain t where t: "buf = Some (str @ t)" "length t = 1"
    by (auto simp: filled_def text_buffer_def)
  then obtain c where "t = [c]" by (metis One_nat_def length_0_conv length_Suc_conv)
  with t False show ?thesis
    by (simp add: terminate_at_def text_answer_def c_text_len [OF assms(1)] list_update_append)
qed

lemma strdup_empty [simp]: "strdup (text_answer []) sc = Fault"
  by (simp add: strdup_def text_answer_def)

lemma strdup_text:
  assumes "c_text str" and "no_alloc_failure sc"
  obtains sc' where "strdup (text_answer str) sc = (if str = [] then Fault else Ret (Some str, sc'))"
    "no_alloc_failure sc'"
proof -
  obtain sc' where "calloc_next sc = (True, sc')" "no_alloc_failure sc'"
    by (rule calloc_next_no_failure [OF assms(2)])
  moreover have "takeWhile (\<lambda>c. c \<noteq> CHR 0x00) (str @ [CHR 0x00]) = str"
    using assms(1) by (subst takeWhile_append2) (auto simp: c_text_def)
  ultimately show thesis by (intro that [of sc']) (simp_all add: strdup_def text_answer_def c_string_def)
qed

definition version_of :: "int \<times> int \<times> int \<Rightarrow> string \<Rightarrow> string \<Rightarrow> string \<Rightarrow> drmVersion" where
  "version_of ver n da de =
     \<lparr>version_major = fst ver, version_minor = fst (snd ver), version_patchlevel = snd (snd ver),
      name_len = int (length n), name = Some n, date_len = int (length da), date = Some da,
      desc_len = int (length de), desc = Some de\<rparr>"

lemma copy_version_text:
  assumes "c_text n" "c_text da" "c_text de" "no_alloc_failure sc"
    and "v_name v = text_answer n" "v_date v = text_answer da" "v_desc v = text_answer de"
    and "v_name_len v = of_nat (length n)" "v_date_len v = of_nat (length da)" "v_desc_len v = of_nat (length de)"
  obtains sc' where "drmCopyVersion v sc = (if n = [] \<or> da = [] \<or> de = [] then Fault
    else Ret (version_of (v_major v, v_minor v, v_patchlevel v) n da de, sc'))"
proof -
  obtain sc1 where 1: "strdup (text_answer n) sc = (if n = [] then Fault else Ret (Some n, sc1))" "no_alloc_failure sc1"
    by (rule strdup_text [OF assms(1,4)])
  obtain sc2 where 2: "strdup (text_answer da) sc1 = (if da = [] then Fault else Ret (Some da, sc2))" "no_alloc_failure sc2"
    by (rule strdup_text [OF assms(2) 1(2)])
  obtain sc3 where 3: "strdup (text_answer de) sc2 = (if de = [] then Fault else Ret (Some de, sc3))"
    by (rule strdup_text [OF assms(3) 2(2)])
  show thesis
    by (rule that [of sc3]) (simp add: drmCopyVersion_def assms(5-10) 1 2 3 version_of_def c_text_len(2) assms(1-3))
qed

end
