(* ===== verification/StubMem.thy ===== *)
theory StubMem imports Ioctl begin

text \<open>
  The state of the stub driver: its buffers and their mappings (\<open>stub/memory.cpp\<close>) and the files that
  stand for shared handles (\<open>stub/fdMapper.cpp\<close>). \<open>create_area\<close>, \<open>open\<close> and \<open>close\<close> are parameters
  over an abstract state \<open>'e\<close>. A buffer never changes once made, so a reference to one is a copy; the
  mapping table is a list in the order of its keys, which is how \<open>std::map\<close> iterates.
\<close>

section \<open>State\<close>

record GpuBuffer =
  buf_adr :: u64
  buf_size :: u64
  buf_alignment :: u64
  buf_domains :: u64
  buf_flags :: u64

record GpuMapping =
  map_buffer :: GpuBuffer
  map_offset :: u64
  map_size :: u64

datatype HandleType = gem | syncobj

record FdMapEntry =
  entry_type :: HandleType
  entry_handle :: u32

record 'e platform =
  create_area :: "'e \<Rightarrow> u64 \<Rightarrow> u64 option \<times> 'e"
  open_null :: "'e \<Rightarrow> int \<times> 'e"
  close_fd :: "'e \<Rightarrow> int \<Rightarrow> 'e"

text \<open>\<open>ctx_counter\<close>, \<open>cs_counter\<close> and \<open>syncobj_counter\<close> are the static counters inside the handlers.\<close>

record 'e stub_state =
  env :: 'e
  st_errno :: int
  gGpuBufferHandleTable :: "u32 \<rightharpoonup> GpuBuffer"
  gLastGpuBufferHandleTable :: u32
  gGpuBufferMappingTable :: "(u64 \<times> GpuMapping) list"
  sFdMap :: "int \<rightharpoonup> FdMapEntry"
  ctx_counter :: u32
  cs_counter :: u64
  syncobj_counter :: u32

definition stub_start :: "'e \<Rightarrow> int \<Rightarrow> 'e stub_state" where
  "stub_start e n = \<lparr>env = e, st_errno = n, gGpuBufferHandleTable = Map.empty,
     gLastGpuBufferHandleTable = 1, gGpuBufferMappingTable = [], sFdMap = Map.empty,
     ctx_counter = 1, cs_counter = 1, syncobj_counter = 1\<rparr>"

section \<open>Buffers\<close>

definition ThisGpuBuffer :: "'e stub_state \<Rightarrow> u32 \<Rightarrow> GpuBuffer option" where
  "ThisGpuBuffer s handle = gGpuBufferHandleTable s handle"

text \<open>
  \<open>upper_bound\<close> gives the first mapping behind the address; going one back from the first mapping of
  the table is undefined. The buffer and the offset in it, if the mapping reaches that far.
\<close>

definition ThisMappedGpuBuffer :: "'e stub_state \<Rightarrow> u64 \<Rightarrow> (GpuBuffer \<times> u64) option outcome" where
  "ThisMappedGpuBuffer s mapAdr =
     (let before = takeWhile (\<lambda>(k, _). k \<le> mapAdr) (gGpuBufferMappingTable s)
      in if before = [] then Fault
         else (case last before of
                 (bufferMapAdr, mapping) \<Rightarrow>
                   if \<not> (mapAdr < bufferMapAdr + map_size mapping) then Ret None
                   else Ret (Some (map_buffer mapping, map_offset mapping + mapAdr - bufferMapAdr))))"

text \<open>\<open>emplace\<close> leaves an element that is there alone, in a table of handles as in an ordered table.\<close>

definition map_emplace :: "('k \<rightharpoonup> 'v) \<Rightarrow> 'k \<Rightarrow> 'v \<Rightarrow> ('k \<rightharpoonup> 'v)" where
  "map_emplace m k v = (if m k = None then m(k \<mapsto> v) else m)"

fun sorted_emplace :: "u64 \<Rightarrow> 'v \<Rightarrow> (u64 \<times> 'v) list \<Rightarrow> (u64 \<times> 'v) list" where
  "sorted_emplace k v [] = [(k, v)]"
| "sorted_emplace k v ((a, w) # xs) =
     (if k < a then (k, v) # (a, w) # xs else if k = a then (a, w) # xs else (a, w) # sorted_emplace k v xs)"

definition CreateGpuBuffer ::
    "'e platform \<Rightarrow> 'e stub_state \<Rightarrow> u64 \<Rightarrow> u64 \<Rightarrow> u64 \<Rightarrow> u64 \<Rightarrow> int \<times> u32 option \<times> 'e stub_state" where
  "CreateGpuBuffer pf s sz al domains flags =
     (case create_area pf (env s) sz of
        (None, e) \<Rightarrow> (B_NO_MEMORY, None, s\<lparr>env := e\<rparr>)
      | (Some adr, e) \<Rightarrow>
          (let handle = gLastGpuBufferHandleTable s
           in (B_OK, Some handle,
               s\<lparr>env := e, gLastGpuBufferHandleTable := handle + 1,
                 gGpuBufferHandleTable := map_emplace (gGpuBufferHandleTable s) handle
                   \<lparr>buf_adr = adr, buf_size = sz, buf_alignment = al, buf_domains = domains,
                    buf_flags = flags\<rparr>\<rparr>)))"

definition CloseGpuBuffer :: "'e stub_state \<Rightarrow> u32 \<Rightarrow> int \<times> 'e stub_state" where
  "CloseGpuBuffer s handle =
     (case gGpuBufferHandleTable s handle of
        None \<Rightarrow> (B_ERROR, s)
      | Some _ \<Rightarrow> (B_OK, s\<lparr>gGpuBufferHandleTable := (gGpuBufferHandleTable s)(handle := None)\<rparr>))"

definition MapGpuBuffer :: "'e stub_state \<Rightarrow> u32 \<Rightarrow> u32 \<Rightarrow> u64 \<Rightarrow> u64 \<Rightarrow> u64 \<Rightarrow> int \<times> 'e stub_state" where
  "MapGpuBuffer s handle flags mapAdr bufOffset mapSize =
     (case ThisGpuBuffer s handle of
        None \<Rightarrow> (B_ERROR, s)
      | Some buffer \<Rightarrow>
          (B_OK, s\<lparr>gGpuBufferMappingTable := sorted_emplace mapAdr
                     \<lparr>map_buffer = buffer, map_offset = bufOffset, map_size = mapSize\<rparr>
                     (gGpuBufferMappingTable s)\<rparr>))"

definition UnmapGpuBuffer :: "'e stub_state \<Rightarrow> u32 \<Rightarrow> u32 \<Rightarrow> u64 \<Rightarrow> u64 \<Rightarrow> u64 \<Rightarrow> int \<times> 'e stub_state" where
  "UnmapGpuBuffer s handle flags mapAdr bufOffset mapSize =
     (if mapAdr \<notin> fst ` set (gGpuBufferMappingTable s) then (B_ERROR, s)
      else (B_OK, s\<lparr>gGpuBufferMappingTable :=
                      filter (\<lambda>(k, _). k \<noteq> mapAdr) (gGpuBufferMappingTable s)\<rparr>))"

section \<open>Files for handles\<close>

definition drmFdClose :: "'e platform \<Rightarrow> 'e stub_state \<Rightarrow> int \<Rightarrow> int \<Rightarrow> int \<times> 'e stub_state" where
  "drmFdClose pf s devFd fd =
     (case sFdMap s fd of
        None \<Rightarrow> (E_NOENT, s)
      | Some _ \<Rightarrow> (B_OK, s\<lparr>env := close_fd pf (env s) fd, sFdMap := (sFdMap s)(fd := None)\<rparr>))"

text \<open>The status, the file and the state; \<open>open\<close> may have failed with -1.\<close>

definition drmFdMapHandle ::
    "'e platform \<Rightarrow> 'e stub_state \<Rightarrow> int \<Rightarrow> HandleType \<Rightarrow> u32 \<Rightarrow> int \<times> int \<times> 'e stub_state" where
  "drmFdMapHandle pf s devFd t handle =
     (case open_null pf (env s) of
        (fd, e) \<Rightarrow>
          (B_OK, fd,
           s\<lparr>env := e, sFdMap := map_emplace (sFdMap s) fd \<lparr>entry_type = t, entry_handle = handle\<rparr>\<rparr>))"

text \<open>\<open>entry\<close> refers to the element of the map, which is read after it has been erased.\<close>

definition drmFdUnmapHandle ::
    "'e stub_state \<Rightarrow> int \<Rightarrow> HandleType \<Rightarrow> int \<Rightarrow> (int \<times> u32 option \<times> 'e stub_state) outcome" where
  "drmFdUnmapHandle s devFd t fd =
     (case sFdMap s fd of
        None \<Rightarrow> Ret (E_NOENT, None, s)
      | Some entry \<Rightarrow>
          if entry_type entry \<noteq> t then Ret (E_NOENT, None, s)
          else
            (let s' = s\<lparr>sFdMap := (sFdMap s)(fd := None)\<rparr>
             in case sFdMap s' fd of
                  None \<Rightarrow> Fault
                | Some entry \<Rightarrow> Ret (B_OK, Some (entry_handle entry), s')))"

definition drmFdMapGemHandle ::
    "'e platform \<Rightarrow> 'e stub_state \<Rightarrow> int \<Rightarrow> u32 \<Rightarrow> int \<times> int \<times> 'e stub_state" where
  "drmFdMapGemHandle pf s devFd handle = drmFdMapHandle pf s devFd gem handle"

definition drmFdUnmapGemHandle ::
    "'e stub_state \<Rightarrow> int \<Rightarrow> int \<Rightarrow> (int \<times> u32 option \<times> 'e stub_state) outcome" where
  "drmFdUnmapGemHandle s devFd fd = drmFdUnmapHandle s devFd gem fd"

definition drmFdMapSyncobjHandle ::
    "'e platform \<Rightarrow> 'e stub_state \<Rightarrow> int \<Rightarrow> u32 \<Rightarrow> int \<times> int \<times> 'e stub_state" where
  "drmFdMapSyncobjHandle pf s devFd handle = drmFdMapHandle pf s devFd syncobj handle"

definition drmFdUnmapSyncobjHandle ::
    "'e stub_state \<Rightarrow> int \<Rightarrow> int \<Rightarrow> (int \<times> u32 option \<times> 'e stub_state) outcome" where
  "drmFdUnmapSyncobjHandle s devFd fd = drmFdUnmapHandle s devFd syncobj fd"

end
