(* ===== verification/Stub.thy ===== *)
theory Stub imports StubMem Drm begin

text \<open>
  The driver behind \<open>drmIoctl\<close>: \<open>libdrm.cpp\<close> passes every call to the stub of
  \<open>stub/libdrmStub.cpp\<close>, which answers from constants and the tables of the stub's state. What it
  prints about calls it does not know, and the key it waits for, are left out. Reading an argument
  as another structure than it is, and writing past the end of a buffer, are faults.
\<close>

section \<open>Answers about the device\<close>

definition drmAmdgpuReadMmrReg :: "u32 \<Rightarrow> u32 option" where
  "drmAmdgpuReadMmrReg offset = map_of
     [(0x263d, 0x1), (0xa0d4, 0x1240), (0x263e, 0x12010002),
      (0x2644 + 0x0, 0x3a0112), (0x2644 + 0x1, 0x3a0912), (0x2644 + 0x2, 0x3a1112), (0x2644 + 0x3, 0x212912),
      (0x2644 + 0x4, 0x10a), (0x2644 + 0x5, 0x111912), (0x2644 + 0x6, 0x121112), (0x2644 + 0x7, 0x22112),
      (0x2644 + 0x8, 0x4), (0x2644 + 0x9, 0x108), (0x2644 + 0xa, 0x3a1110), (0x2644 + 0xb, 0x351110),
      (0x2644 + 0xc, 0x341910), (0x2644 + 0xd, 0x109), (0x2644 + 0xe, 0x361111), (0x2644 + 0xf, 0x351111),
      (0x2644 + 0x10, 0x341911), (0x2644 + 0x11, 0x342911), (0x2644 + 0x12, 0x10d), (0x2644 + 0x13, 0x342921),
      (0x2644 + 0x14, 0x34291d), (0x2644 + 0x15, 0x221111), (0x2644 + 0x16, 0x211111), (0x2644 + 0x17, 0x121111),
      (0x2644 + 0x18, 0x111911), (0x2644 + 0x19, 0x22111), (0x2644 + 0x1a, 0x22111), (0x2644 + 0x1b, 0x22111),
      (0x2644 + 0x1c, 0x22111), (0x2644 + 0x1d, 0x22111), (0x2644 + 0x1e, 0x12911), (0x2644 + 0x1f, 0),
      (0x9d8, 0x262)] offset"

text \<open>Storing a field into memory, of 4 or 8 bytes at an offset.\<close>

definition poke :: "nat \<Rightarrow> nat \<Rightarrow> nat \<Rightarrow> u8 list \<Rightarrow> u8 list outcome" where
  "poke off n v m = (if off + n \<le> length m then Ret (take off m @ le_bytes n v @ drop (off + n) m) else Fault)"

fun pokes :: "(nat \<times> nat \<times> nat) list \<Rightarrow> u8 list \<Rightarrow> u8 list outcome" where
  "pokes [] m = Ret m"
| "pokes ((off, n, v) # fs) m = bind_outcome (poke off n v m) (pokes fs)"

definition clear_bytes :: "nat \<Rightarrow> u8 list \<Rightarrow> u8 list outcome" where
  "clear_bytes n m = (if n \<le> length m then Ret (replicate n 0 @ drop n m) else Fault)"

text \<open>The fields of \<open>struct drm_amdgpu_info_device\<close> the stub sets: offset, size, value.\<close>

definition stub_device_fields :: "(nat \<times> nat \<times> nat) list" where
  "stub_device_fields =
     [(0, 4, 0x683f), (4, 4, 0x1), (8, 4, 0x29), (12, 4, 0x87), (16, 4, 110), (20, 4, 1), (24, 4, 2),
      (28, 4, 0x6978), (32, 8, 0xc3500), (40, 8, 0x112a88), (48, 4, 0x8), (52, 4, 0x1e1e),
      (56, 4, 0x1e), (60, 4, 0x1e), (120, 4, 0xf), (124, 4, 0x4), (128, 4, 0x8),
      (144, 8, 0x200000), (152, 8, 0xfffe00000), (160, 4, 0x1000), (164, 4, 0x200000), (168, 4, 0x1000),
      (172, 4, 0x8000), (176, 4, 0x5), (180, 4, 0x80), (244, 4, 0x100), (248, 4, 0x5), (252, 4, 0x4),
      (264, 4, 0x20), (272, 4, 0x1e), (276, 4, 0x1e)]"

definition stub_memory_fields :: "(nat \<times> nat \<times> nat) list" where
  "stub_memory_fields =
     [(0, 8, 0x80000000), (8, 8, 0x7e380000), (16, 8, 0x2664000), (24, 8, 0x5eaa0000),
      (32, 8, 0x10000000), (40, 8, 0xf378000), (48, 8, 0x1290000), (56, 8, 0xb69a000),
      (64, 8, 0xc0000000), (72, 8, 0xbfddd000), (80, 8, 0xce1000), (88, 8, 0x8fe65c00)]"

text \<open>The loop over the registers: value \<open>i\<close> goes to the \<open>i\<close>th word.\<close>

fun read_mmr_loop :: "u32 \<Rightarrow> nat list \<Rightarrow> u8 list \<Rightarrow> (int \<times> u8 list) outcome" where
  "read_mmr_loop off [] m = Ret (0, m)"
| "read_mmr_loop off (i # ns) m =
     (case drmAmdgpuReadMmrReg (off + of_nat i) of
        None \<Rightarrow> Ret (-1, m)
      | Some v \<Rightarrow> bind_outcome (poke (4 * i) 4 (unat v) m) (read_mmr_loop off ns))"

definition AMDGPU_INFO_FW_TA :: u32 where "AMDGPU_INFO_FW_TA = 0x13"
definition AMDGPU_INFO_MEMORY :: u32 where "AMDGPU_INFO_MEMORY = 0x19"

text \<open>Version and feature of a kind of firmware.\<close>

definition stub_firmware :: "u32 \<Rightarrow> (nat \<times> nat) option" where
  "stub_firmware t = map_of
     [(4, 0x91, 0x1d), (8, 0, 0), (5, 0x54, 0x1d), (6, 0x3d, 0x1d), (2, 0x40000d00, 0), (1, 0, 0)] t"

text \<open>
  The fields of \<open>struct drm_amdgpu_info_hw_ip\<close> for a kind of engine: version, flags, the two
  alignments and the rings. For the kinds 4, 6, 7 and 8 nothing is stored.
\<close>

definition hw_ip_fields :: "nat \<Rightarrow> nat \<Rightarrow> nat \<Rightarrow> nat \<Rightarrow> nat \<Rightarrow> (nat \<times> nat \<times> nat) list" where
  "hw_ip_fields major minor start sz rings =
     [(0, 4, major), (4, 4, minor), (8, 8, 0), (16, 4, start), (20, 4, sz), (24, 4, rings)]"

definition stub_hw_ip :: "u32 \<Rightarrow> (nat \<times> nat \<times> nat) list option" where
  "stub_hw_ip t = map_of
     [(0, hw_ip_fields 6 0 0x20 0x20 1), (1, hw_ip_fields 6 0 0x20 0x20 3), (2, hw_ip_fields 1 0 0x100 4 3),
      (3, hw_ip_fields 3 1 0x40 0x40 1), (4, []), (5, hw_ip_fields 3 1 0x40 0x40 0), (6, []), (7, []), (8, [])] t"

definition stub_answer :: "(nat \<times> nat \<times> nat) list \<Rightarrow> u8 list \<Rightarrow> (int \<times> u8 list) outcome" where
  "stub_answer fs m = bind_outcome (pokes fs m) (\<lambda>m. Ret (0, m))"

definition stub_info :: "drm_amdgpu_info \<Rightarrow> u8 list \<Rightarrow> (int \<times> u8 list) outcome" where
  "stub_info rq m =
     (let q = info_query_id rq
      in if q = AMDGPU_INFO_ACCEL_WORKING then stub_answer [(0, 4, 1)] m
         else if q = AMDGPU_INFO_DEV_INFO then
           bind_outcome (clear_bytes 368 m) (stub_answer stub_device_fields)
         else if q = AMDGPU_INFO_READ_MMR_REG then
           read_mmr_loop (info_word rq 0) [0..<unat (info_word rq 1)] m
         else if q = AMDGPU_INFO_FW_TA \<or> q = AMDGPU_INFO_VRAM_GTT \<or> q = AMDGPU_INFO_VRAM_USAGE
             \<or> q = AMDGPU_INFO_VIS_VRAM_USAGE \<or> q = AMDGPU_INFO_GTT_USAGE then Ret (0, m)
         else if q = AMDGPU_INFO_MEMORY then stub_answer stub_memory_fields m
         else if q = AMDGPU_INFO_FW_VERSION then
           (case stub_firmware (info_word rq 0) of
              Some (ver, feature) \<Rightarrow> stub_answer [(0, 4, ver), (4, 4, feature)] m
            | None \<Rightarrow> Ret (-1, m))
         else if q = AMDGPU_INFO_HW_IP_INFO then
           (case stub_hw_ip (info_word rq 0) of Some fs \<Rightarrow> stub_answer fs m | None \<Rightarrow> Ret (-1, m))
         else Ret (-1, m))"

section \<open>The calls of the amdgpu driver\<close>

type_synonym 'e stub_answer = "(int \<times> drm_arg \<times> 'e stub_state) outcome"

text \<open>
  Storing the new context's id in the union leaves the other bytes of the request where they are.
\<close>

definition stub_ctx_out :: "drm_amdgpu_ctx_in \<Rightarrow> u32 \<Rightarrow> drm_amdgpu_ctx_out" where
  "stub_ctx_out i new =
     \<lparr>alloc_ctx_id = new, state_flags = push_bit 32 (ucast (ctx_flags i)) OR ucast new,
      state_hangs = ctx_ctx_id i, state_reset_status = ctx_priority i, pstate_flags = new\<rparr>"

definition stub_ctx :: "'e stub_state \<Rightarrow> drm_amdgpu_ctx_in \<Rightarrow> 'e stub_answer" where
  "stub_ctx s i =
     (if ctx_op i = AMDGPU_CTX_OP_ALLOC_CTX then
        Ret (0, arg_ctx (ctx_out (stub_ctx_out i (ctx_counter s))), s\<lparr>ctx_counter := ctx_counter s + 1\<rparr>)
      else if ctx_op i = AMDGPU_CTX_OP_FREE_CTX \<or> ctx_op i = AMDGPU_CTX_OP_QUERY_STATE
          \<or> ctx_op i = AMDGPU_CTX_OP_QUERY_STATE2 then Ret (0, arg_ctx (ctx_in i), s)
      else Ret (-1, arg_ctx (ctx_in i), s))"

definition stub_gem_va :: "'e stub_state \<Rightarrow> drm_amdgpu_gem_va \<Rightarrow> 'e stub_answer" where
  "stub_gem_va s a =
     (if va_operation a = AMDGPU_VA_OP_MAP then
        (case MapGpuBuffer s (va_handle a) (va_op_flags a) (va_address a) (va_offset_in_bo a) (va_map_size a) of
           (r, s) \<Rightarrow> Ret (r, arg_gem_va a, s))
      else if va_operation a = AMDGPU_VA_OP_UNMAP then
        (case UnmapGpuBuffer s (va_handle a) (va_op_flags a) (va_address a) (va_offset_in_bo a) (va_map_size a) of
           (r, s) \<Rightarrow> Ret (r, arg_gem_va a, s))
      else Ret (-1, arg_gem_va a, s))"

definition stub_gem_create ::
    "'e platform \<Rightarrow> 'e stub_state \<Rightarrow> u64 \<Rightarrow> u64 \<Rightarrow> u64 \<Rightarrow> u64 \<Rightarrow> 'e stub_answer" where
  "stub_gem_create pf s sz al domains flags =
     (case CreateGpuBuffer pf s sz al domains flags of
        (r, Some handle, s) \<Rightarrow> Ret (r, arg_gem_create (gem_create_out handle), s)
      | (r, None, s) \<Rightarrow> Ret (r, arg_gem_create (gem_create_in sz al domains flags), s))"

text \<open>Every chunk is looked at; what is found there has no effect.\<close>

definition stub_cs :: "'e stub_state \<Rightarrow> drm_amdgpu_cs_in \<Rightarrow> 'e stub_answer" where
  "stub_cs s i =
     (if unat (cs_num_chunks i) \<le> length (cs_chunks i) then
        Ret (0, arg_cs (cs_out (cs_counter s)), s\<lparr>cs_counter := cs_counter s + 1\<rparr>)
      else Fault)"

definition HandleAmdgpuIoctl ::
    "'e platform \<Rightarrow> 'e stub_state \<Rightarrow> int \<Rightarrow> ioc \<Rightarrow> drm_arg \<Rightarrow> 'e stub_answer" where
  "HandleAmdgpuIoctl pf s fd request arg =
     (let cmd = ioc_nr request mod 0x100 - DRM_COMMAND_BASE
      in if cmd = DRM_AMDGPU_INFO then
           (case arg of
              arg_info rq m \<Rightarrow> bind_outcome (stub_info rq m) (\<lambda>(r, m). Ret (r, arg_info rq m, s))
            | _ \<Rightarrow> Fault)
         else if cmd = DRM_AMDGPU_CTX then
           (case arg of arg_ctx (ctx_in i) \<Rightarrow> stub_ctx s i | _ \<Rightarrow> Fault)
         else if cmd = DRM_AMDGPU_GEM_CREATE then
           (case arg of
              arg_gem_create (gem_create_in sz al domains flags) \<Rightarrow> stub_gem_create pf s sz al domains flags
            | _ \<Rightarrow> Fault)
         else if cmd = DRM_AMDGPU_GEM_VA then
           (case arg of arg_gem_va a \<Rightarrow> stub_gem_va s a | _ \<Rightarrow> Fault)
         else if cmd = DRM_AMDGPU_GEM_MMAP then
           (case arg of
              arg_gem_mmap (gem_mmap_in handle) \<Rightarrow> Ret (0, arg_gem_mmap (gem_mmap_out (ucast handle)), s)
            | _ \<Rightarrow> Fault)
         else if cmd = DRM_AMDGPU_CS then
           (case arg of arg_cs (cs_in i) \<Rightarrow> stub_cs s i | _ \<Rightarrow> Fault)
         else if cmd = DRM_AMDGPU_WAIT_CS then
           (case arg of arg_wait_cs w \<Rightarrow> Ret (0, arg_wait_cs (wait_cs_out 0 (wait_cs_request w)), s) | _ \<Rightarrow> Fault)
         else Ret (-1, arg, s))"

section \<open>The calls of every driver\<close>

text \<open>\<open>if (dst != NULL) strcpy(dst, src);\<close>\<close>

definition store_string :: "string \<Rightarrow> string option \<Rightarrow> string option outcome" where
  "store_string src dst =
     (case dst of
        None \<Rightarrow> Ret None
      | Some b \<Rightarrow>
          if length src < length b then Ret (Some (src @ CHR 0x00 # drop (length src + 1) b)) else Fault)"

definition stub_version :: "'e stub_state \<Rightarrow> drm_version \<Rightarrow> 'e stub_answer" where
  "stub_version s v =
     bind_outcome (store_string ''amdgpu'' (v_name v)) (\<lambda>n.
     bind_outcome (store_string ''20150101'' (v_date v)) (\<lambda>da.
     bind_outcome (store_string ''AMD GPU'' (v_desc v)) (\<lambda>de.
     Ret (0, arg_version
            \<lparr>v_major = 3, v_minor = 42, v_patchlevel = 0, v_name_len = 6, v_name = n,
             v_date_len = 8, v_date = da, v_desc_len = 7, v_desc = de\<rparr>, s))))"

definition DRM_CAP_SYNCOBJ :: u64 where "DRM_CAP_SYNCOBJ = 0x13"
definition DRM_CAP_SYNCOBJ_TIMELINE :: u64 where "DRM_CAP_SYNCOBJ_TIMELINE = 0x14"

text \<open>
  A capability the stub does not know leads into the next case, which takes the argument for a
  \<open>struct drm_prime_handle\<close>: the handle is the low half of the capability, and the file goes over the
  low half of the value.
\<close>

definition cap_as_prime ::
    "'e platform \<Rightarrow> 'e stub_state \<Rightarrow> int \<Rightarrow> drm_get_cap \<Rightarrow> 'e stub_answer" where
  "cap_as_prime pf s fd c =
     (case drmFdMapGemHandle pf s fd (ucast (cap_capability c)) of
        (r, new, s) \<Rightarrow>
          Ret (r, arg_get_cap (c\<lparr>cap_value := push_bit 32 (drop_bit 32 (cap_value c))
                                 OR ucast (word_of_int new :: u32)\<rparr>), s))"

definition stub_get_cap :: "'e platform \<Rightarrow> 'e stub_state \<Rightarrow> int \<Rightarrow> drm_get_cap \<Rightarrow> 'e stub_answer" where
  "stub_get_cap pf s fd c =
     (if cap_capability c = DRM_CAP_SYNCOBJ \<or> cap_capability c = DRM_CAP_SYNCOBJ_TIMELINE then
        Ret (0, arg_get_cap (c\<lparr>cap_value := 1\<rparr>), s)
      else cap_as_prime pf s fd c)"

definition stub_prime_export ::
    "'e platform \<Rightarrow> 'e stub_state \<Rightarrow> int \<Rightarrow> drm_prime_handle \<Rightarrow> 'e stub_answer" where
  "stub_prime_export pf s fd h =
     (case drmFdMapGemHandle pf s fd (prime_handle h) of
        (r, new, s) \<Rightarrow> Ret (r, arg_prime_handle (h\<lparr>prime_fd := new\<rparr>), s))"

text \<open>An output the file mapper leaves alone keeps its value.\<close>

definition stub_prime_import :: "'e stub_state \<Rightarrow> int \<Rightarrow> drm_prime_handle \<Rightarrow> 'e stub_answer" where
  "stub_prime_import s fd h =
     bind_outcome (drmFdUnmapGemHandle s fd (prime_fd h)) (\<lambda>(r, new, s).
       Ret (r, arg_prime_handle
              (case new of None \<Rightarrow> h | Some handle \<Rightarrow> h\<lparr>prime_handle := handle\<rparr>), s))"

definition stub_syncobj_export ::
    "'e platform \<Rightarrow> 'e stub_state \<Rightarrow> int \<Rightarrow> drm_syncobj_handle \<Rightarrow> 'e stub_answer" where
  "stub_syncobj_export pf s fd h =
     (case drmFdMapSyncobjHandle pf s fd (so_handle h) of
        (r, new, s) \<Rightarrow> Ret (r, arg_syncobj_handle (h\<lparr>so_fd := new\<rparr>), s))"

definition stub_syncobj_import :: "'e stub_state \<Rightarrow> int \<Rightarrow> drm_syncobj_handle \<Rightarrow> 'e stub_answer" where
  "stub_syncobj_import s fd h =
     bind_outcome (drmFdUnmapSyncobjHandle s fd (so_fd h)) (\<lambda>(r, new, s).
       Ret (r, arg_syncobj_handle (case new of None \<Rightarrow> h | Some handle \<Rightarrow> h\<lparr>so_handle := handle\<rparr>), s))"

definition stub_syncobj_create :: "'e stub_state \<Rightarrow> drm_syncobj_create \<Rightarrow> 'e stub_answer" where
  "stub_syncobj_create s c =
     Ret (0, arg_syncobj_create (c\<lparr>so_create_handle := syncobj_counter s\<rparr>),
          s\<lparr>syncobj_counter := syncobj_counter s + 1\<rparr>)"

definition drmIoctlStub ::
    "'e platform \<Rightarrow> 'e stub_state \<Rightarrow> int \<Rightarrow> ioc \<Rightarrow> drm_arg \<Rightarrow> 'e stub_answer" where
  "drmIoctlStub pf s fd request arg =
     (let cmd = ioc_nr request mod 0x100
      in if DRM_COMMAND_BASE \<le> cmd \<and> cmd < DRM_COMMAND_END then HandleAmdgpuIoctl pf s fd request arg
         else if request = DRM_IOCTL_VERSION then
           (case arg of arg_version v \<Rightarrow> stub_version s v | _ \<Rightarrow> Fault)
         else if request = DRM_IOCTL_GEM_CLOSE then
           (case arg of
              arg_gem_close c \<Rightarrow> (case CloseGpuBuffer s (gem_handle c) of (r, s) \<Rightarrow> Ret (r, arg, s))
            | _ \<Rightarrow> Fault)
         else if request = DRM_IOCTL_GET_CAP then
           (case arg of arg_get_cap c \<Rightarrow> stub_get_cap pf s fd c | _ \<Rightarrow> Fault)
         else if request = DRM_IOCTL_PRIME_HANDLE_TO_FD then
           (case arg of arg_prime_handle h \<Rightarrow> stub_prime_export pf s fd h | _ \<Rightarrow> Fault)
         else if request = DRM_IOCTL_PRIME_FD_TO_HANDLE then
           (case arg of arg_prime_handle h \<Rightarrow> stub_prime_import s fd h | _ \<Rightarrow> Fault)
         else if request = DRM_IOCTL_SYNCOBJ_CREATE then
           (case arg of arg_syncobj_create c \<Rightarrow> stub_syncobj_create s c | _ \<Rightarrow> Fault)
         else if request = DRM_IOCTL_SYNCOBJ_DESTROY \<or> request = DRM_IOCTL_SYNCOBJ_WAIT then Ret (0, arg, s)
         else if request = DRM_IOCTL_SYNCOBJ_TIMELINE_WAIT then
           (case arg of
              arg_syncobj_timeline_wait w \<Rightarrow> Ret (0, arg_syncobj_timeline_wait (w\<lparr>tl_first_signaled := 0\<rparr>), s)
            | _ \<Rightarrow> Fault)
         else if request = DRM_IOCTL_SYNCOBJ_TRANSFER \<or> request = DRM_IOCTL_SYNCOBJ_RESET
             \<or> request = DRM_IOCTL_SYNCOBJ_SIGNAL then Ret (0, arg, s)
         else if request = DRM_IOCTL_SYNCOBJ_HANDLE_TO_FD then
           (case arg of arg_syncobj_handle h \<Rightarrow> stub_syncobj_export pf s fd h | _ \<Rightarrow> Fault)
         else if request = DRM_IOCTL_SYNCOBJ_FD_TO_HANDLE then
           (case arg of arg_syncobj_handle h \<Rightarrow> stub_syncobj_import s fd h | _ \<Rightarrow> Fault)
         else if request = DRM_IOCTL_SYNCOBJ_ACCUMULATE then Ret (0, arg, s)
         else Ret (-1, arg, s))"

text \<open>The offset is taken for a handle.\<close>

definition drmMmapStub :: "'e stub_state \<Rightarrow> u64 \<Rightarrow> u64 option" where
  "drmMmapStub s offset = map_option buf_adr (ThisGpuBuffer s (ucast offset))"

definition drmMunmapStub :: "u64 \<Rightarrow> u64 \<Rightarrow> int" where "drmMunmapStub addr len = 0"

definition drmIoctl :: "'e platform \<Rightarrow> 'e stub_state \<Rightarrow> int \<Rightarrow> ioc \<Rightarrow> drm_arg \<Rightarrow> 'e stub_answer" where
  "drmIoctl pf s fd request arg = drmIoctlStub pf s fd request arg"

definition stub_os :: "'e platform \<Rightarrow> 'e stub_state drm_os" where
  "stub_os pf = \<lparr>Ioctl = drmIoctl pf, Errno = st_errno\<rparr>"

section \<open>The stub as a driver\<close>

lemmas stub_calls = stub_version_def stub_get_cap_def cap_as_prime_def stub_prime_export_def
  stub_prime_import_def stub_syncobj_export_def stub_syncobj_import_def stub_syncobj_create_def

lemma HandleAmdgpuIoctl_kind:
  assumes "HandleAmdgpuIoctl pf s fd request a = Ret (r, a', s')"
  shows "arg_kind a' = arg_kind a"
  using assms unfolding HandleAmdgpuIoctl_def Let_def
  by (auto simp: stub_ctx_def stub_gem_va_def stub_gem_create_def stub_cs_def
      split: if_split_asm drm_arg.split_asm drm_amdgpu_ctx.split_asm drm_amdgpu_gem_create.split_asm
        drm_amdgpu_gem_mmap.split_asm drm_amdgpu_cs.split_asm prod.split_asm option.split_asm
      elim!: bind_outcome_RetE)

lemma drmIoctlStub_kind:
  assumes "drmIoctlStub pf s fd request a = Ret (r, a', s')"
  shows "arg_kind a' = arg_kind a"
  using assms unfolding drmIoctlStub_def Let_def
  by (auto simp: stub_calls dest: HandleAmdgpuIoctl_kind
      split: if_split_asm drm_arg.split_asm prod.split_asm option.split_asm
      elim!: bind_outcome_RetE)

interpretation stub: drm_driver "stub_os pf" for pf
  by unfold_locales (simp add: stub_os_def drmIoctl_def drmIoctlStub_kind)

lemma stub_Ioctl [simp]: "Ioctl (stub_os pf) = drmIoctlStub pf" "Errno (stub_os pf) = st_errno"
  by (simp_all add: stub_os_def drmIoctl_def fun_eq_iff)

lemma stub_request_nr [simp]:
  "ioc_nr DRM_IOCTL_VERSION = 0" "ioc_nr DRM_IOCTL_GET_CAP = 0x0c"
  "ioc_nr DRM_IOCTL_SYNCOBJ_FD_TO_HANDLE = 0xC2"
  "ioc_nr DRM_IOCTL_PRIME_HANDLE_TO_FD = 0x2d" "ioc_nr DRM_IOCTL_PRIME_FD_TO_HANDLE = 0x2e"
  by (simp_all add: drm_requests)

lemma stub_version_call:
  "drmIoctlStub pf s fd DRM_IOCTL_VERSION (arg_version v) = stub_version s v"
  by (simp add: drmIoctlStub_def Let_def DRM_COMMAND_BASE_def)

lemma stub_get_cap_call:
  "drmIoctlStub pf s fd DRM_IOCTL_GET_CAP (arg_get_cap c) = stub_get_cap pf s fd c"
  by (simp add: drmIoctlStub_def Let_def DRM_COMMAND_BASE_def) (simp add: drm_requests)

lemma stub_prime_calls:
  "drmIoctlStub pf s fd DRM_IOCTL_PRIME_HANDLE_TO_FD (arg_prime_handle h) = stub_prime_export pf s fd h"
  "drmIoctlStub pf s fd DRM_IOCTL_PRIME_FD_TO_HANDLE (arg_prime_handle h) = stub_prime_import s fd h"
  by (simp_all add: drmIoctlStub_def Let_def DRM_COMMAND_BASE_def) (simp_all add: drm_requests)

lemma stub_syncobj_import_call:
  "drmIoctlStub pf s fd DRM_IOCTL_SYNCOBJ_FD_TO_HANDLE (arg_syncobj_handle h) = stub_syncobj_import s fd h"
  by (simp add: drmIoctlStub_def Let_def DRM_COMMAND_BASE_def DRM_COMMAND_END_def) (simp add: drm_requests)

lemma store_string_filled:
  assumes "room_for str buf"
  obtains buf' where "store_string str buf = Ret buf'" "filled str buf buf'"
proof (cases buf)
  case None
  then show thesis by (intro that [of None]) (simp_all add: store_string_def filled_def)
next
  case (Some b)
  with assms have "length str < length b" by (simp add: room_for_def)
  with Some show thesis
    by (intro that [of "Some (str @ CHR 0x00 # drop (length str + 1) b)"])
      (auto simp: store_string_def filled_def)
qed

lemma stub_answers_version:
  "answers_version (stub_os pf) (3, 42, 0) ''amdgpu'' ''20150101'' ''AMD GPU''"
  unfolding answers_version_def
proof (intro allI impI)
  fix s :: "'a stub_state" and fd and v :: drm_version
  assume "room_for ''amdgpu'' (v_name v)" "room_for ''20150101'' (v_date v)" "room_for ''AMD GPU'' (v_desc v)"
  then obtain n da de where "store_string ''amdgpu'' (v_name v) = Ret n" "filled ''amdgpu'' (v_name v) n"
      "store_string ''20150101'' (v_date v) = Ret da" "filled ''20150101'' (v_date v) da"
      "store_string ''AMD GPU'' (v_desc v) = Ret de" "filled ''AMD GPU'' (v_desc v) de"
    by (meson store_string_filled)
  then show "\<exists>s' v'. Ioctl (stub_os pf) s fd DRM_IOCTL_VERSION (arg_version v) = Ret (0, arg_version v', s')
      \<and> (v_major v', v_minor v', v_patchlevel v') = (3, 42, 0)
      \<and> v_name_len v' = of_nat (length ''amdgpu'') \<and> filled ''amdgpu'' (v_name v) (v_name v')
      \<and> v_date_len v' = of_nat (length ''20150101'') \<and> filled ''20150101'' (v_date v) (v_date v')
      \<and> v_desc_len v' = of_nat (length ''AMD GPU'') \<and> filled ''AMD GPU'' (v_desc v) (v_desc v')"
    by (simp add: stub_version_call stub_version_def)
qed

lemma stub_text [simp]: "c_text ''amdgpu''" "c_text ''20150101''" "c_text ''AMD GPU''"
  by (simp_all add: c_text_def)

section \<open>Properties\<close>

text \<open>C34. For every driver that keeps the promise of its version call, with names of less than 2^31
  characters and memory to be had, \<open>drmGetVersion\<close> returns the driver's version and copies of its three
  strings with their lengths, and has freed the structure and the three buffers the driver filled; but
  when the driver reports an empty string, for which no buffer is allocated, the function copies from a
  null pointer.\<close>

theorem get_version_reports:
  assumes "answers_version os ver n da de"
    and "c_text n" and "c_text da" and "c_text de" and "no_alloc_failure sc"
  shows "if n = [] \<or> da = [] \<or> de = [] then drmGetVersion os s fd sc = Fault
    else \<exists>s' sc'. drmGetVersion os s fd sc =
      Ret (Some (version_of ver n da de),
        [text_block (n @ [CHR 0x00]), text_block (da @ [CHR 0x00]), text_block (de @ [CHR 0x00]), version_structure],
        s', sc')"
proof -
  obtain sc0 where 0: "calloc_next sc = (True, sc0)" "no_alloc_failure sc0"
    by (rule calloc_next_no_failure [OF assms(5)])
  obtain s1 v1 where c1: "Ioctl os s fd DRM_IOCTL_VERSION (arg_version zero_version) = Ret (0, arg_version v1, s1)"
    and v1: "v_name_len v1 = of_nat (length n)" "v_name v1 = None" "v_date_len v1 = of_nat (length da)"
      "v_date v1 = None" "v_desc_len v1 = of_nat (length de)" "v_desc v1 = None"
    using assms(1) [unfolded answers_version_def, rule_format, of zero_version s fd]
    by (auto simp: room_for_def zero_version_def filled_def)
  obtain sc1 where 1: "version_room (of_nat (length n)) None sc0 = (text_buffer n, sc1)" "no_alloc_failure sc1"
    by (rule version_room_text [OF assms(2) 0(2)])
  obtain sc2 where 2: "version_room (of_nat (length da)) None sc1 = (text_buffer da, sc2)" "no_alloc_failure sc2"
    by (rule version_room_text [OF assms(3) 1(2)])
  obtain sc3 where 3: "version_room (of_nat (length de)) None sc2 = (text_buffer de, sc3)" "no_alloc_failure sc3"
    by (rule version_room_text [OF assms(4) 2(2)])
  define v where "v = v1\<lparr>v_name := text_buffer n, v_date := text_buffer da, v_desc := text_buffer de\<rparr>"
  have rooms: "version_rooms v1 sc0 = (v, sc3)" by (simp add: version_rooms_def v1 1 2 3 v_def)
  obtain s2 v2 where c2: "Ioctl os s1 fd DRM_IOCTL_VERSION (arg_version v) = Ret (0, arg_version v2, s2)"
    and ver: "(v_major v2, v_minor v2, v_patchlevel v2) = ver"
    and len: "v_name_len v2 = of_nat (length n)" "v_date_len v2 = of_nat (length da)" "v_desc_len v2 = of_nat (length de)"
    and fill: "filled n (text_buffer n) (v_name v2)" "filled da (text_buffer da) (v_date v2)"
      "filled de (text_buffer de) (v_desc v2)"
    using assms(1) [unfolded answers_version_def, rule_format, of v s1 fd] by (auto simp: v_def)
  define v3 where "v3 = v2\<lparr>v_name := text_answer n, v_date := text_answer da, v_desc := text_answer de\<rparr>"
  have ended: "terminate_version v2 = Ret v3"
    by (simp add: terminate_version_def len terminate_text [OF assms(2) fill(1)]
        terminate_text [OF assms(3) fill(2)] terminate_text [OF assms(4) fill(3)] v3_def)
  obtain sc4 where 4: "calloc_next sc3 = (True, sc4)" "no_alloc_failure sc4"
    by (rule calloc_next_no_failure [OF 3(2)])
  obtain sc5 where "drmCopyVersion v3 sc4 = (if n = [] \<or> da = [] \<or> de = [] then Fault
      else Ret (version_of (v_major v3, v_minor v3, v_patchlevel v3) n da de, sc5))"
    by (rule copy_version_text [OF assms(2-4) 4(2), of v3]) (simp_all add: v3_def len)
  moreover have "(v_major v3, v_minor v3, v_patchlevel v3) = ver" using ver by (simp add: v3_def)
  ultimately have copy: "drmCopyVersion v3 sc4 =
      (if n = [] \<or> da = [] \<or> de = [] then Fault else Ret (version_of ver n da de, sc5))" by simp
  have "drmGetVersion os s fd sc =
      bind_outcome (drmCopyVersion v3 sc4) (\<lambda>(d, sc). Ret (Some d, drmFreeKernelVersion (Some v3), s2, sc))"
    by (simp add: drmGetVersion_def 0 c1 rooms c2 version_result_def ended 4)
  moreover have "drmFreeKernelVersion (Some v3) = [text_block (n @ [CHR 0x00]), text_block (da @ [CHR 0x00]),
      text_block (de @ [CHR 0x00]), version_structure]" if "n \<noteq> []" "da \<noteq> []" "de \<noteq> []"
    using that by (simp add: drmFreeKernelVersion_def drmFree_def v3_def text_answer_def)
  ultimately show ?thesis by (simp add: copy)
qed

text \<open>A platform whose next file is its state.\<close>

definition demo_platform :: "int platform" where
  "demo_platform =
     \<lparr>create_area = (\<lambda>e sz. (Some 0x10000, e)), open_null = (\<lambda>e. (e, e + 1)), close_fd = (\<lambda>e fd. e)\<rparr>"

theorem get_version_reports_witness:
  "\<exists>s' sc'. drmGetVersion (stub_os demo_platform) (stub_start (5 :: int) 0) 3 [] =
     Ret (Some (version_of (3, 42, 0) ''amdgpu'' ''20150101'' ''AMD GPU''),
       [text_block (''amdgpu'' @ [CHR 0x00]), text_block (''20150101'' @ [CHR 0x00]),
        text_block (''AMD GPU'' @ [CHR 0x00]), version_structure], s', sc')"
proof -
  note version = get_version_reports [OF stub_answers_version stub_text no_alloc_failure_Nil]
  show ?thesis using version [of demo_platform "stub_start (5 :: int) 0" 3] by simp
qed

text \<open>The answers of two calls, through the contract of a driver.\<close>

lemma export_result:
  assumes "open_null pf (env s) = (new, e)"
  shows "drmPrimeHandleToFD (stub_os pf) s fd handle flags = Ret (0, Some new,
    s\<lparr>env := e, sFdMap := map_emplace (sFdMap s) new \<lparr>entry_type = gem, entry_handle = handle\<rparr>\<rparr>)"
proof -
  define s' where "s' = s\<lparr>env := e,
    sFdMap := map_emplace (sFdMap s) new \<lparr>entry_type = gem, entry_handle = handle\<rparr>\<rparr>"
  have call: "Ioctl (stub_os pf) s fd DRM_IOCTL_PRIME_HANDLE_TO_FD
      (arg_prime_handle \<lparr>prime_handle = handle, prime_flags = flags, prime_fd = -1\<rparr>)
      = Ret (0, arg_prime_handle \<lparr>prime_handle = handle, prime_flags = flags, prime_fd = new\<rparr>, s')"
    using assms by (simp add: stub_prime_calls stub_prime_export_def drmFdMapGemHandle_def
        drmFdMapHandle_def B_OK_def s'_def)
  have "(case b of arg_prime_handle h \<Rightarrow> Ret (prime_fd h) | _ \<Rightarrow> Fault)
      = Ret (case b of arg_prime_handle h \<Rightarrow> prime_fd h | _ \<Rightarrow> 0)" if "arg_kind b = 6" for b
    using that by (cases b) simp_all
  then show ?thesis
    unfolding drmPrimeHandleToFD_def s'_def [symmetric] by (subst stub.call_result [OF call, where
      field = "\<lambda>b. case b of arg_prime_handle h \<Rightarrow> prime_fd h | _ \<Rightarrow> 0"]) simp_all
qed

lemma cap_result:
  assumes "stub_get_cap pf s fd \<lparr>cap_capability = cap, cap_value = 0\<rparr> = Ret (0, arg_get_cap c, s')"
  shows "drmGetCap (stub_os pf) s fd cap = Ret (0, Some (cap_value c), s')"
proof -
  have call: "Ioctl (stub_os pf) s fd DRM_IOCTL_GET_CAP (arg_get_cap \<lparr>cap_capability = cap, cap_value = 0\<rparr>)
      = Ret (0, arg_get_cap c, s')"
    using assms by (simp add: stub_get_cap_call)
  have "(case b of arg_get_cap c \<Rightarrow> Ret (cap_value c) | _ \<Rightarrow> Fault)
      = Ret (case b of arg_get_cap c \<Rightarrow> cap_value c | _ \<Rightarrow> 0)" if "arg_kind b = 4" for b
    using that by (cases b) simp_all
  then show ?thesis unfolding drmGetCap_def
    by (subst stub.call_result [OF call, where
      field = "\<lambda>b. case b of arg_get_cap c \<Rightarrow> cap_value c | _ \<Rightarrow> 0"]) simp_all
qed

text \<open>C35. With the stub's driver, a buffer shared as a file cannot be taken back: opening the file for a
  handle whose number is not in use yet gives it out, and the import of that file looks the entry up,
  erases it and then reads the erased entry.\<close>

theorem prime_import_reads_erased_entry:
  assumes "open_null pf (env s) = (new, e)" and "sFdMap s new = None"
  shows "\<exists>s'. drmPrimeHandleToFD (stub_os pf) s fd handle flags = Ret (0, Some new, s')
    \<and> sFdMap s' new = Some \<lparr>entry_type = gem, entry_handle = handle\<rparr>
    \<and> drmPrimeFDToHandle (stub_os pf) s' fd new = Fault
    \<and> (\<exists>s''. drmSyncobjFDToHandle (stub_os pf) s' fd new = Ret (E_NOENT, None, s''))"
  using assms
  by (simp add: export_result drmPrimeFDToHandle_def drmSyncobjFDToHandle_def drm_call_def
      stub_prime_calls stub_syncobj_import_call stub_prime_import_def stub_syncobj_import_def
      drmFdUnmapGemHandle_def drmFdUnmapSyncobjHandle_def drmFdUnmapHandle_def map_emplace_def E_NOENT_def)

theorem prime_import_reads_erased_entry_witness:
  "\<exists>s'. drmPrimeHandleToFD (stub_os demo_platform) (stub_start (5 :: int) 0) 3 7 0 = Ret (0, Some 5, s')
     \<and> drmPrimeFDToHandle (stub_os demo_platform) s' 3 5 = Fault"
proof -
  have "open_null demo_platform (env (stub_start (5 :: int) 0)) = (5, 6)" "sFdMap (stub_start (5 :: int) 0) 5 = None"
    by (simp_all add: demo_platform_def stub_start_def)
  from prime_import_reads_erased_entry [OF this, of 3 7 0] show ?thesis by blast
qed

text \<open>Asking the stub for a capability it does not know does not fail: the case runs into the next
  one, so a file is opened, entered as the file of the buffer whose handle is the low half of the
  capability, and its number is returned as the value.\<close>

theorem get_cap_unknown_opens_file:
  assumes "cap \<noteq> DRM_CAP_SYNCOBJ" and "cap \<noteq> DRM_CAP_SYNCOBJ_TIMELINE"
    and "open_null pf (env s) = (new, e)" and "sFdMap s new = None"
  shows "\<exists>s'. drmGetCap (stub_os pf) s fd cap = Ret (0, Some (ucast (word_of_int new :: u32)), s')
    \<and> env s' = e \<and> sFdMap s' = (sFdMap s)(new \<mapsto> \<lparr>entry_type = gem, entry_handle = ucast cap\<rparr>)"
  using assms cap_result [of pf s fd cap]
  by (simp add: stub_get_cap_def cap_as_prime_def drmFdMapGemHandle_def drmFdMapHandle_def map_emplace_def
      B_OK_def)

theorem get_cap_unknown_opens_file_witness:
  "\<exists>s'. drmGetCap (stub_os demo_platform) (stub_start (5 :: int) 0) 3 0x5 = Ret (0, Some 5, s')
     \<and> sFdMap s' 5 = Some \<lparr>entry_type = gem, entry_handle = 5\<rparr>"
proof -
  have "open_null demo_platform (env (stub_start (5 :: int) 0)) = (5, 6)" "sFdMap (stub_start (5 :: int) 0) 5 = None"
    by (simp_all add: demo_platform_def stub_start_def)
  moreover have "(0x5 :: u64) \<noteq> DRM_CAP_SYNCOBJ" "(0x5 :: u64) \<noteq> DRM_CAP_SYNCOBJ_TIMELINE"
    by (simp_all add: DRM_CAP_SYNCOBJ_def DRM_CAP_SYNCOBJ_TIMELINE_def)
  ultimately show ?thesis using get_cap_unknown_opens_file [of "0x5" demo_platform "stub_start (5 :: int) 0" 5 6 3] by auto
qed

end
