(* ===== verification/StubRuns.thy ===== *)
theory StubRuns imports Stub begin

text \<open>
  What holds of the stub's tables after any calls: the mapping table stays in the order of its keys,
  so the lookup by address finds the mapping in front of it, and the handles of buffers are fresh as
  long as the counter of 32 bits has not wrapped.
\<close>

section \<open>The mapping table\<close>

definition keys_sorted :: "(u64 \<times> 'v) list \<Rightarrow> bool" where
  "keys_sorted xs \<longleftrightarrow> sorted_wrt (<) (map fst xs)"

lemma keys_sorted_simps [simp]:
  "keys_sorted []"
  "keys_sorted ((k, v) # xs) \<longleftrightarrow> (\<forall>a\<in>fst ` set xs. k < a) \<and> keys_sorted xs"
  by (simp_all add: keys_sorted_def)

lemma keys_sorted_emplace [simp]: "fst ` set (sorted_emplace k v xs) = insert k (fst ` set xs)"
  by (induction k v xs rule: sorted_emplace.induct) auto

lemma keys_sorted_append:
  "keys_sorted (xs @ ys) \<longleftrightarrow>
     keys_sorted xs \<and> keys_sorted ys \<and> (\<forall>a\<in>fst ` set xs. \<forall>b\<in>fst ` set ys. a < b)"
  by (auto simp: keys_sorted_def sorted_wrt_append)

lemma sorted_emplace_sorted: "keys_sorted xs \<Longrightarrow> keys_sorted (sorted_emplace k v xs)"
  by (induction k v xs rule: sorted_emplace.induct) auto

lemma sorted_emplace_map:
  "keys_sorted xs \<Longrightarrow> map_of (sorted_emplace k v xs) = map_emplace (map_of xs) k v"
proof (induction k v xs rule: sorted_emplace.induct)
  case (2 k v a w xs)
  have "map_of xs k = None" if "k < a"
    using that 2(2) by (auto simp: map_of_eq_None_iff)
  with 2 show ?case by (auto simp: map_emplace_def fun_eq_iff)
qed (simp add: map_emplace_def)

lemma filter_keys_sorted: "keys_sorted xs \<Longrightarrow> keys_sorted (filter P xs)"
  by (induction xs) auto

lemma filter_keys_map: "map_of (filter (\<lambda>(k, _). k \<noteq> a) xs) = (map_of xs)(a := None)"
  by (induction xs) (auto simp: fun_eq_iff)

text \<open>
  What the lookup is meant to be: the mapping with the greatest key that is not behind the address.
\<close>

lemma lookup_found:
  assumes "keys_sorted (gGpuBufferMappingTable s)" and "(k, m) \<in> set (gGpuBufferMappingTable s)"
    and "k \<le> a" and "\<forall>b\<in>fst ` set (gGpuBufferMappingTable s). \<not> (k < b \<and> b \<le> a)"
  shows "ThisMappedGpuBuffer s a =
    Ret (if a < k + map_size m then Some (map_buffer m, map_offset m + a - k) else None)"
proof -
  obtain xs ys where t: "gGpuBufferMappingTable s = xs @ (k, m) # ys"
    using assms(2) by (meson split_list)
  have "\<forall>x\<in>set xs. fst x \<le> a" using assms(1,3) by (force simp: t keys_sorted_append)
  moreover have "\<not> fst y \<le> a" if "y \<in> set ys" for y
    using assms(1,4) that by (auto simp: t keys_sorted_append)
  ultimately have "takeWhile (\<lambda>(k, _). k \<le> a) (gGpuBufferMappingTable s) = xs @ [(k, m)]"
    using assms(3) by (cases ys) (auto simp: t takeWhile_append2 split_beta)
  then show ?thesis by (simp add: ThisMappedGpuBuffer_def)
qed

section \<open>The invariant\<close>

text \<open>After \<open>n\<close> calls the handles given out are below the counter, which is at most \<open>n + 1\<close>.\<close>

definition stub_ok :: "nat \<Rightarrow> 'e stub_state \<Rightarrow> bool" where
  "stub_ok n s \<longleftrightarrow>
     keys_sorted (gGpuBufferMappingTable s) \<and> unat (gLastGpuBufferHandleTable s) \<le> n + 1
     \<and> (\<forall>h\<in>dom (gGpuBufferHandleTable s). h < gLastGpuBufferHandleTable s)"

lemma stub_ok_frame [simp]:
  "stub_ok n (s\<lparr>env := e\<rparr>) = stub_ok n s" "stub_ok n (s\<lparr>sFdMap := fm\<rparr>) = stub_ok n s"
  "stub_ok n (s\<lparr>ctx_counter := c\<rparr>) = stub_ok n s" "stub_ok n (s\<lparr>cs_counter := q\<rparr>) = stub_ok n s"
  "stub_ok n (s\<lparr>syncobj_counter := y\<rparr>) = stub_ok n s"
  by (simp_all add: stub_ok_def)

lemma stub_ok_Suc [intro]: "stub_ok n s \<Longrightarrow> stub_ok (Suc n) s"
  by (simp add: stub_ok_def)

lemma stub_ok_start: "stub_ok 0 (stub_start e err)"
  by (simp add: stub_ok_def stub_start_def)

lemma stub_ok_fresh: "stub_ok n s \<Longrightarrow> gGpuBufferHandleTable s (gLastGpuBufferHandleTable s) = None"
  by (force simp: stub_ok_def dom_def)

lemma next_handle:
  assumes "stub_ok n s" and "n + 2 < 2 ^ 32"
  shows "unat (gLastGpuBufferHandleTable s + 1) = unat (gLastGpuBufferHandleTable s) + 1"
proof -
  have "unat (gLastGpuBufferHandleTable s) + unat (1 :: u32) < 2 ^ LENGTH(32)"
    using assms by (simp add: stub_ok_def)
  from unat_add_less [OF this] show ?thesis by simp
qed

lemma CreateGpuBuffer_ok:
  assumes "stub_ok n s" and "n + 2 < 2 ^ 32" and "CreateGpuBuffer pf s sz al domains fl = (r, h, s')"
  shows "stub_ok (Suc n) s'"
proof (cases "create_area pf (env s) sz")
  case (Pair area e)
  show ?thesis
  proof (cases area)
    case None
    with Pair assms show ?thesis by (auto simp: CreateGpuBuffer_def)
  next
    case (Some adr)
    have next_less: "h < gLastGpuBufferHandleTable s + 1" if "h \<le> gLastGpuBufferHandleTable s" for h
      using that next_handle [OF assms(1,2)] by (simp add: word_le_nat_alt word_less_nat_alt)
    with Pair Some assms(1,3) next_handle [OF assms(1,2)] show ?thesis
      by (auto simp: CreateGpuBuffer_def Let_def stub_ok_def map_emplace_def domIff less_imp_le
          split: if_split_asm)
  qed
qed

lemma CloseGpuBuffer_ok: "stub_ok n s \<Longrightarrow> CloseGpuBuffer s h = (r, s') \<Longrightarrow> stub_ok n s'"
  by (auto simp: CloseGpuBuffer_def stub_ok_def split: option.splits if_splits)

lemma MapGpuBuffer_ok: "stub_ok n s \<Longrightarrow> MapGpuBuffer s h fl adr off sz = (r, s') \<Longrightarrow> stub_ok n s'"
  by (auto simp: MapGpuBuffer_def stub_ok_def sorted_emplace_sorted split: option.splits)

lemma UnmapGpuBuffer_ok: "stub_ok n s \<Longrightarrow> UnmapGpuBuffer s h fl adr off sz = (r, s') \<Longrightarrow> stub_ok n s'"
  by (auto simp: UnmapGpuBuffer_def stub_ok_def filter_keys_sorted split: if_splits)

lemmas stub_tables_ok = CreateGpuBuffer_ok CloseGpuBuffer_ok MapGpuBuffer_ok UnmapGpuBuffer_ok

lemma file_mapper_ok:
  "stub_ok n s \<Longrightarrow> drmFdMapHandle pf s dfd t h = (r, fd, s') \<Longrightarrow> stub_ok n s'"
  "stub_ok n s \<Longrightarrow> drmFdUnmapHandle s dfd t fd = Ret (r, out, s') \<Longrightarrow> stub_ok n s'"
  by (auto simp: drmFdMapHandle_def drmFdUnmapHandle_def Let_def split: prod.splits option.splits if_splits)

lemma HandleAmdgpuIoctl_ok:
  assumes "stub_ok n s" and "n + 2 < 2 ^ 32" and "HandleAmdgpuIoctl pf s fd request a = Ret (r, a', s')"
  shows "stub_ok (Suc n) s'"
  using assms(1,3) unfolding HandleAmdgpuIoctl_def Let_def
  by (auto simp: stub_ctx_def stub_gem_va_def stub_gem_create_def stub_cs_def
      dest: MapGpuBuffer_ok UnmapGpuBuffer_ok CreateGpuBuffer_ok [OF assms(1,2)]
      split: if_split_asm drm_arg.split_asm drm_amdgpu_ctx.split_asm drm_amdgpu_gem_create.split_asm
        drm_amdgpu_gem_mmap.split_asm drm_amdgpu_cs.split_asm prod.split_asm option.split_asm
      elim!: bind_outcome_RetE)

lemma drmIoctlStub_ok:
  assumes "stub_ok n s" and "n + 2 < 2 ^ 32" and "drmIoctlStub pf s fd request a = Ret (r, a', s')"
  shows "stub_ok (Suc n) s'"
  using assms(1,3) unfolding drmIoctlStub_def Let_def
  by (auto simp: stub_calls drmFdMapGemHandle_def drmFdUnmapGemHandle_def drmFdMapSyncobjHandle_def
        drmFdUnmapSyncobjHandle_def
      dest: HandleAmdgpuIoctl_ok [OF assms(1,2)] file_mapper_ok CloseGpuBuffer_ok
      split: if_split_asm drm_arg.split_asm prod.split_asm option.split_asm
      elim!: bind_outcome_RetE)

section \<open>Runs\<close>

text \<open>The states after \<open>n\<close> calls of the driver that return, from a freshly loaded library.\<close>

inductive stub_reach :: "'e platform \<Rightarrow> nat \<Rightarrow> 'e stub_state \<Rightarrow> bool" for pf where
  start: "stub_reach pf 0 (stub_start e err)"
| call: "stub_reach pf n s \<Longrightarrow> Ioctl (stub_os pf) s fd request a = Ret (r, a', s') \<Longrightarrow>
    stub_reach pf (Suc n) s'"

lemma stub_reach_ok: "stub_reach pf n s \<Longrightarrow> n + 1 < 2 ^ 32 \<Longrightarrow> stub_ok n s"
proof (induction rule: stub_reach.induct)
  case (call n s fd request a r a' s')
  then show ?case using drmIoctlStub_ok [of n s pf fd request a r a' s'] by simp
qed (rule stub_ok_start)

lemma stub_create_command:
  "drmCommandWriteRead (stub_os pf) s fd DRM_AMDGPU_GEM_CREATE (arg_gem_create (gem_create_in sz al domains fl)) len
     = bind_outcome (stub_gem_create pf s sz al domains fl)
         (\<lambda>(ret, a, s'). Ret (if ret \<noteq> 0 then st_errno s' else 0, a, s'))"
  unfolding drmCommandWriteRead_def drm_command_def stub_Ioctl
  by (simp add: drmIoctlStub_def HandleAmdgpuIoctl_def Let_def DRM_IOC_def amdgpu_requests)

lemma stub_va_command:
  "drmCommandWriteRead (stub_os pf) s fd DRM_AMDGPU_GEM_VA (arg_gem_va a) len
     = bind_outcome (stub_gem_va s a)
         (\<lambda>(ret, a, s'). Ret (if ret \<noteq> 0 then st_errno s' else 0, a, s'))"
  unfolding drmCommandWriteRead_def drm_command_def stub_Ioctl
  by (simp add: drmIoctlStub_def HandleAmdgpuIoctl_def Let_def DRM_IOC_def amdgpu_requests)

lemma stub_close_call:
  "drmCloseBufferHandle (stub_os pf) s fd h = (case CloseGpuBuffer s h of (r, s') \<Rightarrow> Ret (r, s'))"
  by (simp add: drmCloseBufferHandle_def drm_send_def drmIoctlStub_def Let_def DRM_COMMAND_BASE_def
      split: prod.splits) (simp add: drm_requests split: prod.splits)

lemma emplace_filter:
  assumes "k \<notin> fst ` set xs"
  shows "filter (\<lambda>(k', _). k' \<noteq> k) (sorted_emplace k v xs) = xs"
proof -
  have "filter (\<lambda>(k', _). k' \<noteq> k) xs = xs" if "k \<notin> fst ` set xs" for xs :: "(u64 \<times> 'a) list"
    using that by (induction xs) auto
  then show ?thesis using assms by (induction k v xs rule: sorted_emplace.induct) auto
qed

lemma emplace_present: "k \<in> fst ` set xs \<Longrightarrow> keys_sorted xs \<Longrightarrow> sorted_emplace k v xs = xs"
  by (induction k v xs rule: sorted_emplace.induct) auto

lemma emplace_member: "k \<notin> fst ` set xs \<Longrightarrow> (k, v) \<in> set (sorted_emplace k v xs)"
  by (induction k v xs rule: sorted_emplace.induct) auto

section \<open>Properties\<close>

text \<open>C36. After any number of calls below 2^32 - 1, creating a buffer through the driver gives out a handle
  that no open buffer has and enters the new buffer under it and nothing else; mapping the handle finds
  the buffer's memory, and closing the handle leaves the open buffers as they were.\<close>

theorem stub_buffers_fresh:
  assumes "stub_reach pf n s" and "n + 1 < 2 ^ 32" and "create_area pf (env s) sz = (Some adr, e)"
  shows "\<exists>h s' s''.
    drmCommandWriteRead (stub_os pf) s fd DRM_AMDGPU_GEM_CREATE (arg_gem_create (gem_create_in sz al domains fl)) len
      = Ret (0, arg_gem_create (gem_create_out h), s')
    \<and> gGpuBufferHandleTable s h = None
    \<and> gGpuBufferHandleTable s' = (gGpuBufferHandleTable s)(h \<mapsto>
        \<lparr>buf_adr = adr, buf_size = sz, buf_alignment = al, buf_domains = domains, buf_flags = fl\<rparr>)
    \<and> drmMmapStub s' (ucast h) = Some adr
    \<and> drmCloseBufferHandle (stub_os pf) s' fd h = Ret (0, s'')
    \<and> gGpuBufferHandleTable s'' = gGpuBufferHandleTable s"
proof -
  have fresh: "gGpuBufferHandleTable s (gLastGpuBufferHandleTable s) = None"
    by (rule stub_ok_fresh [OF stub_reach_ok [OF assms(1,2)]])
  have narrow: "ucast (ucast h :: u64) = h" for h :: u32
    by (rule bit_word_eqI) (simp add: bit_unsigned_iff)
  from fresh have "(gGpuBufferHandleTable s)(gLastGpuBufferHandleTable s := None) = gGpuBufferHandleTable s"
    by (simp add: fun_eq_iff)
  with fresh assms(3) show ?thesis
    by (simp add: stub_create_command stub_gem_create_def CreateGpuBuffer_def Let_def B_OK_def map_emplace_def
        stub_close_call CloseGpuBuffer_def drmMmapStub_def ThisGpuBuffer_def narrow)
qed

theorem stub_buffers_fresh_witness:
  "\<exists>h s'. drmCommandWriteRead (stub_os demo_platform) (stub_start (5 :: int) 0) 3 DRM_AMDGPU_GEM_CREATE
      (arg_gem_create (gem_create_in 0x1000 0 2 0)) 32 = Ret (0, arg_gem_create (gem_create_out h), s')
    \<and> drmMmapStub s' (ucast h) = Some 0x10000"
proof -
  have area: "create_area demo_platform (env (stub_start (5 :: int) 0)) 0x1000 = (Some 0x10000, 5)"
    by (simp add: demo_platform_def stub_start_def)
  have few: "(0 :: nat) + 1 < 2 ^ 32" by simp
  from stub_buffers_fresh [OF stub_reach.start few area, of 3 0 2 0 32] show ?thesis by blast
qed

text \<open>C37. After any number of calls below 2^32 - 1, mapping a buffer at an address where no mapping
  starts makes every address from there to the end of the mapping (start plus size, at 64 bits, so that a
  mapping whose end wraps has no such address), up to the next mapping, lead to the buffer at the
  offset it has from the start plus that of the mapping, and unmapping the address restores the table. Mapping at an address that
  starts a mapping already reports success and changes nothing.\<close>

theorem stub_va_round_trip:
  assumes "stub_reach pf n s" and "n + 1 < 2 ^ 32"
    and "va_operation a = AMDGPU_VA_OP_MAP" and "ThisGpuBuffer s (va_handle a) = Some buf"
  shows "\<exists>s' s''.
    drmCommandWriteRead (stub_os pf) s fd DRM_AMDGPU_GEM_VA (arg_gem_va a) len = Ret (0, arg_gem_va a, s')
    \<and> (if va_address a \<in> fst ` set (gGpuBufferMappingTable s)
        then gGpuBufferMappingTable s' = gGpuBufferMappingTable s
        else (\<forall>x. va_address a \<le> x \<and> x < va_address a + va_map_size a
                \<and> (\<forall>b\<in>fst ` set (gGpuBufferMappingTable s). \<not> (va_address a < b \<and> b \<le> x)) \<longrightarrow>
              ThisMappedGpuBuffer s' x = Ret (Some (buf, va_offset_in_bo a + x - va_address a)))
          \<and> drmCommandWriteRead (stub_os pf) s' fd DRM_AMDGPU_GEM_VA
              (arg_gem_va (a\<lparr>va_operation := AMDGPU_VA_OP_UNMAP\<rparr>)) len
              = Ret (0, arg_gem_va (a\<lparr>va_operation := AMDGPU_VA_OP_UNMAP\<rparr>), s'')
          \<and> gGpuBufferMappingTable s'' = gGpuBufferMappingTable s)"
proof -
  define t where "t = gGpuBufferMappingTable s"
  define m where "m = \<lparr>map_buffer = buf, map_offset = va_offset_in_bo a, map_size = va_map_size a\<rparr>"
  define s' where "s' = s\<lparr>gGpuBufferMappingTable := sorted_emplace (va_address a) m t\<rparr>"
  have sorted: "keys_sorted t"
    using stub_reach_ok [OF assms(1,2)] by (simp add: stub_ok_def t_def)
  have mapped: "drmCommandWriteRead (stub_os pf) s fd DRM_AMDGPU_GEM_VA (arg_gem_va a) len = Ret (0, arg_gem_va a, s')"
    using assms(3,4) by (simp add: stub_va_command stub_gem_va_def MapGpuBuffer_def B_OK_def s'_def m_def t_def)
  show ?thesis
  proof (cases "va_address a \<in> fst ` set t")
    case True
    with mapped emplace_present [OF True sorted] show ?thesis by (auto simp: s'_def t_def)
  next
    case False
    have "ThisMappedGpuBuffer s' x = Ret (Some (buf, va_offset_in_bo a + x - va_address a))"
      if "va_address a \<le> x" "x < va_address a + va_map_size a"
        "\<forall>b\<in>fst ` set t. \<not> (va_address a < b \<and> b \<le> x)" for x
      using lookup_found [of s' "va_address a" m x] sorted_emplace_sorted [OF sorted] that
        emplace_member [OF False] by (simp add: s'_def m_def)
    moreover have "drmCommandWriteRead (stub_os pf) s' fd DRM_AMDGPU_GEM_VA
        (arg_gem_va (a\<lparr>va_operation := AMDGPU_VA_OP_UNMAP\<rparr>)) len
        = Ret (0, arg_gem_va (a\<lparr>va_operation := AMDGPU_VA_OP_UNMAP\<rparr>), s'\<lparr>gGpuBufferMappingTable := t\<rparr>)"
      by (simp add: stub_va_command stub_gem_va_def UnmapGpuBuffer_def B_OK_def s'_def
          AMDGPU_VA_OP_MAP_def AMDGPU_VA_OP_UNMAP_def emplace_filter [OF False])
    ultimately show ?thesis using mapped False by (auto simp: t_def)
  qed
qed

theorem stub_va_round_trip_witness:
  "\<exists>s s' a. stub_reach demo_platform 1 s
    \<and> drmCommandWriteRead (stub_os demo_platform) s 3 DRM_AMDGPU_GEM_VA (arg_gem_va a) 40 = Ret (0, arg_gem_va a, s')
    \<and> va_address a = 0x4000 \<and> (\<exists>buf. ThisMappedGpuBuffer s' 0x4010 = Ret (Some (buf, 0x110)))"
proof -
  define buf where "buf =
    \<lparr>buf_adr = 0x10000, buf_size = 0x1000, buf_alignment = 0, buf_domains = 2, buf_flags = 0\<rparr>"
  define s where "s = (stub_start (5 :: int) 0)
    \<lparr>gLastGpuBufferHandleTable := 2, gGpuBufferHandleTable := [1 \<mapsto> buf]\<rparr>"
  define a where "a = \<lparr>va_handle = 1, va_operation = AMDGPU_VA_OP_MAP, va_op_flags = 0, va_address = 0x4000,
    va_offset_in_bo = 0x100, va_map_size = 0x1000\<rparr>"
  have "Ioctl (stub_os demo_platform) (stub_start 5 0) 3
      (DRM_IOC IOC_INOUT (DRM_COMMAND_BASE + DRM_AMDGPU_GEM_CREATE) 32)
      (arg_gem_create (gem_create_in 0x1000 0 2 0)) = Ret (0, arg_gem_create (gem_create_out 1), s)"
    by (simp add: drmIoctlStub_def HandleAmdgpuIoctl_def Let_def DRM_IOC_def amdgpu_requests
        stub_gem_create_def CreateGpuBuffer_def demo_platform_def s_def buf_def stub_start_def B_OK_def
        map_emplace_def)
  from stub_reach.call [OF stub_reach.start this] have r: "stub_reach demo_platform 1 s" by simp
  have few: "(1 :: nat) + 1 < 2 ^ 32" by simp
  have "va_operation a = AMDGPU_VA_OP_MAP" "ThisGpuBuffer s (va_handle a) = Some buf"
    by (simp_all add: a_def s_def ThisGpuBuffer_def)
  from stub_va_round_trip [OF r few this, of 3 40]
  obtain s' where "drmCommandWriteRead (stub_os demo_platform) s 3 DRM_AMDGPU_GEM_VA (arg_gem_va a) 40 = Ret (0, arg_gem_va a, s')"
      "ThisMappedGpuBuffer s' 0x4010 = Ret (Some (buf, 0x110))"
    by (auto simp: a_def s_def stub_start_def)
  with r show ?thesis by (intro exI [of _ s] exI [of _ s'] exI [of _ a]) (auto simp: a_def)
qed

end
