(* ===== verification/DrmDevice.thy ===== *)
theory DrmDevice imports Drm AsicId begin

text \<open>
  Finding devices, \<open>libdrm_device.cpp\<close> with \<open>Poke.cpp\<close>: the entries of the graphics directory carry
  their PCI address in their names, which is looked up in the system's list of PCI devices. The
  directory, \<open>fstat\<close> and the calls of the poke driver are parameters: a directory is the list of its
  entries with what \<open>GetStat\<close> says of each. \<open>malloc\<close> and \<open>calloc\<close> take their outcomes from a script;
  a write past the end of a block is a fault. The status codes of the platform are negative.
\<close>

section \<open>The poke driver\<close>

record pci_info =
  pci_vendor_id :: u16
  pci_device_id :: u16
  pci_bus :: u8
  pci_device :: u8
  pci_function :: u8

text \<open>\<open>ioctl(POKE_GET_NTH_PCI_INFO)\<close>: its result, \<open>errno\<close>, the status and the information stored.\<close>

type_synonym poke_call = "u8 \<Rightarrow> int \<times> int \<times> int \<times> pci_info"

definition GetNthPciInfo :: "poke_call \<Rightarrow> u32 \<Rightarrow> pci_info \<Rightarrow> int \<times> pci_info" where
  "GetNthPciInfo poke index info =
     (if 255 < index then (E_NOENT, info)
      else (case poke (ucast index) of
              (res, err, status, info') \<Rightarrow> (if res < 0 then err else status, info')))"

text \<open>\<open>ioctl(POKE_GET_PHYSICAL_ADDRESS)\<close> of a size and an address: its result, \<open>errno\<close> and the address.\<close>

definition GetPhysicalAddress :: "(u64 \<Rightarrow> u64 \<Rightarrow> int \<times> int \<times> u64) \<Rightarrow> u64 \<Rightarrow> u64 \<Rightarrow> int \<times> u64 option" where
  "GetPhysicalAddress poke address sz =
     (case poke sz address of
        (res, err, physical) \<Rightarrow> if res < 0 then (err, None) else (res, Some physical))"

lemma GetNthPciInfo_less:
  assumes "(res, info') = GetNthPciInfo poke index info" and "\<not> res < 0"
  shows "256 - unat (index + 1) < 256 - unat index"
proof -
  have "\<not> 255 < index" using assms by (auto simp: GetNthPciInfo_def E_NOENT_def split: if_split_asm)
  then have le: "unat index \<le> 255" by (simp add: word_less_nat_alt)
  then have "unat (index + 1) = unat index + 1" by (simp add: unat_add_less)
  with le show ?thesis by simp
qed

text \<open>The endless loop ends at the latest with the index the wrapper refuses.\<close>

function LookupPciDevice :: "poke_call \<Rightarrow> u8 \<Rightarrow> u8 \<Rightarrow> u8 \<Rightarrow> u32 \<Rightarrow> pci_info \<Rightarrow> int \<times> pci_info" where
  "LookupPciDevice poke bus dev func index info =
     (case GetNthPciInfo poke index info of
        (res, info') \<Rightarrow>
          if res < 0 then (res, info')
          else if pci_bus info' = bus \<and> pci_device info' = dev \<and> pci_function info' = func then (0, info')
          else LookupPciDevice poke bus dev func (index + 1) info')"
  by pat_completeness auto

termination
  by (relation "measure (\<lambda>(poke, bus, dev, func, index, info). 256 - unat index)")
    (simp_all add: GetNthPciInfo_less)

declare LookupPciDevice.simps [simp del]

section \<open>Names\<close>

definition sDevPath :: string where "sDevPath = ''/dev/graphics/''"

text \<open>Two hexadecimal digits of the name; \<open>strtol\<close> has to use both.\<close>

definition hex_byte :: "string \<Rightarrow> u8 option" where
  "hex_byte part = (case strtol16 part of (v, rest) \<Rightarrow> if rest = [] then Some (word_of_int v) else None)"

text \<open>The bus and the device; the function is parsed into a parameter passed by value.\<close>

definition ParseDevPciAdr :: "string \<Rightarrow> (u8 \<times> u8) option" where
  "ParseDevPciAdr nm =
     (let n = length nm
      in if n \<le> 7 \<or> nm ! (n - 7) \<noteq> CHR ''_'' then None
         else
           (case hex_byte (take 2 (drop (n - 6) nm)) of
              None \<Rightarrow> None
            | Some bus \<Rightarrow>
                (case hex_byte (take 2 (drop (n - 4) nm)) of
                   None \<Rightarrow> None
                 | Some dev \<Rightarrow>
                     (case hex_byte (take 2 (drop (n - 2) nm)) of None \<Rightarrow> None | Some _ \<Rightarrow> Some (bus, dev)))))"

section \<open>Devices\<close>

definition DRM_NODE_RENDER :: nat where "DRM_NODE_RENDER = 2"
definition DRM_NODE_MAX :: nat where "DRM_NODE_MAX = 3"

definition drmGetNodeTypeFromFd :: "int \<Rightarrow> nat" where
  "drmGetNodeTypeFromFd fd = DRM_NODE_RENDER"

definition drmGetPrimaryDeviceNameFromFd :: "int \<Rightarrow> alloc_script \<Rightarrow> string option \<times> alloc_script" where
  "drmGetPrimaryDeviceNameFromFd fd sc =
     (case calloc_next sc of (ok, sc') \<Rightarrow> (if ok then Some '''' else None, sc'))"

definition drmGetMaxNodeName :: nat where "drmGetMaxNodeName = 256"

text \<open>
  One zeroed block holds the structure, the pointers to the names, room for the names, and the two
  structures about the bus. Of the node's name as many characters as the room has are copied.
\<close>

definition drmDeviceAlloc ::
    "nat \<Rightarrow> string \<Rightarrow> nat \<Rightarrow> nat \<Rightarrow> alloc_script \<Rightarrow> drmDevice option \<times> alloc_script" where
  "drmDeviceAlloc type node bus_size device_size sc =
     (let max_node_length = align_nat drmGetMaxNodeName 8
      in case calloc_next sc of
           (False, sc) \<Rightarrow> (None, sc)
         | (True, sc) \<Rightarrow>
             (Some \<lparr>nodes = (replicate DRM_NODE_MAX '''')[type := take max_node_length node],
                    available_nodes = push_bit type 1, bustype = 0,
                    businfo = Some (replicate bus_size 0),
                    deviceinfo = Some (flat_info (replicate device_size 0))\<rparr>, sc))"

text \<open>The two structures in memory, with their padding: 6 and 10 bytes.\<close>

definition pci_bus_bytes :: "pci_info \<Rightarrow> u8 list" where
  "pci_bus_bytes info = [0, 0, pci_bus info, pci_device info, pci_function info, 0]"

definition pci_device_bytes :: "pci_info \<Rightarrow> u8 list" where
  "pci_device_bytes info =
     le_bytes 2 (unat (pci_vendor_id info)) @ le_bytes 2 (unat (pci_device_id info)) @ replicate 6 0"

text \<open>The path is printed into an array of MAXPATHLEN, 1024, characters.\<close>

definition drmGetDeviceInt ::
    "poke_call \<Rightarrow> string \<Rightarrow> alloc_script \<Rightarrow> (int \<times> drmDevice option \<times> alloc_script) outcome" where
  "drmGetDeviceInt poke nm sc =
     (case ParseDevPciAdr nm of
        None \<Rightarrow> Ret (E_NOENT, None, sc)
      | Some (bus, dev) \<Rightarrow>
          (case LookupPciDevice poke bus dev 0 0
              \<lparr>pci_vendor_id = 0, pci_device_id = 0, pci_bus = bus, pci_device = dev, pci_function = 0\<rparr> of
             (res, info) \<Rightarrow>
               if res < 0 then Ret (res, None, sc)
               else if 1024 \<le> length (sDevPath @ nm) then Fault
               else
                 (case drmDeviceAlloc DRM_NODE_RENDER (sDevPath @ nm) 6 10 sc of
                    (None, sc) \<Rightarrow> Ret (B_NO_MEMORY, None, sc)
                  | (Some d, sc) \<Rightarrow>
                      Ret (0, Some (d\<lparr>businfo := Some (pci_bus_bytes info),
                                     deviceinfo := Some (flat_info (pci_device_bytes info))\<rparr>), sc))))"

text \<open>
  The loop of \<open>drmGetDevices2\<close> over the entries left: the array is the caller's, \<open>None\<close> for a null
  pointer; the count and the array after the loop.
\<close>

fun devices_loop ::
    "poke_call \<Rightarrow> string list \<Rightarrow> nat \<Rightarrow> nat \<Rightarrow> drmDevice option list option \<Rightarrow> alloc_script
     \<Rightarrow> (nat \<times> drmDevice option list option \<times> alloc_script) outcome" where
  "devices_loop poke [] m cnt arr sc = Ret (cnt, arr, sc)"
| "devices_loop poke (nm # nms) m cnt arr sc =
     (if \<not> cnt < m then Ret (cnt, arr, sc)
      else
        (case arr of
           None \<Rightarrow> devices_loop poke nms m cnt arr sc
         | Some ds \<Rightarrow>
             if cnt < length ds then
               bind_outcome (drmGetDeviceInt poke nm sc) (\<lambda>(r, d, sc).
                 devices_loop poke nms m (if d \<noteq> None then cnt + 1 else cnt) (Some (ds[cnt := d])) sc)
             else Fault))"

definition drmGetDevices2 ::
    "poke_call \<Rightarrow> string list \<Rightarrow> u32 \<Rightarrow> drmDevice option list option \<Rightarrow> int \<Rightarrow> alloc_script
     \<Rightarrow> (nat \<times> drmDevice option list option \<times> alloc_script) outcome" where
  "drmGetDevices2 poke dir flags devices max_devices sc =
     devices_loop poke dir (nat max_devices) 0 devices sc"

text \<open>What is freed, in order.\<close>

datatype freed = freed_string string | freed_strings | freed_device

definition free_compatible :: "drm_deviceinfo option \<Rightarrow> freed list outcome" where
  "free_compatible di =
     (case di of
        None \<Rightarrow> Ret []
      | Some (flat_info _) \<Rightarrow> Fault
      | Some (compatible_info None) \<Rightarrow> Ret []
      | Some (compatible_info (Some strs)) \<Rightarrow> Ret (map freed_string strs @ [freed_strings]))"

definition drmFreePlatformDevice :: "drmDevice \<Rightarrow> freed list outcome" where
  "drmFreePlatformDevice d = free_compatible (deviceinfo d)"

definition drmFreeHost1xDevice :: "drmDevice \<Rightarrow> freed list outcome" where
  "drmFreeHost1xDevice d = free_compatible (deviceinfo d)"

text \<open>\<open>None\<close> is a null pointer to the pointer; the pointer itself is cleared.\<close>

definition drmFreeDevice :: "drmDevice option option \<Rightarrow> (freed list \<times> drmDevice option option) outcome" where
  "drmFreeDevice device =
     (case device of
        None \<Rightarrow> Ret ([], None)
      | Some None \<Rightarrow> Ret ([], Some None)
      | Some (Some d) \<Rightarrow>
          bind_outcome
            (if bustype d = DRM_BUS_PLATFORM then drmFreePlatformDevice d
             else if bustype d = DRM_BUS_HOST1X then drmFreeHost1xDevice d
             else Ret []) (\<lambda>fs. Ret (fs @ [freed_device], Some None)))"

fun free_loop :: "drmDevice option list \<Rightarrow> freed list \<Rightarrow> (freed list \<times> drmDevice option list) outcome" where
  "free_loop [] fs = Ret (fs, [])"
| "free_loop (d # ds) fs =
     bind_outcome (drmFreeDevice (Some d)) (\<lambda>(gs, _).
     bind_outcome (free_loop ds (fs @ gs)) (\<lambda>(fs, ds). Ret (fs, None # ds)))"

definition drmFreeDevices ::
    "drmDevice option list option \<Rightarrow> int \<Rightarrow> (freed list \<times> drmDevice option list option) outcome" where
  "drmFreeDevices devices n =
     (case devices of
        None \<Rightarrow> Ret ([], None)
      | Some ds \<Rightarrow>
          if nat n \<le> length ds then
            bind_outcome (free_loop (take (nat n) ds) []) (\<lambda>(fs, ds'). Ret (fs, Some (ds' @ drop (nat n) ds)))
          else Fault)"

section \<open>Devices of open files\<close>

text \<open>A file is its device and inode number.\<close>

type_synonym file_id = "int \<times> int"

fun device_search ::
    "poke_call \<Rightarrow> file_id \<Rightarrow> (string \<times> file_id option) list \<Rightarrow> drmDevice option \<Rightarrow> alloc_script
     \<Rightarrow> (int \<times> drmDevice option \<times> alloc_script) outcome" where
  "device_search poke st [] out sc = Ret (B_ERROR, out, sc)"
| "device_search poke st ((nm, st2) # es) out sc =
     (case st2 of
        None \<Rightarrow> Ret (B_ERROR, out, sc)
      | Some f \<Rightarrow>
          if st = f then bind_outcome (drmGetDeviceInt poke nm sc) (\<lambda>(r, d, sc). Ret (0, d, sc))
          else device_search poke st es out sc)"

definition drmGetDevice2 ::
    "poke_call \<Rightarrow> (string \<times> file_id option) list \<Rightarrow> file_id option \<Rightarrow> u32 \<Rightarrow> drmDevice option \<Rightarrow> alloc_script
     \<Rightarrow> (int \<times> drmDevice option \<times> alloc_script) outcome" where
  "drmGetDevice2 poke dir st flags out sc =
     (case st of None \<Rightarrow> Ret (B_ERROR, out, sc) | Some f \<Rightarrow> device_search poke f dir out sc)"

text \<open>
  \<open>sprintf(path, "%s%s", sDevPath, name)\<close> into a block of \<open>room\<close> characters, which needs one more
  than it prints.
\<close>

definition print_path :: "nat \<Rightarrow> string \<Rightarrow> string outcome" where
  "print_path room nm = (if length (sDevPath @ nm) + 1 \<le> room then Ret (sDevPath @ nm) else Fault)"

fun render_name_search ::
    "file_id \<Rightarrow> (string \<times> file_id option) list \<Rightarrow> alloc_script \<Rightarrow> (string option \<times> alloc_script) outcome" where
  "render_name_search st [] sc = Ret (None, sc)"
| "render_name_search st ((nm, st2) # es) sc =
     (case st2 of
        None \<Rightarrow> Ret (None, sc)
      | Some f \<Rightarrow>
          if st = f then
            if nm = [] then Fault
            else
              (case calloc_next sc of
                 (False, sc) \<Rightarrow> Ret (None, sc)
               | (True, sc) \<Rightarrow>
                   bind_outcome (print_path (length sDevPath + length (tl nm)) nm) (\<lambda>p. Ret (Some p, sc)))
          else render_name_search st es sc)"

definition drmGetRenderDeviceNameFromFd ::
    "(string \<times> file_id option) list \<Rightarrow> file_id option \<Rightarrow> alloc_script \<Rightarrow> (string option \<times> alloc_script) outcome" where
  "drmGetRenderDeviceNameFromFd dir st sc =
     (case st of None \<Rightarrow> Ret (None, sc) | Some f \<Rightarrow> render_name_search f dir sc)"

section \<open>Looking devices up\<close>

text \<open>A poke driver over a list of devices: index by index, and a negative status behind the last.\<close>

definition poke_table :: "poke_call \<Rightarrow> pci_info list \<Rightarrow> bool" where
  "poke_table poke ps \<longleftrightarrow> length ps \<le> 256
     \<and> (\<forall>i<length ps. \<exists>err. poke (of_nat i) = (0, err, 0, ps ! i))
     \<and> (\<forall>i. length ps \<le> i \<and> i < 256 \<longrightarrow> (\<exists>err st info. poke (of_nat i) = (0, err, st, info) \<and> st < 0))"

definition at_address :: "u8 \<Rightarrow> u8 \<Rightarrow> u8 \<Rightarrow> pci_info \<Rightarrow> bool" where
  "at_address bus dev func p \<longleftrightarrow> pci_bus p = bus \<and> pci_device p = dev \<and> pci_function p = func"

lemma GetNthPciInfo_table:
  assumes "poke_table poke ps" and "i \<le> length ps"
  shows "if i < length ps then GetNthPciInfo poke (of_nat i) info = (0, ps ! i)
    else fst (GetNthPciInfo poke (of_nat i) info) < 0"
proof -
  have le: "i \<le> 256" using assms by (simp add: poke_table_def)
  then have u: "unat (of_nat i :: u32) = i" by (simp add: unat_of_nat take_bit_nat_eq_self)
  have c: "(ucast (of_nat i :: u32) :: u8) = of_nat i"
    using le by (simp add: unat_eq_iff unsigned_ucast_eq unat_of_nat take_bit_eq_mod)
  have g: "255 < (of_nat i :: u32) \<longleftrightarrow> 255 < i" using u by (simp add: word_less_nat_alt)
  show ?thesis
  proof (cases "i < length ps")
    case True
    then have "i \<le> 255" using assms by (simp add: poke_table_def)
    moreover obtain err where "poke (of_nat i) = (0, err, 0, ps ! i)"
      using assms(1) True by (auto simp: poke_table_def)
    ultimately show ?thesis using True by (simp add: GetNthPciInfo_def g c)
  next
    case False
    show ?thesis
    proof (cases "255 < i")
      case True
      with False show ?thesis by (simp add: GetNthPciInfo_def g E_NOENT_def)
    next
      case small: False
      then have "length ps \<le> i \<and> i < 256" using False by simp
      then obtain err st inf where "poke (of_nat i) = (0, err, st, inf)" "st < 0"
        using assms(1) unfolding poke_table_def by blast
      with False small show ?thesis by (simp add: GetNthPciInfo_def g c)
    qed
  qed
qed

lemma LookupPciDevice_from:
  assumes "poke_table poke ps" and "i \<le> length ps"
  shows "case find (at_address bus dev func) (drop i ps) of
      Some p \<Rightarrow> LookupPciDevice poke bus dev func (of_nat i) info = (0, p)
    | None \<Rightarrow> fst (LookupPciDevice poke bus dev func (of_nat i) info) < 0"
  using assms(2)
proof (induction "length ps - i" arbitrary: i info)
  case 0
  then have "i = length ps" by simp
  with GetNthPciInfo_table [OF assms(1), of i info] show ?case
    by (subst LookupPciDevice.simps) (auto split: prod.split)
next
  case (Suc k)
  then have i: "i < length ps" by simp
  then have get: "GetNthPciInfo poke (of_nat i) info = (0, ps ! i)"
    using GetNthPciInfo_table [OF assms(1), of i info] by simp
  have d: "drop i ps = ps ! i # drop (Suc i) ps" using i by (simp add: Cons_nth_drop_Suc)
  have step: "LookupPciDevice poke bus dev func (of_nat i) info =
      (if at_address bus dev func (ps ! i) then (0, ps ! i)
       else LookupPciDevice poke bus dev func (of_nat (Suc i)) (ps ! i))"
    by (subst LookupPciDevice.simps) (simp add: get at_address_def add.commute)
  have "k = length ps - Suc i" "Suc i \<le> length ps" using Suc.hyps(2) i by simp_all
  from Suc.hyps(1) [OF this] show ?case unfolding d step by (simp split: option.split)
qed

lemma LookupPciDevice_table:
  assumes "poke_table poke ps"
  shows "case find (at_address bus dev func) ps of
      Some p \<Rightarrow> LookupPciDevice poke bus dev func 0 info = (0, p)
    | None \<Rightarrow> fst (LookupPciDevice poke bus dev func 0 info) < 0"
  by (cases "find (at_address bus dev func) ps")
    (use LookupPciDevice_from [OF assms le0, of bus dev func info] in simp_all)

section \<open>Listing devices\<close>

text \<open>The device a name stands for: always one with function 0.\<close>

definition device_named :: "pci_info list \<Rightarrow> string \<Rightarrow> drmDevice option" where
  "device_named ps nm =
     Option.bind (ParseDevPciAdr nm) (\<lambda>(bus, dev).
       map_option (\<lambda>p.
         \<lparr>nodes = ['''', '''', take 256 (sDevPath @ nm)], available_nodes = 4, bustype = 0,
          businfo = Some (pci_bus_bytes p), deviceinfo = Some (flat_info (pci_device_bytes p))\<rparr>)
         (find (at_address bus dev 0) ps))"

lemma drmDeviceAlloc_render:
  assumes "calloc_next sc = (True, sc')"
  shows "drmDeviceAlloc DRM_NODE_RENDER node b d sc =
    (Some \<lparr>nodes = ['''', '''', take 256 node], available_nodes = 4, bustype = 0,
       businfo = Some (replicate b 0), deviceinfo = Some (flat_info (replicate d 0))\<rparr>, sc')"
proof -
  have "(replicate DRM_NODE_MAX '''') [DRM_NODE_RENDER := x] = ['''', '''', x]" for x
    by (simp add: DRM_NODE_MAX_def DRM_NODE_RENDER_def numeral_3_eq_3 numeral_2_eq_2)
  moreover have "push_bit DRM_NODE_RENDER 1 = (4 :: u32)" by (simp add: DRM_NODE_RENDER_def)
  ultimately show ?thesis using assms
    by (simp add: drmDeviceAlloc_def align_nat_def drmGetMaxNodeName_def)
qed

lemma drmGetDeviceInt_table:
  assumes "poke_table poke ps" and "length nm < 256" and "no_alloc_failure sc"
  obtains r sc' where "drmGetDeviceInt poke nm sc = Ret (r, device_named ps nm, sc')" "no_alloc_failure sc'"
    "r = 0 \<longleftrightarrow> device_named ps nm \<noteq> None"
proof (cases "ParseDevPciAdr nm")
  case None
  then show thesis using assms(3)
    by (intro that [of E_NOENT sc]) (simp_all add: drmGetDeviceInt_def device_named_def E_NOENT_def)
next
  case (Some a)
  obtain bus dev where a: "a = (bus, dev)" by (cases a)
  let ?l = "LookupPciDevice poke bus dev 0 0
    \<lparr>pci_vendor_id = 0, pci_device_id = 0, pci_bus = bus, pci_device = dev, pci_function = 0\<rparr>"
  note look = LookupPciDevice_table [OF assms(1), of bus dev 0
    "\<lparr>pci_vendor_id = 0, pci_device_id = 0, pci_bus = bus, pci_device = dev, pci_function = 0\<rparr>"]
  show thesis
  proof (cases "find (at_address bus dev 0) ps")
    case None
    with look have "fst ?l < 0" by simp
    moreover obtain r info where "?l = (r, info)" by (cases ?l)
    ultimately show thesis using Some None a assms(3)
      by (intro that [of r sc]) (simp_all add: drmGetDeviceInt_def device_named_def)
  next
    case found: (Some p)
    obtain sc' where "calloc_next sc = (True, sc')" "no_alloc_failure sc'"
      by (rule calloc_next_no_failure [OF assms(3)])
    moreover have "?l = (0, p)" using look found by simp
    moreover have "\<not> 1024 \<le> length (sDevPath @ nm)" using assms(2) by (simp add: sDevPath_def)
    ultimately show thesis using found Some a
      by (intro that [of 0 sc'])
        (simp_all add: drmGetDeviceInt_def device_named_def drmDeviceAlloc_render)
  qed
qed

lemma devices_loop_null [simp]: "devices_loop poke nms m cnt None sc = Ret (cnt, None, sc)"
  by (induction nms) simp_all

lemma devices_loop_table:
  assumes "poke_table poke ps" and "\<forall>nm\<in>set nms. length nm < 256" and "no_alloc_failure sc"
    and "m \<le> length ds" and "cnt \<le> m" and "take cnt ds = map Some known"
  shows "\<exists>arr sc'. devices_loop poke nms m cnt (Some ds) sc =
      Ret (length (take m (known @ List.map_filter (device_named ps) nms)), Some arr, sc')
    \<and> length arr = length ds
    \<and> (let found = take m (known @ List.map_filter (device_named ps) nms)
       in take (length found) arr = map Some found)"
  using assms(2-)
proof (induction nms arbitrary: cnt ds sc known)
  case Nil
  have "length known = cnt" using Nil.prems by (metis length_map length_take min.absorb2 le_trans)
  with Nil.prems show ?case by (simp add: map_filter_simps)
next
  case (Cons nm nms)
  have len: "length known = cnt" using Cons.prems by (metis length_map length_take min.absorb2 le_trans)
  show ?case
  proof (cases "cnt < m")
    case False
    with Cons.prems len show ?thesis by simp
  next
    case True
    obtain r sc' where get: "drmGetDeviceInt poke nm sc = Ret (r, device_named ps nm, sc')" "no_alloc_failure sc'"
      by (rule drmGetDeviceInt_table [OF assms(1) _ Cons.prems(2), of nm]) (use Cons.prems(1) in simp_all)
    let ?ds = "ds[cnt := device_named ps nm]"
    have room: "cnt < length ds" using True Cons.prems(3) by simp
    show ?thesis
    proof (cases "device_named ps nm")
      case None
      have "take cnt ?ds = map Some known" using Cons.prems(5) by simp
      from Cons.IH [OF _ get(2) _ _ this, of] Cons.prems True room get None show ?thesis
        by (simp add: map_filter_simps)
    next
      case (Some d)
      have "take (Suc cnt) ?ds = map Some (known @ [d])"
        using Cons.prems(5) room Some by (simp add: take_Suc_conv_app_nth)
      from Cons.IH [OF _ get(2) _ _ this] Cons.prems True room get Some show ?thesis
        by (simp add: map_filter_simps)
    qed
  qed
qed

section \<open>Properties\<close>

text \<open>C38. \<open>drmGetDevices2\<close> stores, in the order of the directory, the devices of the names that parse and
  whose bus and device number some PCI device with function 0 has, as many as fit, and returns how many;
  the function number in a name is never looked at. Given no array it counts nothing and returns 0.\<close>

theorem get_devices_lists:
  assumes "poke_table poke ps" and "\<forall>nm\<in>set dir. length nm < 256" and "no_alloc_failure sc"
    and "nat m \<le> length ds"
  shows "(\<exists>arr sc'. drmGetDevices2 poke dir flags (Some ds) m sc =
      Ret (length (take (nat m) (List.map_filter (device_named ps) dir)), Some arr, sc')
    \<and> take (length (take (nat m) (List.map_filter (device_named ps) dir))) arr =
      map Some (take (nat m) (List.map_filter (device_named ps) dir)))
    \<and> drmGetDevices2 poke dir flags None m sc = Ret (0, None, sc)"
  using devices_loop_table [OF assms(1-4), of 0 "[]"] by (auto simp: drmGetDevices2_def Let_def)

definition demo_pci :: "pci_info list" where
  "demo_pci =
     [\<lparr>pci_vendor_id = 0x1022, pci_device_id = 1, pci_bus = 0, pci_device = 0, pci_function = 0\<rparr>,
      \<lparr>pci_vendor_id = 0x1002, pci_device_id = 0x683f, pci_bus = 1, pci_device = 0, pci_function = 0\<rparr>]"

definition demo_poke :: poke_call where
  "demo_poke i = (0, 0, if unat i < 2 then 0 else E_NOENT, demo_pci ! (unat i mod 2))"

lemma demo_poke_table: "poke_table demo_poke demo_pci"
proof -
  have u: "unat (of_nat i :: u8) = i" if "i < 256" for i
    using that by (simp add: unat_of_nat take_bit_nat_eq_self)
  show ?thesis unfolding poke_table_def
    by (auto simp: demo_poke_def demo_pci_def E_NOENT_def u)
qed

theorem get_devices_lists_witness:
  "(\<exists>arr sc'. drmGetDevices2 demo_poke [''vesa'', ''radeon_010001''] 0 (Some [None]) 1 [] = Ret (1, Some arr, sc')
      \<and> map_option (\<lambda>d. businfo d) (arr ! 0) = Some (Some [0, 0, 1, 0, 0, 0]))
    \<and> drmGetDevices2 demo_poke [''vesa'', ''radeon_010001''] 0 None 1 [] = Ret (0, None, [])"
proof -
  have named: "List.map_filter (device_named demo_pci) [''vesa'', ''radeon_010001''] =
      [\<lparr>nodes = ['''', '''', take 256 (sDevPath @ ''radeon_010001'')], available_nodes = 4, bustype = 0,
        businfo = Some [0, 0, 1, 0, 0, 0], deviceinfo = Some (flat_info (pci_device_bytes (demo_pci ! 1)))\<rparr>]"
    by (simp add: map_filter_simps device_named_def ParseDevPciAdr_def hex_byte_def strtol16_def Let_def
        hexval_def isspace_def skip_0x_def clamp_long_def demo_pci_def at_address_def pci_bus_bytes_def)
  have short: "\<forall>nm\<in>set [''vesa'', ''radeon_010001'']. length nm < 256" by simp
  have room: "nat 1 \<le> length [None :: drmDevice option]" by simp
  from get_devices_lists [OF demo_poke_table short no_alloc_failure_Nil room, of 0]
  have "drmGetDevices2 demo_poke [''vesa'', ''radeon_010001''] 0 None 1 [] = Ret (0, None, [])"
    and "\<exists>arr sc'. drmGetDevices2 demo_poke [''vesa'', ''radeon_010001''] 0 (Some [None]) 1 [] = Ret (1, Some arr, sc')
      \<and> (\<exists>d. take 1 arr = [Some d] \<and> businfo d = Some [0, 0, 1, 0, 0, 0])"
    unfolding named by (simp, fastforce)
  moreover have "arr ! 0 = x" if "take 1 arr = [x]" for arr and x :: "drmDevice option"
    using that by (cases arr) simp_all
  ultimately show ?thesis by (metis option.map(2))
qed

text \<open>\<open>drmGetRenderDeviceNameFromFd\<close> never returns a name: for a file of the directory it allocates
  two characters too few for the path it prints, and writes past the block.\<close>

theorem render_name_overflows:
  assumes "\<forall>e\<in>set dir. snd e \<noteq> None" and "Some f \<in> snd ` set dir" and "no_alloc_failure sc"
  shows "drmGetRenderDeviceNameFromFd dir (Some f) sc = Fault"
proof -
  obtain sc' where sc': "calloc_next sc = (True, sc')" by (rule calloc_next_no_failure [OF assms(3)])
  have short: "print_path (length sDevPath + (length nm - Suc 0)) nm = Fault" if "nm \<noteq> []" for nm
    using that by (cases nm) (simp_all add: print_path_def)
  from assms(1,2) have "render_name_search f dir sc = Fault"
  proof (induction dir)
    case (Cons e dir)
    obtain nm g where e: "e = (nm, Some g)" using Cons.prems(1) by (cases e) auto
    show ?case
    proof (cases "f = g")
      case True
      then show ?thesis by (simp add: e sc' short)
    next
      case False
      with Cons e show ?thesis by simp
    qed
  qed simp
  then show ?thesis by (simp add: drmGetRenderDeviceNameFromFd_def)
qed

theorem render_name_overflows_witness:
  "drmGetRenderDeviceNameFromFd [(''radeon_010000'', Some (1, 2))] (Some (1, 2)) [] = Fault"
  by (rule render_name_overflows) simp_all

end
