(* ===== verification/Trace.thy ===== *)
theory Trace imports Ioctl begin

text \<open>
  The traces of calls, \<open>libdrm_trace.c\<close>: what is printed before a call and after it, as a string.
  Reading memory that is not there, or an argument as another structure than it is, is a fault, and
  so is printing a null pointer as a string. The conversions of \<open>printf\<close> the file uses are written
  out.
\<close>

section \<open>Printing\<close>

fun digits :: "nat \<Rightarrow> nat \<Rightarrow> string" where
  "digits b n =
     (let d = n mod b; c = char_of (if d < 10 then 48 + d else 87 + d)
      in if n < b \<or> b < 2 then [c] else digits b (n div b) @ [c])"

declare digits.simps [simp del]

definition show_u :: "'a::len word \<Rightarrow> string" where "show_u w = digits 10 (unat w)"

definition show_int :: "int \<Rightarrow> string" where
  "show_int i = (if i < 0 then CHR ''-'' # digits 10 (nat (- i)) else digits 10 (nat i))"

definition show_d :: "u32 \<Rightarrow> string" where "show_d w = show_int (sint w)"

definition show_x :: "'a::len word \<Rightarrow> string" where "show_x w = digits 16 (unat w)"

text \<open>\<open>%#x\<close>\<close>

definition alt_x :: "nat \<Rightarrow> string" where
  "alt_x n = (if n = 0 then ''0'' else ''0x'' @ digits 16 n)"

definition alt :: "'a::len word \<Rightarrow> string" where "alt w = alt_x (unat w)"

definition nl :: string where "nl = [CHR 0x0A]"

fun joined :: "string list \<Rightarrow> string" where
  "joined [] = ''''"
| "joined [x] = x"
| "joined (x # y # xs) = x @ '', '' @ joined (y # xs)"

text \<open>A set of flags: the names of the bits that are set, \<open>?(n)\<close> for one without a name.\<close>

definition flag_name :: "(nat \<times> string) list \<Rightarrow> nat \<Rightarrow> string" where
  "flag_name names i =
     (case map_of names i of Some nm \<Rightarrow> nm | None \<Rightarrow> ''?('' @ digits 10 i @ '')'')"

definition flag_bits :: "nat list" where "flag_bits = [0..<32]"

definition write_flags :: "(nat \<times> string) list \<Rightarrow> (nat \<Rightarrow> bool) \<Rightarrow> string" where
  "write_flags names is_set = ''{'' @ joined (map (flag_name names) (filter is_set flag_bits)) @ ''}''"

text \<open>
  \<open>((1 << i) & flags) != 0\<close>; on 64-bit flags the \<open>int\<close> on the left is widened with its sign, so bit 31
  stands for all the bits from there on.
\<close>

definition flag32 :: "u32 \<Rightarrow> nat \<Rightarrow> bool" where
  "flag32 v i \<longleftrightarrow> push_bit i 1 AND v \<noteq> 0"

definition flag64 :: "u64 \<Rightarrow> nat \<Rightarrow> bool" where
  "flag64 v i \<longleftrightarrow> scast (push_bit i 1 :: u32) AND v \<noteq> 0"

text \<open>A pair of a name and a value, and reading memory.\<close>

definition named :: "string \<Rightarrow> string \<Rightarrow> string" where "named nm v = nm @ '': '' @ v"

definition peek :: "nat \<Rightarrow> nat \<Rightarrow> u8 list \<Rightarrow> nat outcome" where
  "peek off n m = (if off + n \<le> length m then Ret (le_nat (take n (drop off m))) else Fault)"

text \<open>Lines with the fields of a structure in memory: indentation, and name, offset and size of each.\<close>

fun field_lines :: "string \<Rightarrow> (string \<times> nat \<times> nat) list \<Rightarrow> u8 list \<Rightarrow> string outcome" where
  "field_lines ind [] m = Ret ''''"
| "field_lines ind ((nm, off, n) # fs) m =
     bind_outcome (peek off n m) (\<lambda>v.
     bind_outcome (field_lines ind fs m) (\<lambda>rest. Ret (ind @ named nm (alt_x v) @ nl @ rest)))"

fun peek_list :: "nat list \<Rightarrow> nat \<Rightarrow> u8 list \<Rightarrow> nat list outcome" where
  "peek_list [] n m = Ret []"
| "peek_list (off # offs) n m =
     bind_outcome (peek off n m) (\<lambda>v. bind_outcome (peek_list offs n m) (\<lambda>vs. Ret (v # vs)))"

text \<open>A matrix of four by four words.\<close>

definition matrix_line :: "string \<Rightarrow> nat \<Rightarrow> u8 list \<Rightarrow> string outcome" where
  "matrix_line nm off m =
     bind_outcome (peek_list (map (\<lambda>i. off + 4 * i) [0..<16]) 4 m) (\<lambda>vs.
       Ret (''  '' @ nm @ '': ('' @
            joined (map (\<lambda>i. ''('' @ joined (map alt_x (take 4 (drop (4 * i) vs))) @ '')'') [0..<4]) @
            '')'' @ nl))"

text \<open>Elements of an array, as many as a count says.\<close>

definition array_prefix :: "nat \<Rightarrow> 'b list \<Rightarrow> 'b list outcome" where
  "array_prefix n xs = (if n \<le> length xs then Ret (take n xs) else Fault)"

section \<open>Answers of the amdgpu driver\<close>

definition heap_info_fields :: "nat \<Rightarrow> (string \<times> nat \<times> nat) list" where
  "heap_info_fields off =
     [(''total_heap_size'', off, 8), (''usable_heap_size'', off + 8, 8), (''heap_usage'', off + 16, 8),
      (''max_allocation'', off + 24, 8)]"

definition drmAmdgpuWriteHeapInfo :: "nat \<Rightarrow> u8 list \<Rightarrow> string outcome" where
  "drmAmdgpuWriteHeapInfo off m = field_lines ''    '' (heap_info_fields off) m"

definition write_memory_info :: "u8 list \<Rightarrow> string outcome" where
  "write_memory_info m =
     bind_outcome (drmAmdgpuWriteHeapInfo 0 m) (\<lambda>a.
     bind_outcome (drmAmdgpuWriteHeapInfo 32 m) (\<lambda>b.
     bind_outcome (drmAmdgpuWriteHeapInfo 64 m) (\<lambda>c.
       Ret ('' -> ('' @ nl @ ''  vram: ('' @ nl @ a @ ''  )'' @ nl @ ''  cpu_accessible_vram: ('' @ nl @ b @
            ''  )'' @ nl @ ''  gtt: ('' @ nl @ c @ ''  )'' @ nl @ '')''))))"

definition device_fields1 :: "(string \<times> nat \<times> nat) list" where
  "device_fields1 =
     [(''device_id'', 0, 4), (''chip_rev'', 4, 4), (''external_rev'', 8, 4), (''pci_rev'', 12, 4),
      (''family'', 16, 4), (''num_shader_engines'', 20, 4), (''num_shader_arrays_per_engine'', 24, 4),
      (''gpu_counter_freq'', 28, 4), (''max_engine_clock'', 32, 8), (''max_memory_clock'', 40, 8),
      (''cu_active_number'', 48, 4), (''cu_ao_mask'', 52, 4)]"

definition device_fields2 :: "(string \<times> nat \<times> nat) list" where
  "device_fields2 =
     [(''enabled_rb_pipes_mask'', 120, 4), (''num_rb_pipes'', 124, 4), (''num_hw_gfx_contexts'', 128, 4),
      (''ids_flags'', 136, 8), (''virtual_address_offset'', 144, 8), (''virtual_address_max'', 152, 8),
      (''virtual_address_alignment'', 160, 4), (''pte_fragment_size'', 164, 4), (''gart_page_size'', 168, 4),
      (''ce_ram_size'', 172, 4), (''vram_type'', 176, 4), (''vram_bit_width'', 180, 4),
      (''vce_harvest_config'', 184, 4), (''gc_double_offchip_lds_buf'', 188, 4),
      (''prim_buf_gpu_addr'', 192, 8), (''pos_buf_gpu_addr'', 200, 8), (''cntl_sb_buf_gpu_addr'', 208, 8),
      (''param_buf_gpu_addr'', 216, 8), (''prim_buf_size'', 224, 4), (''pos_buf_size'', 228, 4),
      (''cntl_sb_buf_size'', 232, 4), (''param_buf_size'', 236, 4), (''wave_front_size'', 240, 4),
      (''num_shader_visible_vgprs'', 244, 4), (''num_cu_per_sh'', 248, 4), (''num_tcc_blocks'', 252, 4),
      (''gs_vgt_table_depth'', 256, 4), (''gs_prim_buffer_depth'', 260, 4), (''max_gs_waves_per_vgt'', 264, 4)]"

definition device_fields3 :: "(string \<times> nat \<times> nat) list" where
  "device_fields3 =
     [(''high_va_offset'', 336, 8), (''high_va_max'', 344, 8), (''pa_sc_tile_steering_override'', 352, 4),
      (''tcc_disabled_mask'', 360, 8)]"

definition write_device_info :: "u8 list \<Rightarrow> string outcome" where
  "write_device_info m =
     bind_outcome (field_lines ''  '' device_fields1 m) (\<lambda>a.
     bind_outcome (matrix_line ''cu_bitmap'' 56 m) (\<lambda>b.
     bind_outcome (field_lines ''  '' device_fields2 m) (\<lambda>c.
     bind_outcome (matrix_line ''cu_ao_bitmap'' 272 m) (\<lambda>d.
     bind_outcome (field_lines ''  '' device_fields3 m) (\<lambda>e.
       Ret ('' -> ('' @ nl @ a @ b @ c @ d @ e @ '')''))))))"

definition write_hw_ip :: "u8 list \<Rightarrow> string outcome" where
  "write_hw_ip m =
     bind_outcome (field_lines ''  ''
       [(''hw_ip_version_major'', 0, 4), (''hw_ip_version_minor'', 4, 4), (''capabilities_flags'', 8, 8),
        (''ib_start_alignment'', 16, 4), (''ib_size_alignment'', 20, 4)] m) (\<lambda>a.
     bind_outcome (peek 24 4 m) (\<lambda>rings.
       Ret ('' -> ('' @ nl @ a @ ''  '' @ named ''available_rings'' (digits 10 rings) @ nl @ '')'')))"

definition write_firmware :: "u8 list \<Rightarrow> string outcome" where
  "write_firmware m =
     bind_outcome (peek_list [0, 4] 4 m) (\<lambda>vs.
       Ret ('' -> ('' @ named ''ver'' (alt_x (vs ! 0)) @ '', '' @ named ''feature'' (alt_x (vs ! 1)) @ '')''))"

definition write_lines :: "(string \<times> nat \<times> nat) list \<Rightarrow> u8 list \<Rightarrow> string outcome" where
  "write_lines fs m = bind_outcome (field_lines ''  '' fs m) (\<lambda>a. Ret ('' -> ('' @ nl @ a @ '')''))"

definition gds_fields :: "(string \<times> nat \<times> nat) list" where
  "gds_fields =
     [(''gds_gfx_partition_size'', 0, 4), (''compute_partition_size'', 4, 4), (''gds_total_size'', 8, 4),
      (''gws_per_gfx_partition'', 12, 4), (''gws_per_compute_partition'', 16, 4),
      (''oa_per_gfx_partition'', 20, 4), (''oa_per_compute_partition'', 24, 4)]"

definition vram_gtt_fields :: "(string \<times> nat \<times> nat) list" where
  "vram_gtt_fields = [(''vram_size'', 0, 8), (''vram_cpu_accessible_size'', 8, 8), (''gtt_size'', 16, 8)]"

definition write_registers :: "u32 \<Rightarrow> u8 list \<Rightarrow> string outcome" where
  "write_registers num m =
     bind_outcome (peek_list (map (\<lambda>i. 4 * i) [0..<unat num]) 4 m) (\<lambda>vs.
       Ret ('' -> ('' @ joined (map alt_x vs) @ '')''))"

text \<open>The queries without a case of their own run into the one of the memory information.\<close>

definition memory_info_queries :: "u32 list" where
  "memory_info_queries = [0x01, 0x03, 0x05, 0x0f, 0x10, 0x11, 0x17, 0x18, 0x19]"

definition unprinted_queries :: "u32 list" where
  "unprinted_queries = [0x1a, 0x1b, 0x1c, 0x1d, 0x1e, 0x1f, 0x20, 0x21]"

definition write_info_answer :: "drm_amdgpu_info \<Rightarrow> u8 list \<Rightarrow> string outcome" where
  "write_info_answer rq m =
     (let q = info_query_id rq
      in if q = AMDGPU_INFO_ACCEL_WORKING then
           bind_outcome (peek 0 4 m) (\<lambda>v. Ret ('' -> '' @ show_d (of_nat v)))
         else if q = AMDGPU_INFO_DEV_INFO then write_device_info m
         else if q = AMDGPU_INFO_HW_IP_INFO then write_hw_ip m
         else if q = AMDGPU_INFO_FW_VERSION then write_firmware m
         else if q = AMDGPU_INFO_GDS_CONFIG then write_lines gds_fields m
         else if q = AMDGPU_INFO_VRAM_GTT then write_lines vram_gtt_fields m
         else if q = AMDGPU_INFO_READ_MMR_REG then write_registers (info_word rq 1) m
         else if q \<in> set memory_info_queries then write_memory_info m
         else if q \<in> set unprinted_queries then Ret '' -> ?''
         else Ret '''')"

text \<open>
  An answer that was not stored leaves the request in its union, which is then read as one. The case
  of a wait runs into the one of a user pointer, whose handle is where the request has the
  instance of the engine.
\<close>

definition amdgpu_answer :: "u64 \<Rightarrow> drm_arg \<Rightarrow> string outcome" where
  "amdgpu_answer cmd arg =
     (if cmd = DRM_AMDGPU_GEM_CREATE then
        (case arg of
           arg_gem_create (gem_create_out handle) \<Rightarrow> Ret ('' -> '' @ show_d handle)
         | arg_gem_create (gem_create_in sz al domains flags) \<Rightarrow> Ret ('' -> '' @ show_d (ucast sz))
         | _ \<Rightarrow> Fault)
      else if cmd = DRM_AMDGPU_GEM_MMAP then
        (case arg of
           arg_gem_mmap (gem_mmap_out adr) \<Rightarrow> Ret ('' -> '' @ alt adr)
         | arg_gem_mmap (gem_mmap_in handle) \<Rightarrow> Ret ('' -> '' @ alt handle)
         | _ \<Rightarrow> Fault)
      else if cmd = DRM_AMDGPU_INFO then
        (case arg of arg_info rq m \<Rightarrow> write_info_answer rq m | _ \<Rightarrow> Fault)
      else if cmd = DRM_AMDGPU_CTX then
        (case arg of
           arg_ctx (ctx_out c) \<Rightarrow> Ret ('' -> '' @ show_u (alloc_ctx_id c))
         | arg_ctx (ctx_in i) \<Rightarrow> Ret ('' -> '' @ show_u (ctx_op i))
         | _ \<Rightarrow> Fault)
      else if cmd = DRM_AMDGPU_CS then
        (case arg of
           arg_cs (cs_out handle) \<Rightarrow> Ret ('' -> '' @ show_u handle)
         | arg_cs (cs_in i) \<Rightarrow>
             Ret ('' -> '' @ show_u (push_bit 32 (ucast (cs_bo_list_handle i)) OR ucast (cs_ctx_id i) :: u64))
         | _ \<Rightarrow> Fault)
      else if cmd = DRM_AMDGPU_WAIT_CS then
        (case arg of
           arg_wait_cs (wait_cs_out status i) \<Rightarrow>
             Ret ('' -> '' @ show_u status @ '' -> '' @ show_u (wcs_ip_instance i))
         | arg_wait_cs (wait_cs_in i) \<Rightarrow>
             Ret ('' -> '' @ show_u (wcs_handle i) @ '' -> '' @ show_u (wcs_ip_instance i))
         | _ \<Rightarrow> Fault)
      else if cmd = DRM_AMDGPU_GEM_USERPTR then
        (case arg of arg_gem_userptr u \<Rightarrow> Ret ('' -> '' @ show_u (up_handle u)) | _ \<Rightarrow> Fault)
      else Ret '''')"

section \<open>Calls of the amdgpu driver\<close>

definition domain_names :: "(nat \<times> string) list" where
  "domain_names = [(0, ''CPU''), (1, ''GTT''), (2, ''VRAM''), (3, ''GDS''), (4, ''GWS''), (5, ''OA'')]"

definition domain_flag_names :: "(nat \<times> string) list" where
  "domain_flag_names =
     [(0, ''CPU_ACCESS_REQUIRED''), (1, ''NO_CPU_ACCESS''), (2, ''CPU_GTT_USWC''), (3, ''VRAM_CLEARED''),
      (5, ''VRAM_CONTIGUOUS''), (6, ''VM_ALWAYS_VALID''), (7, ''EXPLICIT_SYNC''), (8, ''CP_MQD_GFX9''),
      (9, ''VRAM_WIPE_ON_RELEASE''), (10, ''CREATE_ENCRYPTED''), (11, ''CREATE_PREEMPTIBLE'')]"

definition write_gem_create :: "u64 \<Rightarrow> u64 \<Rightarrow> u64 \<Rightarrow> u64 \<Rightarrow> string" where
  "write_gem_create sz al domains flags =
     ''(bo_size: '' @ alt sz @ '', alignment: '' @ alt al @ '', domains: '' @
     write_flags domain_names (flag64 domains) @ '', domain_flags: '' @
     write_flags domain_flag_names (flag64 flags) @ '')''"

definition ctx_op_name :: "u32 \<Rightarrow> string" where
  "ctx_op_name op =
     (if op = AMDGPU_CTX_OP_ALLOC_CTX then ''ALLOC'' else if op = AMDGPU_CTX_OP_FREE_CTX then ''FREE''
      else if op = AMDGPU_CTX_OP_QUERY_STATE then ''QUERY_STATE''
      else if op = AMDGPU_CTX_OP_QUERY_STATE2 then ''QUERY_STATE2'' else '''')"

definition write_ctx :: "drm_amdgpu_ctx_in \<Rightarrow> string" where
  "write_ctx i =
     ''(op: '' @ ctx_op_name (ctx_op i) @ '', flags: '' @ alt (ctx_flags i) @ '', ctx_id: '' @
     show_u (ctx_ctx_id i) @ '', priority: '' @ show_d (ctx_priority i) @ '')''"

definition write_ib :: "drm_amdgpu_cs_chunk_ib \<Rightarrow> string" where
  "write_ib b =
     ''(flags: '' @ alt (ib_flags b) @ '', va_start: '' @ alt (ib_va_start b) @ '', ib_bytes: '' @
     show_u (ib_bytes b) @ '', ip_type: '' @ show_u (ib_ip_type b) @ '', ip_instance: '' @
     show_u (ib_ip_instance b) @ '', ring: '' @ show_u (ib_ring b) @ '')''"

definition write_dep :: "drm_amdgpu_cs_chunk_dep \<Rightarrow> string" where
  "write_dep d =
     ''(ip_type: '' @ show_u (dep_ip_type d) @ '', ip_instance: '' @ show_u (dep_ip_instance d) @
     '', ring: '' @ show_u (dep_ring d) @ '', ctx_id: '' @ show_u (dep_ctx_id d) @ '', handle: '' @
     show_u (dep_handle d) @ '')''"

definition write_syncobj :: "drm_amdgpu_cs_chunk_syncobj \<Rightarrow> string" where
  "write_syncobj c =
     ''(handle: '' @ show_u (cso_handle c) @ '', flags: '' @ alt (cso_flags c) @ '', point: '' @
     alt (cso_point c) @ '')''"

text \<open>The rounds of \<open>for (j = 0; j < length_dw; j += step)\<close>.\<close>

definition dw_rounds :: "u32 \<Rightarrow> nat \<Rightarrow> nat" where
  "dw_rounds len step = (unat len + step - 1) div step"

definition write_bo_list :: "drm_amdgpu_bo_list_in \<Rightarrow> string outcome" where
  "write_bo_list b =
     bind_outcome
       (peek_list (map (\<lambda>j. j * unat (bl_bo_info_size b)) [0..<unat (bl_bo_number b)]) 4 (bl_bo_info b))
       (\<lambda>vs. Ret
         (''(operation: '' @ show_d (bl_operation b) @ '', list_handle: '' @ show_d (bl_list_handle b) @
          '', bo_number: '' @ show_u (bl_bo_number b) @ '', bo_info_size: '' @ show_u (bl_bo_info_size b) @
          '', bo_info_ptr: '' @ alt (bl_bo_info_ptr b) @ ''('' @
          joined (map (\<lambda>v. show_d (of_nat v)) vs) @ ''))''))"

definition write_chunk_data :: "ioctl_cs_chunk \<Rightarrow> string outcome" where
  "write_chunk_data c =
     (if ch_id c = 0x01 then
        (case ch_memory c of ib_memory b \<Rightarrow> Ret (''IB'' @ write_ib b) | _ \<Rightarrow> Fault)
      else if ch_id c = 0x02 then
        (case ch_memory c of
           fence_memory f \<Rightarrow>
             Ret (''FENCE'' @ ''(handle: '' @ show_u (cfe_handle f) @ '', offset: '' @ show_u (cfe_offset f) @ '')'')
         | _ \<Rightarrow> Fault)
      else if ch_id c = 0x03 then
        (case ch_memory c of
           dep_memory ds \<Rightarrow>
             bind_outcome (array_prefix (dw_rounds (ch_length_dw c) 6) ds) (\<lambda>ds.
               Ret (''DEPENDENCIES'' @ ''('' @ joined (map write_dep ds) @ '')''))
         | _ \<Rightarrow> Fault)
      else if ch_id c = 0x04 then Ret ''SYNCOBJ_IN''
      else if ch_id c = 0x05 then Ret ''SYNCOBJ_OUT''
      else if ch_id c = 0x06 then
        (case ch_memory c of
           bo_list_memory b \<Rightarrow> bind_outcome (write_bo_list b) (\<lambda>t. Ret (''BO_HANDLES'' @ t))
         | _ \<Rightarrow> Fault)
      else if ch_id c = 0x07 then Ret ''SCHEDULED_DEPENDENCIES''
      else if ch_id c = 0x08 \<or> ch_id c = 0x09 then
        (case ch_memory c of
           syncobj_memory ss \<Rightarrow>
             bind_outcome (array_prefix (dw_rounds (ch_length_dw c) 4) ss) (\<lambda>ss.
               Ret ((if ch_id c = 0x08 then ''SYNCOBJ_TIMELINE_WAIT'' else ''SYNCOBJ_TIMELINE_SIGNAL'') @
                    ''('' @ joined (map write_syncobj ss) @ '')''))
         | _ \<Rightarrow> Fault)
      else Ret (''?('' @ show_u (ch_id c) @ '')''))"

fun write_chunks :: "ioctl_cs_chunk list \<Rightarrow> string outcome" where
  "write_chunks [] = Ret ''''"
| "write_chunks (c # cs) =
     bind_outcome (write_chunk_data c) (\<lambda>t.
     bind_outcome (write_chunks cs) (\<lambda>rest.
       Ret (''  (id: '' @ t @ '', length: '' @ show_u (ch_length_dw c) @ '', data: '' @ alt (ch_data c) @
            '')'' @ nl @ rest)))"

definition write_cs :: "drm_amdgpu_cs_in \<Rightarrow> string outcome" where
  "write_cs i =
     bind_outcome (array_prefix (unat (cs_num_chunks i)) (cs_chunks i)) (\<lambda>cs.
     bind_outcome (write_chunks cs) (\<lambda>t.
       Ret (''(ctx_id: '' @ show_u (cs_ctx_id i) @ '', bo_list_handle: '' @ show_u (cs_bo_list_handle i) @
            '', num_chunks: '' @ show_u (cs_num_chunks i) @ '', chunks: ('' @ nl @ t @ '')'')))"

definition hw_ip_names :: "(u32 \<times> string) list" where
  "hw_ip_names =
     [(0, ''GFX''), (1, ''COMPUTE''), (2, ''DMA''), (3, ''UVD''), (4, ''VCE''), (5, ''UVD_ENC''),
      (6, ''VCN_DEC''), (7, ''VCN_ENC''), (8, ''VCN_JPEG''), (9, ''NUM'')]"

definition firmware_names :: "(u32 \<times> string) list" where
  "firmware_names =
     [(0x1, ''VCE''), (0x2, ''UVD''), (0x3, ''GMC''), (0x4, ''GFX_ME''), (0x5, ''GFX_PFP''), (0x6, ''GFX_CE''),
      (0x7, ''GFX_RLC''), (0x8, ''GFX_MEC''), (0xa, ''SMC''), (0xb, ''SDMA''), (0xc, ''SOS''), (0xd, ''ASD''),
      (0xe, ''VCN''), (0xf, ''GFX_RLC_RESTORE_LIST_CNTL''), (0x10, ''GFX_RLC_RESTORE_LIST_GPM_MEM''),
      (0x11, ''GFX_RLC_RESTORE_LIST_SRM_MEM'')]"

definition query_names :: "(u32 \<times> string) list" where
  "query_names =
     [(0x00, ''ACCEL_WORKING''), (0x01, ''CRTC_FROM_ID''), (0x02, ''HW_IP_INFO''), (0x03, ''HW_IP_COUNT''),
      (0x05, ''TIMESTAMP''), (0x0e, ''FW_VERSION''), (0x0f, ''NUM_BYTES_MOVED''), (0x10, ''VRAM_USAGE''),
      (0x11, ''GTT_USAGE''), (0x13, ''GDS_CONFIG''), (0x14, ''VRAM_GTT''), (0x15, ''READ_MMR_REG''),
      (0x16, ''DEV_INFO''), (0x17, ''VIS_VRAM_USAGE''), (0x18, ''NUM_EVICTIONS''), (0x19, ''MEMORY''),
      (0x1a, ''VCE_CLOCK_TABLE''), (0x1b, ''VBIOS''), (0x1c, ''NUM_HANDLES''), (0x1d, ''SENSOR''),
      (0x1e, ''NUM_VRAM_CPU_PAGE_FAULTS''), (0x1f, ''VRAM_LOST_COUNTER''), (0x20, ''RAS_ENABLED_FEATURES''),
      (0x21, ''VIDEO_CAPS'')]"

definition name_or_hex :: "(u32 \<times> string) list \<Rightarrow> u32 \<Rightarrow> string" where
  "name_or_hex names w = (case map_of names w of Some nm \<Rightarrow> nm | None \<Rightarrow> ''?('' @ alt w @ '')'')"

definition write_info :: "drm_amdgpu_info \<Rightarrow> string" where
  "write_info rq =
     ''(query: '' @
     (case map_of query_names (info_query_id rq) of Some nm \<Rightarrow> ''AMDGPU_INFO_'' @ nm | None \<Rightarrow> '''') @
     (if info_query_id rq = 0x02 then
        ''(type: '' @ name_or_hex hw_ip_names (info_word rq 0) @ '', ip_instance: '' @ show_u (info_word rq 1) @ '')''
      else if info_query_id rq = 0x0e then
        ''(type: '' @ name_or_hex firmware_names (info_word rq 0) @ '', ip_instance: '' @
        show_u (info_word rq 1) @ '', index: '' @ show_u (info_word rq 2) @ '')''
      else if info_query_id rq = 0x15 then
        ''(dword_offset: '' @ alt (info_word rq 0) @ '', count: '' @ alt (info_word rq 1) @ '', instance: '' @
        alt (info_word rq 2) @ '', flags: '' @ alt (info_word rq 3) @ '')''
      else '''') @ '')''"

definition va_op_name :: "u32 \<Rightarrow> string" where
  "va_op_name op =
     (if op = AMDGPU_VA_OP_MAP then ''MAP'' else if op = AMDGPU_VA_OP_UNMAP then ''UNMAP''
      else if op = AMDGPU_VA_OP_CLEAR then ''CLEAR'' else if op = AMDGPU_VA_OP_REPLACE then ''REPLACE'' else '''')"

definition write_gem_va :: "drm_amdgpu_gem_va \<Rightarrow> string" where
  "write_gem_va a =
     ''(handle: '' @ show_u (va_handle a) @ '', operation: '' @ va_op_name (va_operation a) @ '', flags: '' @
     alt (va_op_flags a) @ '', va_address: '' @ alt (va_address a) @ '', offset_in_bo: '' @
     alt (va_offset_in_bo a) @ '', map_size: '' @ alt (va_map_size a) @ '')''"

definition write_wait_cs :: "drm_amdgpu_wait_cs_in \<Rightarrow> string" where
  "write_wait_cs i =
     ''(handle: '' @ show_u (wcs_handle i) @ '', timeout: '' @ show_u (wcs_timeout i) @ '', ip_type: '' @
     show_u (wcs_ip_type i) @ '', ip_instance: '' @ show_u (wcs_ip_instance i) @ '', ring: '' @
     show_u (wcs_ring i) @ '', ctx_id: '' @ show_u (wcs_ctx_id i) @ '')''"

definition write_userptr :: "drm_amdgpu_gem_userptr \<Rightarrow> string" where
  "write_userptr u =
     ''(addr: '' @ show_u (up_addr u) @ '', size: '' @ show_u (up_size u) @ '', flags: '' @ show_u (up_flags u) @ '')''"

definition amdgpu_call :: "u64 \<Rightarrow> drm_arg \<Rightarrow> string outcome" where
  "amdgpu_call cmd arg =
     (if cmd = 0x00 then
        (case arg of
           arg_gem_create (gem_create_in sz al domains flags) \<Rightarrow>
             Ret (''AMDGPU_GEM_CREATE'' @ write_gem_create sz al domains flags)
         | _ \<Rightarrow> Fault)
      else if cmd = 0x01 then
        (case arg of
           arg_gem_mmap (gem_mmap_in handle) \<Rightarrow> Ret (''AMDGPU_GEM_MMAP'' @ ''('' @ show_d handle @ '')'')
         | _ \<Rightarrow> Fault)
      else if cmd = 0x02 then
        (case arg of arg_ctx (ctx_in i) \<Rightarrow> Ret (''AMDGPU_CTX'' @ write_ctx i) | _ \<Rightarrow> Fault)
      else if cmd = 0x03 then Ret ''AMDGPU_BO_LIST''
      else if cmd = 0x04 then
        (case arg of
           arg_cs (cs_in i) \<Rightarrow> bind_outcome (write_cs i) (\<lambda>t. Ret (''AMDGPU_CS'' @ t))
         | _ \<Rightarrow> Fault)
      else if cmd = 0x05 then
        (case arg of arg_info rq m \<Rightarrow> Ret (''AMDGPU_INFO'' @ write_info rq) | _ \<Rightarrow> Fault)
      else if cmd = 0x06 then Ret ''AMDGPU_GEM_METADATA''
      else if cmd = 0x07 then Ret ''AMDGPU_GEM_WAIT_IDLE''
      else if cmd = 0x08 then
        (case arg of arg_gem_va a \<Rightarrow> Ret (''AMDGPU_GEM_VA'' @ write_gem_va a) | _ \<Rightarrow> Fault)
      else if cmd = 0x09 then
        (case arg of
           arg_wait_cs (wait_cs_in i) \<Rightarrow> Ret (''AMDGPU_WAIT_CS'' @ write_wait_cs i)
         | _ \<Rightarrow> Fault)
      else if cmd = 0x10 then Ret ''AMDGPU_GEM_OP''
      else if cmd = 0x11 then
        (case arg of arg_gem_userptr u \<Rightarrow> Ret (''AMDGPU_GEM_USERPTR'' @ write_userptr u) | _ \<Rightarrow> Fault)
      else if cmd = 0x12 then Ret ''AMDGPU_WAIT_FENCES''
      else if cmd = 0x13 then Ret ''AMDGPU_VM''
      else if cmd = 0x14 then Ret ''AMDGPU_FENCE_TO_HANDLE''
      else if cmd = 0x15 then Ret ''DRM_AMDGPU_SCHED''
      else Ret (''?('' @ alt cmd @ '')''))"

definition drmAmdgpuWriteCmd :: "u64 \<Rightarrow> drm_arg \<Rightarrow> bool \<Rightarrow> string outcome" where
  "drmAmdgpuWriteCmd cmd arg isPost = (if isPost then amdgpu_answer cmd arg else amdgpu_call cmd arg)"

section \<open>Calls and answers of every driver\<close>

definition write_text :: "string option \<Rightarrow> string outcome" where
  "write_text buf =
     (case buf of
        None \<Rightarrow> Fault
      | Some b \<Rightarrow> if CHR 0x00 \<in> set b then Ret (CHR 0x22 # c_string b @ [CHR 0x22]) else Fault)"

definition write_version :: "drm_version \<Rightarrow> string outcome" where
  "write_version v =
     bind_outcome (write_text (v_name v)) (\<lambda>n.
     bind_outcome (write_text (v_date v)) (\<lambda>da.
     bind_outcome (write_text (v_desc v)) (\<lambda>de.
       Ret ('' -> ('' @ nl @ ''  version: '' @ show_int (v_major v) @ ''.'' @ show_int (v_minor v) @ ''.'' @
            show_int (v_patchlevel v) @ nl @ ''  name: '' @ n @ nl @ ''  date: '' @ da @ nl @
            ''  desc: '' @ de @ nl @ '')''))))"

definition drm_answer :: "u64 \<Rightarrow> drm_arg \<Rightarrow> string outcome" where
  "drm_answer cmd arg =
     (if cmd = 0x00 then (case arg of arg_version v \<Rightarrow> write_version v | _ \<Rightarrow> Fault)
      else if cmd = 0x0c then
        (case arg of arg_get_cap c \<Rightarrow> Ret ('' -> '' @ show_x (cap_value c)) | _ \<Rightarrow> Fault)
      else if cmd = 0xbf then
        (case arg of arg_syncobj_create c \<Rightarrow> Ret ('' -> '' @ show_u (so_create_handle c)) | _ \<Rightarrow> Fault)
      else if cmd = 0xc1 then
        (case arg of
           arg_syncobj_handle h \<Rightarrow> Ret ('' -> '' @ show_u (word_of_int (so_fd h) :: u32))
         | _ \<Rightarrow> Fault)
      else if cmd = 0x2d then
        (case arg of arg_prime_handle h \<Rightarrow> Ret (''-> '' @ show_int (prime_fd h)) | _ \<Rightarrow> Fault)
      else if cmd = 0x2e then
        (case arg of arg_prime_handle h \<Rightarrow> Ret ('' -> '' @ show_u (prime_handle h)) | _ \<Rightarrow> Fault)
      else if cmd = 0xc3 then
        (case arg of arg_syncobj_wait w \<Rightarrow> Ret ('' -> '' @ show_u (wait_first_signaled w)) | _ \<Rightarrow> Fault)
      else if cmd = 0xca then
        (case arg of
           arg_syncobj_timeline_wait w \<Rightarrow> Ret ('' -> '' @ show_u (tl_first_signaled w))
         | _ \<Rightarrow> Fault)
      else Ret '''')"

text \<open>The calls of which only the name is printed.\<close>

definition plain_names :: "(u64 \<times> string) list" where
  "plain_names =
     [(0x00, ''VERSION''), (0x01, ''GET_UNIQUE''), (0x02, ''GET_MAGIC''), (0x03, ''IRQ_BUSID''),
      (0x04, ''GET_MAP''), (0x05, ''GET_CLIENT''), (0x06, ''GET_STATS''), (0x07, ''SET_VERSION''),
      (0x08, ''MODESET_CTL''), (0x0a, ''GEM_FLINK''), (0x0b, ''GEM_OPEN''), (0x0d, ''SET_CLIENT_CAP''),
      (0xc5, ''SYNCOBJ_SIGNAL''), (0xcb, ''SYNCOBJ_QUERY''), (0xcd, ''SYNCOBJ_TIMELINE_SIGNAL'')]"

definition cap_names :: "(u64 \<times> string) list" where
  "cap_names =
     [(0x1, ''DUMB_BUFFER''), (0x2, ''VBLANK_HIGH_CRTC''), (0x3, ''DUMB_PREFERRED_DEPTH''),
      (0x4, ''DUMB_PREFER_SHADOW''), (0x5, ''PRIME''), (0x6, ''TIMESTAMP_MONOTONIC''),
      (0x7, ''ASYNC_PAGE_FLIP''), (0x8, ''CURSOR_WIDTH''), (0x9, ''CURSOR_HEIGHT''),
      (0x10, ''ADDFB2_MODIFIERS''), (0x11, ''PAGE_FLIP_TARGET''), (0x12, ''CRTC_IN_VBLANK_EVENT''),
      (0x13, ''SYNCOBJ''), (0x14, ''SYNCOBJ_TIMELINE'')]"

definition wait_flag_names :: "(nat \<times> string) list" where
  "wait_flag_names = [(0, ''ALL''), (1, ''FOR_SUBMIT''), (2, ''AVAILABLE'')]"

definition write_cap :: "u64 \<Rightarrow> string" where
  "write_cap c = (case map_of cap_names c of Some nm \<Rightarrow> nm | None \<Rightarrow> ''? ('' @ show_u c @ '')'')"

definition write_wait :: "drm_syncobj_wait \<Rightarrow> string outcome" where
  "write_wait w =
     bind_outcome (array_prefix (unat (wait_count_handles w)) (wait_handles w)) (\<lambda>hs.
       Ret (''(handles: ('' @ joined (map show_u hs) @ ''), timeout_nsec: '' @
            show_u (word_of_int (wait_timeout_nsec w) :: u64) @ '', count_handles: '' @
            show_u (wait_count_handles w) @ '', flags: '' @
            write_flags wait_flag_names (flag32 (wait_flags w)) @ '')''))"

definition write_timeline_wait :: "drm_syncobj_timeline_wait \<Rightarrow> string outcome" where
  "write_timeline_wait w =
     bind_outcome (array_prefix (unat (tl_count_handles w)) (tl_handles w)) (\<lambda>hs.
     bind_outcome (array_prefix (unat (tl_count_handles w)) (tl_points w)) (\<lambda>ps.
       Ret (''(handles: ('' @ joined (map show_u hs) @ ''), points: ('' @ joined (map show_u ps) @
            ''), timeout_nsec: '' @ show_u (word_of_int (tl_timeout_nsec w) :: u64) @
            '', count_handles: '' @ show_u (tl_count_handles w) @ '', flags: '' @
            write_flags wait_flag_names (flag32 (tl_flags w)) @ '')'')))"

definition write_reset :: "drm_syncobj_array \<Rightarrow> string outcome" where
  "write_reset a =
     bind_outcome (array_prefix (unat (sa_count_handles a)) (sa_handles a)) (\<lambda>hs.
       Ret (''(handles: ('' @ joined (map show_u hs) @ ''), count_handles: '' @
            show_u (sa_count_handles a) @ '')''))"

definition write_transfer :: "drm_syncobj_transfer \<Rightarrow> string" where
  "write_transfer t =
     ''(src_handle: '' @ show_u (src_handle t) @ '', dst_handle: '' @ show_u (dst_handle t) @
     '', src_point: '' @ show_u (src_point t) @ '', dst_point: '' @ show_u (dst_point t) @ '', flags: '' @
     write_flags wait_flag_names (flag32 (transfer_flags t)) @ '')''"

definition write_accumulate :: "drm_syncobj_accumulate \<Rightarrow> string" where
  "write_accumulate a =
     ''(syncobj1: '' @ show_u (acc_syncobj1 a) @ '', syncobj2: '' @ show_u (acc_syncobj2 a) @ '', point: '' @
     show_u (acc_point a) @ '')''"

definition drm_call_text :: "u64 \<Rightarrow> drm_arg \<Rightarrow> string outcome" where
  "drm_call_text cmd arg =
     (case map_of plain_names cmd of
        Some nm \<Rightarrow> Ret nm
      | None \<Rightarrow>
          if cmd = 0x09 then
            (case arg of
               arg_gem_close c \<Rightarrow> Ret (''GEM_CLOSE'' @ ''('' @ show_u (gem_handle c) @ '')'')
             | _ \<Rightarrow> Fault)
          else if cmd = 0x0c then
            (case arg of
               arg_get_cap c \<Rightarrow> Ret (''GET_CAP'' @ ''('' @ write_cap (cap_capability c) @ '')'')
             | _ \<Rightarrow> Fault)
          else if cmd = 0x2d then
            (case arg of
               arg_prime_handle h \<Rightarrow> Ret (''PRIME_HANDLE_TO_FD'' @ ''('' @ show_u (prime_handle h) @ '')'')
             | _ \<Rightarrow> Fault)
          else if cmd = 0x2e then
            (case arg of
               arg_prime_handle h \<Rightarrow>
                 Ret (''PRIME_FD_TO_HANDLE'' @ ''(fd: '' @ show_u (word_of_int (prime_fd h) :: u32) @
                      '', flags: '' @ alt (prime_flags h) @ '')'')
             | _ \<Rightarrow> Fault)
          else if cmd = 0xbf then
            (case arg of
               arg_syncobj_create c \<Rightarrow>
                 Ret (''SYNCOBJ_CREATE'' @ ''(flags: '' @
                      write_flags [(0, ''SIGNALED'')] (flag32 (so_create_flags c)) @ '')'')
             | _ \<Rightarrow> Fault)
          else if cmd = 0xc0 then
            (case arg of
               arg_syncobj_destroy c \<Rightarrow> Ret (''SYNCOBJ_DESTROY'' @ ''('' @ show_u (so_destroy_handle c) @ '')'')
             | _ \<Rightarrow> Fault)
          else if cmd = 0xc1 then
            (case arg of
               arg_syncobj_handle h \<Rightarrow>
                 Ret (''SYNCOBJ_HANDLE_TO_FD'' @ ''(handle: '' @ show_u (so_handle h) @ '', flags: '' @
                      write_flags [(0, ''EXPORT_SYNC_FILE'')] (flag32 (so_flags h)) @ '')'')
             | _ \<Rightarrow> Fault)
          else if cmd = 0xc2 then
            (case arg of
               arg_syncobj_handle h \<Rightarrow>
                 Ret (''SYNCOBJ_FD_TO_HANDLE'' @ ''(fd: '' @ show_int (so_fd h) @ '', handle: '' @
                      show_u (so_handle h) @ '', flags: '' @
                      write_flags [(0, ''IMPORT_SYNC_FILE'')] (flag32 (so_flags h)) @ '')'')
             | _ \<Rightarrow> Fault)
          else if cmd = 0xc3 then
            (case arg of
               arg_syncobj_wait w \<Rightarrow> bind_outcome (write_wait w) (\<lambda>t. Ret (''SYNCOBJ_WAIT'' @ t))
             | _ \<Rightarrow> Fault)
          else if cmd = 0xc4 then
            (case arg of
               arg_syncobj_array a \<Rightarrow> bind_outcome (write_reset a) (\<lambda>t. Ret (''SYNCOBJ_RESET'' @ t))
             | _ \<Rightarrow> Fault)
          else if cmd = 0xca then
            (case arg of
               arg_syncobj_timeline_wait w \<Rightarrow>
                 bind_outcome (write_timeline_wait w) (\<lambda>t. Ret (''SYNCOBJ_TIMELINE_WAIT'' @ t))
             | _ \<Rightarrow> Fault)
          else if cmd = 0xcc then
            (case arg of
               arg_syncobj_transfer t \<Rightarrow> Ret (''SYNCOBJ_TRANSFER'' @ write_transfer t)
             | _ \<Rightarrow> Fault)
          else if cmd = 0xcf then
            (case arg of
               arg_syncobj_accumulate a \<Rightarrow> Ret (''SYNCOBJ_ACCUMULATE'' @ write_accumulate a)
             | _ \<Rightarrow> Fault)
          else Ret (''?('' @ alt cmd @ '')''))"

definition drmWriteCmd :: "u64 \<Rightarrow> drm_arg \<Rightarrow> bool \<Rightarrow> string outcome" where
  "drmWriteCmd cmd arg isPost =
     (if DRM_COMMAND_BASE \<le> cmd \<and> cmd < DRM_COMMAND_END then
        drmAmdgpuWriteCmd (cmd - DRM_COMMAND_BASE) arg isPost
      else if isPost then drm_answer cmd arg
      else drm_call_text cmd arg)"

definition dir_name :: "ioc_dir \<Rightarrow> string" where
  "dir_name d = (case d of IOC_VOID \<Rightarrow> ''-'' | IOC_IN \<Rightarrow> ''R'' | IOC_OUT \<Rightarrow> ''W'' | IOC_INOUT \<Rightarrow> ''RW'')"

text \<open>The group of a request is 'd', 100.\<close>

definition drmIoctlTrace :: "int \<Rightarrow> ioc \<Rightarrow> drm_arg \<Rightarrow> bool \<Rightarrow> string outcome" where
  "drmIoctlTrace fd request arg isPost =
     (let cmd = ioc_nr request mod 0x100
      in if \<not> isPost then
           bind_outcome (drmWriteCmd cmd arg False) (\<lambda>t.
             Ret (''drmIoctl('' @ show_int fd @ '', (100, '' @ t @ '', '' @ digits 10 (ioc_len request) @ '', '' @
                  dir_name (ioc_dir request) @ ''))''))
         else bind_outcome (drmWriteCmd cmd arg True) (\<lambda>t. Ret (t @ nl)))"

section \<open>Reading flags back\<close>

lemma takeWhile_joined:
  assumes "CHR '','' \<notin> set x"
  shows "takeWhile (\<lambda>c. c \<noteq> CHR '','') (joined (x # xs)) = x"
proof -
  have "takeWhile (\<lambda>c. c \<noteq> CHR '','') (x @ r) = x @ takeWhile (\<lambda>c. c \<noteq> CHR '','') r" for r
    by (rule takeWhile_append2) (use assms in blast)
  from this [of "[]"] this show ?thesis by (cases xs) simp_all
qed

lemma joined_inj:
  assumes "\<forall>x\<in>set xs \<union> set ys. x \<noteq> [] \<and> CHR '','' \<notin> set x" and "joined xs = joined ys"
  shows "xs = ys"
  using assms
proof (induction xs arbitrary: ys)
  case Nil
  show ?case
  proof (cases ys)
    case (Cons y zs)
    with Nil show ?thesis using takeWhile_joined [of y zs] by auto
  qed simp
next
  case (Cons x xs)
  show ?case
  proof (cases ys)
    case Nil
    with Cons.prems show ?thesis using takeWhile_joined [of x xs] by auto
  next
    case ys: (Cons y zs)
    have "x = y" using takeWhile_joined [of x xs] takeWhile_joined [of y zs] Cons.prems ys by auto
    moreover have "xs = [] \<longleftrightarrow> zs = []" and "joined xs = joined zs"
      using Cons.prems(2) ys \<open>x = y\<close> by (cases xs; cases zs; simp)+
    ultimately show ?thesis using Cons.IH [of zs] Cons.prems(1) ys by simp
  qed
qed

lemma flag32_bit: "i < 32 \<Longrightarrow> flag32 v i = bit v i"
  by (auto simp: flag32_def push_bit_eq_mult bit_iff_and_push_bit_not_eq_0 and.commute)

text \<open>A table whose names, with the numbers of the bits that have none, can be told apart.\<close>

definition readable :: "(nat \<times> string) list \<Rightarrow> bool" where
  "readable names \<longleftrightarrow> distinct (map (flag_name names) flag_bits)
     \<and> list_all (\<lambda>nm. nm \<noteq> [] \<and> list_all (\<lambda>c. c \<noteq> CHR '','') nm) (map (flag_name names) flag_bits)"

lemma set_flag_bits: "i \<in> set flag_bits \<longleftrightarrow> i < 32"
  by (simp only: flag_bits_def set_upt atLeastLessThan_iff le0 simp_thms)

lemma write_flags_inj:
  assumes "readable names" and "write_flags names P = write_flags names Q" and "i < 32"
  shows "P i \<longleftrightarrow> Q i"
proof -
  let ?name = "flag_name names"
  have plain: "?name j \<noteq> [] \<and> CHR '','' \<notin> set (?name j)" if "j < 32" for j
  proof -
    have "?name j \<in> set (map ?name flag_bits)"
      unfolding set_map by (rule imageI) (use that in \<open>simp only: set_flag_bits\<close>)
    with assms(1) show ?thesis unfolding readable_def list_all_iff by blast
  qed
  have inj: "inj_on ?name (set flag_bits)" using assms(1) by (simp add: readable_def distinct_map)
  have "joined (map ?name (filter P flag_bits)) = joined (map ?name (filter Q flag_bits))"
    using assms(2) by (simp add: write_flags_def)
  then have "map ?name (filter P flag_bits) = map ?name (filter Q flag_bits)"
    by (rule joined_inj [rotated]) (use plain in \<open>auto simp: set_flag_bits\<close>)
  then have "filter P flag_bits = filter Q flag_bits"
    by (rule map_inj_on) (rule inj_on_subset [OF inj], auto)
  then have "i \<in> set (filter P flag_bits) \<longleftrightarrow> i \<in> set (filter Q flag_bits)" by simp
  with assms(3) show ?thesis by (simp add: set_flag_bits)
qed

lemma write_flags32:
  assumes "readable names"
  shows "write_flags names (flag32 v) = write_flags names (flag32 w) \<longleftrightarrow> v = w"
proof
  assume "write_flags names (flag32 v) = write_flags names (flag32 w)"
  note same = write_flags_inj [OF assms this]
  show "v = w"
  proof (rule bit_word_eqI)
    fix n assume "n < LENGTH(32)"
    then have n: "n < 32" by simp
    show "bit v n \<longleftrightarrow> bit w n" using same [OF n] unfolding flag32_bit [OF n] .
  qed
qed simp

lemma readable_tables:
  "readable domain_names" "readable domain_flag_names" "readable wait_flag_names" "readable [(0, ''SIGNALED'')]"
  "readable [(0, ''EXPORT_SYNC_FILE'')]" "readable [(0, ''IMPORT_SYNC_FILE'')]"
  by code_simp+

lemma bit_flag_mask: "i < 32 \<Longrightarrow> bit (scast (push_bit i 1 :: u32) :: u64) n \<longleftrightarrow> n < 64 \<and> min 31 n = i"
  by (auto simp: bit_signed_iff push_bit_eq_mult [symmetric] bit_push_bit_iff bit_1_iff min_def
      simp del: push_bit_of_1)

lemma flag64_bits:
  assumes "i < 32"
  shows "flag64 v i \<longleftrightarrow> (\<exists>n. min 31 n = i \<and> bit v n)"
proof -
  have "(x :: u64) \<noteq> 0 \<longleftrightarrow> (\<exists>n. bit x n)" for x by (auto intro: bit_eqI)
  then have "flag64 v i \<longleftrightarrow> (\<exists>n. bit (scast (push_bit i 1 :: u32) AND v) n)"
    unfolding flag64_def .
  moreover have "bit v n \<Longrightarrow> n < 64" for n using bit_imp_le_length [of v n] by simp
  ultimately show ?thesis using assms by (simp only: bit_and_iff bit_flag_mask) blast
qed

lemma flag64_low: "i < 31 \<Longrightarrow> flag64 v i = bit v i"
  using flag64_bits [of i v] by (simp add: min_def) (metis not_less)

lemma flag64_high: "flag64 v 31 \<longleftrightarrow> drop_bit 31 v \<noteq> 0"
proof -
  have "(x :: u64) \<noteq> 0 \<longleftrightarrow> (\<exists>n. bit x n)" for x by (auto intro: bit_eqI)
  then have "drop_bit 31 v \<noteq> 0 \<longleftrightarrow> (\<exists>m. bit v (31 + m))" by (simp only: bit_drop_bit_eq comp_def)
  moreover have "flag64 v 31 \<longleftrightarrow> (\<exists>n\<ge>31. bit v n)" using flag64_bits [of 31 v] by (auto simp: min_def)
  moreover have "(\<exists>n\<ge>31. bit v n) \<longleftrightarrow> (\<exists>m. bit v (31 + m))" by (metis le_add1 le_iff_add)
  ultimately show ?thesis by simp
qed

lemma take_bit_31: "take_bit 31 v = take_bit 31 w \<longleftrightarrow> (\<forall>i<31. bit v i = bit (w :: u64) i)"
proof
  assume "take_bit 31 v = take_bit 31 w"
  then have "bit (take_bit 31 v) i = bit (take_bit 31 w) i" for i by simp
  then show "\<forall>i<31. bit v i = bit w i" by (simp only: bit_take_bit_iff) blast
next
  assume "\<forall>i<31. bit v i = bit w i"
  then show "take_bit 31 v = take_bit 31 w" by (intro bit_eqI) (auto simp: bit_take_bit_iff)
qed

lemma write_flags64:
  assumes "readable names"
  shows "write_flags names (flag64 v) = write_flags names (flag64 w) \<longleftrightarrow>
           take_bit 31 v = take_bit 31 w \<and> (drop_bit 31 v = 0 \<longleftrightarrow> drop_bit 31 w = 0)" (is "?l = ?r")
proof
  assume ?l
  note same = write_flags_inj [OF assms this]
  have "bit v i = bit w i" if "i < 31" for i using same [of i] that by (simp add: flag64_low)
  moreover have "drop_bit 31 v = 0 \<longleftrightarrow> drop_bit 31 w = 0" using same [of 31] by (simp add: flag64_high)
  ultimately show ?r by (simp add: take_bit_31)
next
  assume ?r
  have "flag64 v i = flag64 w i" if "i \<in> set flag_bits" for i
  proof (cases "i = 31")
    case True
    with \<open>?r\<close> show ?thesis by (simp add: flag64_high)
  next
    case False
    with that have "i < 31" by (simp add: set_flag_bits)
    with \<open>?r\<close> show ?thesis by (simp add: take_bit_31 flag64_low)
  qed
  then have "filter (flag64 v) flag_bits = filter (flag64 w) flag_bits" by (rule filter_cong [OF refl])
  then show ?l by (simp add: write_flags_def)
qed

text \<open>C40. The trace of a set of flags can be read back: two 32-bit values print the same exactly when
  they are equal, with each of the tables of names. On the 64-bit domains and flags of a new buffer
  object the loop tests an \<open>int\<close> shifted to its sign bit: the lower 31 bits can be read back, but all
  the bits from 31 on together print as bit 31.\<close>

theorem trace_flags_readable:
  assumes "names \<in> {domain_names, domain_flag_names, wait_flag_names, [(0, ''SIGNALED'')],
                     [(0, ''EXPORT_SYNC_FILE'')], [(0, ''IMPORT_SYNC_FILE'')]}"
  shows "(write_flags names (flag32 v) = write_flags names (flag32 w) \<longleftrightarrow> v = w)
       \<and> (write_flags names (flag64 x) = write_flags names (flag64 y) \<longleftrightarrow>
            take_bit 31 x = take_bit 31 y \<and> (drop_bit 31 x = 0 \<longleftrightarrow> drop_bit 31 y = 0))"
proof -
  have "readable names" using assms readable_tables by auto
  then show ?thesis by (simp only: write_flags32 write_flags64 simp_thms)
qed

theorem trace_flags_readable_witness:
  "write_flags domain_names (flag64 (2 ^ 31)) = write_flags domain_names (flag64 (2 ^ 32))
     \<and> write_flags domain_names (flag64 4) \<noteq> write_flags domain_names (flag64 2)"
  using trace_flags_readable [of domain_names 0 0 "2 ^ 31" "2 ^ 32"]
    trace_flags_readable [of domain_names 0 0 4 2]
  by (simp add: take_bit_eq_mod drop_bit_eq_div)

lemma bind_fault:
  "bind_outcome r f = Fault \<longleftrightarrow> r = Fault \<or> (\<exists>v. r = Ret v \<and> f v = Fault)"
  by (cases r) simp_all

lemma field_lines_fault:
  "field_lines ind fs m = Fault \<longleftrightarrow> (\<exists>(nm, off, n) \<in> set fs. length m < off + n)"
  by (induction ind fs m rule: field_lines.induct) (auto simp: bind_fault peek_def)

lemma write_memory_info_fault: "write_memory_info m = Fault \<longleftrightarrow> length m < 96"
proof -
  have heap: "drmAmdgpuWriteHeapInfo off m = Fault \<longleftrightarrow> length m < off + 32" for off
    unfolding drmAmdgpuWriteHeapInfo_def field_lines_fault by (auto simp: heap_info_fields_def)
  show ?thesis
    using heap [of 0] heap [of 32] heap [of 64]
    by (cases "drmAmdgpuWriteHeapInfo 0 m"; cases "drmAmdgpuWriteHeapInfo 32 m";
        cases "drmAmdgpuWriteHeapInfo 64 m"; simp add: write_memory_info_def)
qed

lemma write_info_answer_memory:
  "info_query_id rq \<in> set memory_info_queries \<Longrightarrow> write_info_answer rq m = write_memory_info m"
  by (auto simp: write_info_answer_def Let_def memory_info_queries_def AMDGPU_INFO_ACCEL_WORKING_def
      AMDGPU_INFO_DEV_INFO_def AMDGPU_INFO_HW_IP_INFO_def AMDGPU_INFO_FW_VERSION_def
      AMDGPU_INFO_GDS_CONFIG_def AMDGPU_INFO_VRAM_GTT_def AMDGPU_INFO_READ_MMR_REG_def)

text \<open>After the call of a query that has a case label but no text of its own, the trace reads the
  answer as the structure of the memory information: it prints it exactly when the answer is as long
  as that structure, and for the answers of 8 bytes that these queries have it reads past their end.\<close>

theorem trace_reads_past_answer:
  assumes "info_query_id rq \<in> set memory_info_queries"
      and "ioc_nr request mod 0x100 = DRM_COMMAND_BASE + DRM_AMDGPU_INFO"
  shows "drmIoctlTrace fd request (arg_info rq m) True = Fault \<longleftrightarrow> length m < 96"
  using assms
  by (simp add: drmIoctlTrace_def Let_def drmWriteCmd_def drmAmdgpuWriteCmd_def amdgpu_answer_def
      write_info_answer_memory write_memory_info_fault amdgpu_requests bind_fault)

theorem trace_reads_past_answer_witness:
  "drmIoctlTrace 3 (DRM_IOW (DRM_COMMAND_BASE + DRM_AMDGPU_INFO) 32)
     (arg_info \<lparr>return_size = 8, info_query_id = 0x0f, info_args = no_query\<rparr> (replicate 8 0)) True = Fault"
  using trace_reads_past_answer [of "\<lparr>return_size = 8, info_query_id = 0x0f, info_args = no_query\<rparr>"
      "DRM_IOW (DRM_COMMAND_BASE + DRM_AMDGPU_INFO) 32" 3 "replicate 8 0"]
  by (simp add: memory_info_queries_def DRM_IOW_def DRM_IOC_def amdgpu_requests)

end
