(* ===== verification/RegNames.thy ===== *)
theory RegNames imports Prelude begin

text \<open>
  The names of the registers, \<open>stub/radeon_hd_regs.cpp\<close>: the cases of its switch as tables, in the order
  of the source, which is that of the numbers.
\<close>

section \<open>The cases\<close>

definition reg_names_1 :: "(u32 \<times> string) list" where
  "reg_names_1 =
     [(0x44, ''SQ_WAVE_MODE''), (0x48, ''SQ_WAVE_STATUS''), (0x4c, ''SQ_WAVE_TRAPSTS''),
      (0x50, ''SQ_WAVE_HW_ID''), (0x54, ''SQ_WAVE_GPR_ALLOC''), (0x58, ''SQ_WAVE_LDS_ALLOC''),
      (0x5c, ''SQ_WAVE_IB_STS''), (0x60, ''SQ_WAVE_PC_LO''), (0x64, ''SQ_WAVE_PC_HI''),
      (0x68, ''SQ_WAVE_INST_DW0''), (0x6c, ''SQ_WAVE_INST_DW1''), (0x70, ''SQ_WAVE_IB_DBG0''),
      (0x9b0, ''SQ_WAVE_TBA_LO''), (0x9b4, ''SQ_WAVE_TBA_HI''), (0x9b8, ''SQ_WAVE_TMA_LO''),
      (0x9bc, ''SQ_WAVE_TMA_HI''), (0x9c0, ''SQ_WAVE_TTMP0''), (0x9c4, ''SQ_WAVE_TTMP1''),
      (0x9c8, ''SQ_WAVE_TTMP2''), (0x9cc, ''SQ_WAVE_TTMP3''), (0x9d0, ''SQ_WAVE_TTMP4''),
      (0x9d4, ''SQ_WAVE_TTMP5''), (0x9d8, ''SQ_WAVE_TTMP6''), (0x9dc, ''SQ_WAVE_TTMP7''),
      (0x9e0, ''SQ_WAVE_TTMP8''), (0x9e4, ''SQ_WAVE_TTMP9''), (0x9e8, ''SQ_WAVE_TTMP10''),
      (0x9ec, ''SQ_WAVE_TTMP11''), (0x9f0, ''SQ_WAVE_M0''), (0x9f8, ''SQ_WAVE_EXEC_LO''),
      (0x9fc, ''SQ_WAVE_EXEC_HI''), (0x8000, ''GRBM_CNTL''), (0x8004, ''GRBM_SKEW_CNTL''),
      (0x8008, ''GRBM_STATUS2''), (0x800c, ''GRBM_PWR_CNTL''), (0x8010, ''GRBM_STATUS''),
      (0x8014, ''GRBM_STATUS_SE0''), (0x8018, ''GRBM_STATUS_SE1''), (0x8020, ''GRBM_SOFT_RESET''),
      (0x8024, ''GRBM_DEBUG_CNTL''), (0x8028, ''GRBM_DEBUG_DATA''), (0x802c, ''GRBM_GFX_INDEX''),
      (0x8030, ''GRBM_GFX_CLKEN_CNTL''), (0x8034, ''GRBM_WAIT_IDLE_CLOCKS''), (0x8050, ''GRBM_DEBUG''),
      (0x8054, ''GRBM_DEBUG_SNAPSHOT''), (0x8058, ''GRBM_READ_ERROR''), (0x8060, ''GRBM_INT_CNTL''),
      (0x8070, ''GRBM_PERFCOUNTER0_SELECT''), (0x8074, ''GRBM_PERFCOUNTER1_SELECT''),
      (0x8078, ''GRBM_PERFCOUNTER0_LO''), (0x807c, ''GRBM_PERFCOUNTER0_HI''),
      (0x8080, ''GRBM_PERFCOUNTER1_LO''), (0x8084, ''GRBM_PERFCOUNTER1_HI''),
      (0x8098, ''GRBM_SE0_PERFCOUNTER_SELECT''), (0x809c, ''GRBM_SE1_PERFCOUNTER_SELECT''),
      (0x80a8, ''GRBM_SE0_PERFCOUNTER_LO''), (0x80ac, ''GRBM_SE0_PERFCOUNTER_HI''),
      (0x80b0, ''GRBM_SE1_PERFCOUNTER_LO''), (0x80b4, ''GRBM_SE1_PERFCOUNTER_HI''),
      (0x80f0, ''DEBUG_INDEX''), (0x80f4, ''DEBUG_DATA''), (0x80fc, ''GRBM_NOWHERE''),
      (0x8100, ''GRBM_SCRATCH_REG0''), (0x8104, ''GRBM_SCRATCH_REG1''), (0x8108, ''GRBM_SCRATCH_REG2''),
      (0x810c, ''GRBM_SCRATCH_REG3''), (0x8110, ''GRBM_SCRATCH_REG4''), (0x8114, ''GRBM_SCRATCH_REG5''),
      (0x8118, ''GRBM_SCRATCH_REG6''), (0x811c, ''GRBM_SCRATCH_REG7''),
      (0x8300, ''SQ_INTERRUPT_WORD_AUTO''), (0x8400, ''CP_EOP_DONE_ADDR_LO''),
      (0x8404, ''CP_EOP_DONE_ADDR_HI''), (0x8408, ''CP_EOP_DONE_DATA_LO''),
      (0x840c, ''CP_EOP_DONE_DATA_HI''), (0x8410, ''CP_EOP_LAST_FENCE_LO''),
      (0x8414, ''CP_EOP_LAST_FENCE_HI''), (0x8418, ''CP_STREAM_OUT_ADDR_LO''),
      (0x841c, ''CP_STREAM_OUT_ADDR_HI''), (0x8420, ''CP_NUM_PRIM_WRITTEN_COUNT0_LO''),
      (0x8424, ''CP_NUM_PRIM_WRITTEN_COUNT0_HI''), (0x8428, ''CP_NUM_PRIM_NEEDED_COUNT0_LO''),
      (0x842c, ''CP_NUM_PRIM_NEEDED_COUNT0_HI''), (0x8430, ''CP_NUM_PRIM_WRITTEN_COUNT1_LO''),
      (0x8434, ''CP_NUM_PRIM_WRITTEN_COUNT1_HI''), (0x8438, ''CP_NUM_PRIM_NEEDED_COUNT1_LO''),
      (0x843c, ''CP_NUM_PRIM_NEEDED_COUNT1_HI''), (0x8440, ''CP_NUM_PRIM_WRITTEN_COUNT2_LO''),
      (0x8444, ''CP_NUM_PRIM_WRITTEN_COUNT2_HI''), (0x8448, ''CP_NUM_PRIM_NEEDED_COUNT2_LO''),
      (0x844c, ''CP_NUM_PRIM_NEEDED_COUNT2_HI''), (0x8450, ''CP_NUM_PRIM_WRITTEN_COUNT3_LO''),
      (0x8454, ''CP_NUM_PRIM_WRITTEN_COUNT3_HI''), (0x8458, ''CP_NUM_PRIM_NEEDED_COUNT3_LO''),
      (0x845c, ''CP_NUM_PRIM_NEEDED_COUNT3_HI''), (0x8460, ''CP_PIPE_STATS_ADDR_LO''),
      (0x8464, ''CP_PIPE_STATS_ADDR_HI''), (0x8468, ''CP_VGT_IAVERT_COUNT_LO''),
      (0x846c, ''CP_VGT_IAVERT_COUNT_HI''), (0x8470, ''CP_VGT_IAPRIM_COUNT_LO''),
      (0x8474, ''CP_VGT_IAPRIM_COUNT_HI''), (0x8478, ''CP_VGT_GSPRIM_COUNT_LO''),
      (0x847c, ''CP_VGT_GSPRIM_COUNT_HI''), (0x8480, ''CP_VGT_VSINVOC_COUNT_LO''),
      (0x8484, ''CP_VGT_VSINVOC_COUNT_HI''), (0x8488, ''CP_VGT_GSINVOC_COUNT_LO''),
      (0x848c, ''CP_VGT_GSINVOC_COUNT_HI''), (0x8490, ''CP_VGT_HSINVOC_COUNT_LO''),
      (0x8494, ''CP_VGT_HSINVOC_COUNT_HI''), (0x8498, ''CP_VGT_DSINVOC_COUNT_LO''),
      (0x849c, ''CP_VGT_DSINVOC_COUNT_HI''), (0x84a0, ''CP_PA_CINVOC_COUNT_LO''),
      (0x84a4, ''CP_PA_CINVOC_COUNT_HI''), (0x84a8, ''CP_PA_CPRIM_COUNT_LO''),
      (0x84ac, ''CP_PA_CPRIM_COUNT_HI''), (0x84b0, ''CP_SC_PSINVOC_COUNT0_LO''),
      (0x84b4, ''CP_SC_PSINVOC_COUNT0_HI''), (0x84b8, ''CP_SC_PSINVOC_COUNT1_LO''),
      (0x84bc, ''CP_SC_PSINVOC_COUNT1_HI''), (0x84c0, ''CP_VGT_CSINVOC_COUNT_LO''),
      (0x84c4, ''CP_VGT_CSINVOC_COUNT_HI''), (0x84fc, ''CP_STRMOUT_CNTL''), (0x8500, ''SCRATCH_REG0''),
      (0x8504, ''SCRATCH_REG1''), (0x8508, ''SCRATCH_REG2''), (0x850c, ''SCRATCH_REG3''),
      (0x8510, ''SCRATCH_REG4''), (0x8514, ''SCRATCH_REG5''), (0x8518, ''SCRATCH_REG6''),
      (0x851c, ''SCRATCH_REG7''), (0x8540, ''SCRATCH_UMSK''), (0x8544, ''SCRATCH_ADDR''),
      (0x8560, ''CP_APPEND_ADDR_LO''), (0x8564, ''CP_APPEND_ADDR_HI'')]"

definition reg_names_2 :: "(u32 \<times> string) list" where
  "reg_names_2 =
     [(0x8568, ''CP_APPEND_DATA''), (0x856c, ''CP_APPEND_LAST_CS_FENCE''),
      (0x8570, ''CP_APPEND_LAST_PS_FENCE''), (0x8574, ''CP_ATOMIC_PREOP_LO''),
      (0x8578, ''CP_ATOMIC_PREOP_HI''), (0x857c, ''CP_GDS_ATOMIC0_PREOP_LO''),
      (0x8580, ''CP_GDS_ATOMIC0_PREOP_HI''), (0x8584, ''CP_GDS_ATOMIC1_PREOP_LO''),
      (0x8588, ''CP_GDS_ATOMIC1_PREOP_HI''), (0x85a4, ''CP_ME_MC_WADDR_LO''),
      (0x85a8, ''CP_ME_MC_WADDR_HI''), (0x85ac, ''CP_ME_MC_WDATA_LO''), (0x85b0, ''CP_ME_MC_WDATA_HI''),
      (0x85b4, ''CP_ME_MC_RADDR_LO''), (0x85b8, ''CP_ME_MC_RADDR_HI''), (0x85bc, ''CP_SEM_WAIT_TIMER''),
      (0x85c0, ''CP_SIG_SEM_ADDR_LO''), (0x85c4, ''CP_SIG_SEM_ADDR_HI''),
      (0x85d0, ''CP_WAIT_REG_MEM_TIMEOUT''), (0x85d4, ''CP_WAIT_SEM_ADDR_LO''),
      (0x85d8, ''CP_WAIT_SEM_ADDR_HI''), (0x85ec, ''CP_COHER_START_DELAY''), (0x85f0, ''CP_COHER_CNTL''),
      (0x85f4, ''CP_COHER_SIZE''), (0x85f8, ''CP_COHER_BASE''), (0x85fc, ''CP_COHER_STATUS''),
      (0x8600, ''CP_DMA_ME_SRC_ADDR''), (0x8604, ''CP_DMA_ME_SRC_ADDR_HI''),
      (0x8608, ''CP_DMA_ME_DST_ADDR''), (0x860c, ''CP_DMA_ME_DST_ADDR_HI''),
      (0x8610, ''CP_DMA_ME_COMMAND''), (0x8614, ''CP_DMA_PFP_SRC_ADDR''),
      (0x8618, ''CP_DMA_PFP_SRC_ADDR_HI''), (0x861c, ''CP_DMA_PFP_DST_ADDR''),
      (0x8620, ''CP_DMA_PFP_DST_ADDR_HI''), (0x8624, ''CP_DMA_PFP_COMMAND''), (0x8628, ''CP_DMA_CNTL''),
      (0x862c, ''CP_DMA_READ_TAGS''), (0x8634, ''CP_PFP_IB_CONTROL''), (0x8638, ''CP_PFP_LOAD_CONTROL''),
      (0x863c, ''CP_SCRATCH_INDEX''), (0x8640, ''CP_SCRATCH_DATA''), (0x8644, ''CP_RB_OFFSET''),
      (0x8648, ''CP_IB1_OFFSET''), (0x864c, ''CP_IB2_OFFSET''), (0x8650, ''CP_IB1_PREAMBLE_BEGIN''),
      (0x8654, ''CP_IB1_PREAMBLE_END''), (0x8658, ''CP_IB2_PREAMBLE_BEGIN''),
      (0x865c, ''CP_IB2_PREAMBLE_END''), (0x8670, ''CP_STALLED_STAT3''), (0x8674, ''CP_STALLED_STAT1''),
      (0x8678, ''CP_STALLED_STAT2''), (0x867c, ''CP_BUSY_STAT''), (0x8680, ''CP_STAT''),
      (0x8684, ''CP_ME_HEADER_DUMP''), (0x8688, ''CP_PFP_HEADER_DUMP''), (0x868c, ''CP_GRBM_FREE_COUNT''),
      (0x8690, ''CP_CE_HEADER_DUMP''), (0x869c, ''CP_MC_PACK_DELAY_CNT''), (0x86d0, ''CP_CSF_STAT''),
      (0x86d4, ''CP_CSF_CNTL''), (0x86d8, ''CP_ME_CNTL''), (0x86e0, ''CP_CNTX_STAT''),
      (0x86e4, ''CP_ME_PREEMPTION''), (0x86f8, ''CP_RB2_RPTR''), (0x86fc, ''CP_RB1_RPTR''),
      (0x8700, ''CP_RB0_RPTR''), (0x8704, ''CP_RB_WPTR_DELAY''), (0x8708, ''CP_RB_WPTR_POLL_CNTL''),
      (0x870c, ''CP_CE_INIT_BASE_LO''), (0x8710, ''CP_CE_INIT_BASE_HI''), (0x8714, ''CP_CE_INIT_BUFSZ''),
      (0x8718, ''CP_CE_IB1_BASE_LO''), (0x871c, ''CP_CE_IB1_BASE_HI''), (0x8720, ''CP_CE_IB1_BUFSZ''),
      (0x8724, ''CP_CE_IB2_BASE_LO''), (0x8728, ''CP_CE_IB2_BASE_HI''), (0x872c, ''CP_CE_IB2_BUFSZ''),
      (0x8730, ''CP_IB1_BASE_LO''), (0x8734, ''CP_IB1_BASE_HI''), (0x8738, ''CP_IB1_BUFSZ''),
      (0x873c, ''CP_IB2_BASE_LO''), (0x8740, ''CP_IB2_BASE_HI''), (0x8744, ''CP_IB2_BUFSZ''),
      (0x8748, ''CP_ST_BASE_LO''), (0x874c, ''CP_ST_BASE_HI''), (0x8750, ''CP_ST_BUFSZ''),
      (0x8754, ''CP_ROQ1_THRESHOLDS''), (0x8758, ''CP_ROQ2_THRESHOLDS''), (0x875c, ''CP_STQ_THRESHOLDS''),
      (0x8760, ''CP_QUEUE_THRESHOLDS''), (0x8764, ''CP_MEQ_THRESHOLDS''), (0x8768, ''CP_ROQ_AVAIL''),
      (0x876c, ''CP_STQ_AVAIL''), (0x8770, ''CP_ROQ2_AVAIL''), (0x8774, ''CP_MEQ_AVAIL''),
      (0x8778, ''CP_CMD_INDEX''), (0x877c, ''CP_CMD_DATA''), (0x8780, ''CP_ROQ_RB_STAT''),
      (0x8784, ''CP_ROQ_IB1_STAT''), (0x8788, ''CP_ROQ_IB2_STAT''), (0x878c, ''CP_STQ_STAT''),
      (0x8794, ''CP_MEQ_STAT''), (0x8798, ''CP_CEQ1_AVAIL''), (0x879c, ''CP_CEQ2_AVAIL''),
      (0x87a0, ''CP_CE_ROQ_RB_STAT''), (0x87a4, ''CP_CE_ROQ_IB1_STAT''), (0x87a8, ''CP_CE_ROQ_IB2_STAT''),
      (0x87dc, ''CP_INT_STAT_DEBUG''), (0x87fc, ''CP_PERFMON_CNTL''), (0x8880, ''IA_PERFCOUNTER0_SELECT''),
      (0x8884, ''IA_PERFCOUNTER1_SELECT''), (0x8888, ''IA_PERFCOUNTER2_SELECT''),
      (0x888c, ''IA_PERFCOUNTER3_SELECT''), (0x8890, ''IA_PERFCOUNTER0_LO''),
      (0x8894, ''IA_PERFCOUNTER0_HI''), (0x8898, ''IA_PERFCOUNTER1_LO''), (0x889c, ''IA_PERFCOUNTER1_HI''),
      (0x88a0, ''IA_PERFCOUNTER2_LO''), (0x88a4, ''IA_PERFCOUNTER2_HI''), (0x88a8, ''IA_PERFCOUNTER3_LO''),
      (0x88ac, ''IA_PERFCOUNTER3_HI''), (0x88b0, ''VGT_VTX_VECT_EJECT_REG''),
      (0x88b4, ''VGT_DMA_DATA_FIFO_DEPTH''), (0x88b8, ''VGT_DMA_REQ_FIFO_DEPTH''),
      (0x88bc, ''VGT_DRAW_INIT_FIFO_DEPTH''), (0x88c0, ''VGT_LAST_COPY_STATE''),
      (0x88c4, ''VGT_CACHE_INVALIDATION''), (0x88c8, ''VGT_ESGS_RING_SIZE''),
      (0x88cc, ''VGT_GSVS_RING_SIZE''), (0x88d0, ''VGT_FIFO_DEPTHS''), (0x88d4, ''VGT_GS_VERTEX_REUSE''),
      (0x88d8, ''VGT_MC_LAT_CNTL''), (0x88dc, ''IA_CNTL_STATUS''), (0x88e0, ''VGT_DEBUG_CNTL'')]"

definition reg_names_3 :: "(u32 \<times> string) list" where
  "reg_names_3 =
     [(0x88e4, ''VGT_DEBUG_DATA''), (0x88e8, ''IA_DEBUG_CNTL''), (0x88ec, ''IA_DEBUG_DATA''),
      (0x88f0, ''VGT_CNTL_STATUS''), (0x891c, ''VGT_PERFCOUNTER_SEID_MASK''),
      (0x8920, ''VGT_PERFCOUNTER0_SELECT''), (0x8924, ''VGT_PERFCOUNTER1_SELECT''),
      (0x8928, ''VGT_PERFCOUNTER2_SELECT''), (0x892c, ''VGT_PERFCOUNTER3_SELECT''),
      (0x8930, ''VGT_PERFCOUNTER0_LO''), (0x8934, ''VGT_PERFCOUNTER0_HI''),
      (0x8938, ''VGT_PERFCOUNTER1_LO''), (0x893c, ''VGT_PERFCOUNTER1_HI''),
      (0x8940, ''VGT_PERFCOUNTER2_LO''), (0x8944, ''VGT_PERFCOUNTER2_HI''),
      (0x8948, ''VGT_PERFCOUNTER3_LO''), (0x894c, ''VGT_PERFCOUNTER3_HI''),
      (0x8958, ''VGT_PRIMITIVE_TYPE''), (0x895c, ''VGT_INDEX_TYPE''),
      (0x8960, ''VGT_STRMOUT_BUFFER_FILLED_SIZE_0''), (0x8964, ''VGT_STRMOUT_BUFFER_FILLED_SIZE_1''),
      (0x8968, ''VGT_STRMOUT_BUFFER_FILLED_SIZE_2''), (0x896c, ''VGT_STRMOUT_BUFFER_FILLED_SIZE_3''),
      (0x8970, ''VGT_NUM_INDICES''), (0x8974, ''VGT_NUM_INSTANCES''), (0x897c, ''CGTT_VGT_CLK_CTRL''),
      (0x8980, ''IA_VMID_OVERRIDE''), (0x8984, ''CGTT_IA_CLK_CTRL''), (0x8988, ''VGT_TF_RING_SIZE''),
      (0x898c, ''VGT_SYS_CONFIG''), (0x89b0, ''VGT_HS_OFFCHIP_PARAM''), (0x89b8, ''VGT_TF_MEMORY_BASE''),
      (0x89bc, ''CC_GC_SHADER_ARRAY_CONFIG''), (0x89c0, ''GC_USER_SHADER_ARRAY_CONFIG''),
      (0x8a00, ''PA_SU_DEBUG_CNTL''), (0x8a04, ''PA_SU_DEBUG_DATA''), (0x8a10, ''PA_CL_CNTL_STATUS''),
      (0x8a14, ''PA_CL_ENHANCE''), (0x8a18, ''CGTT_PA_CLK_CTRL''), (0x8a20, ''PA_SU_PERFCOUNTER0_SELECT''),
      (0x8a24, ''PA_SU_PERFCOUNTER1_SELECT''), (0x8a28, ''PA_SU_PERFCOUNTER2_SELECT''),
      (0x8a2c, ''PA_SU_PERFCOUNTER3_SELECT''), (0x8a30, ''PA_SU_PERFCOUNTER0_LO''),
      (0x8a34, ''PA_SU_PERFCOUNTER0_HI''), (0x8a38, ''PA_SU_PERFCOUNTER1_LO''),
      (0x8a3c, ''PA_SU_PERFCOUNTER1_HI''), (0x8a40, ''PA_SU_PERFCOUNTER2_LO''),
      (0x8a44, ''PA_SU_PERFCOUNTER2_HI''), (0x8a48, ''PA_SU_PERFCOUNTER3_LO''),
      (0x8a4c, ''PA_SU_PERFCOUNTER3_HI''), (0x8a50, ''PA_SU_CNTL_STATUS''),
      (0x8a54, ''PA_SC_FIFO_DEPTH_CNTL''), (0x8a60, ''PA_SU_LINE_STIPPLE_VALUE''),
      (0x8a80, ''PA_SC_PERFCOUNTER0_SELECT''), (0x8a84, ''PA_SC_PERFCOUNTER1_SELECT''),
      (0x8a88, ''PA_SC_PERFCOUNTER2_SELECT''), (0x8a8c, ''PA_SC_PERFCOUNTER3_SELECT''),
      (0x8a90, ''PA_SC_PERFCOUNTER4_SELECT''), (0x8a94, ''PA_SC_PERFCOUNTER5_SELECT''),
      (0x8a98, ''PA_SC_PERFCOUNTER6_SELECT''), (0x8a9c, ''PA_SC_PERFCOUNTER7_SELECT''),
      (0x8aa0, ''PA_SC_PERFCOUNTER0_LO''), (0x8aa4, ''PA_SC_PERFCOUNTER0_HI''),
      (0x8aa8, ''PA_SC_PERFCOUNTER1_LO''), (0x8aac, ''PA_SC_PERFCOUNTER1_HI''),
      (0x8ab0, ''PA_SC_PERFCOUNTER2_LO''), (0x8ab4, ''PA_SC_PERFCOUNTER2_HI''),
      (0x8ab8, ''PA_SC_PERFCOUNTER3_LO''), (0x8abc, ''PA_SC_PERFCOUNTER3_HI''),
      (0x8ac0, ''PA_SC_PERFCOUNTER4_LO''), (0x8ac4, ''PA_SC_PERFCOUNTER4_HI''),
      (0x8ac8, ''PA_SC_PERFCOUNTER5_LO''), (0x8acc, ''PA_SC_PERFCOUNTER5_HI''),
      (0x8ad0, ''PA_SC_PERFCOUNTER6_LO''), (0x8ad4, ''PA_SC_PERFCOUNTER6_HI''),
      (0x8ad8, ''PA_SC_PERFCOUNTER7_LO''), (0x8adc, ''PA_SC_PERFCOUNTER7_HI''),
      (0x8b10, ''PA_SC_LINE_STIPPLE_STATE''), (0x8b24, ''PA_SC_FORCE_EOV_MAX_CNTS''),
      (0x8b28, ''CGTT_SC_CLK_CTRL''), (0x8bcc, ''PA_SC_FIFO_SIZE''), (0x8bd4, ''PA_SC_IF_FIFO_SIZE''),
      (0x8bd8, ''PA_SC_DEBUG_CNTL''), (0x8bdc, ''PA_SC_DEBUG_DATA''), (0x8bf0, ''PA_SC_ENHANCE''),
      (0x8c00, ''SQ_CONFIG''), (0x8c04, ''SQC_CONFIG''), (0x8c08, ''SQC_CACHES''),
      (0x8c0c, ''SQ_RANDOM_WAVE_PRI''), (0x8c10, ''SQ_REG_CREDITS''), (0x8c14, ''SQ_FIFO_SIZES''),
      (0x8c18, ''SQ_PERFCOUNTER_CTRL''), (0x8c1c, ''CC_SQC_BANK_DISABLE''),
      (0x8c20, ''USER_SQC_BANK_DISABLE''), (0x8c24, ''SQ_DEBUG_STS_GLOBAL''),
      (0x8c80, ''SQ_PERFCOUNTER0_LO''), (0x8c84, ''SQ_PERFCOUNTER0_HI''), (0x8c88, ''SQ_PERFCOUNTER1_LO''),
      (0x8c8c, ''SQ_PERFCOUNTER1_HI''), (0x8c90, ''SQ_PERFCOUNTER2_LO''), (0x8c94, ''SQ_PERFCOUNTER2_HI''),
      (0x8c98, ''SQ_PERFCOUNTER3_LO''), (0x8c9c, ''SQ_PERFCOUNTER3_HI''), (0x8ca0, ''SQ_PERFCOUNTER4_LO''),
      (0x8ca4, ''SQ_PERFCOUNTER4_HI''), (0x8ca8, ''SQ_PERFCOUNTER5_LO''), (0x8cac, ''SQ_PERFCOUNTER5_HI''),
      (0x8cb0, ''SQ_PERFCOUNTER6_LO''), (0x8cb4, ''SQ_PERFCOUNTER6_HI''), (0x8cb8, ''SQ_PERFCOUNTER7_LO''),
      (0x8cbc, ''SQ_PERFCOUNTER7_HI''), (0x8cc0, ''SQ_PERFCOUNTER8_LO''), (0x8cc4, ''SQ_PERFCOUNTER8_HI''),
      (0x8cc8, ''SQ_PERFCOUNTER9_LO''), (0x8ccc, ''SQ_PERFCOUNTER9_HI''),
      (0x8cd0, ''SQ_PERFCOUNTER10_LO''), (0x8cd4, ''SQ_PERFCOUNTER10_HI''),
      (0x8cd8, ''SQ_PERFCOUNTER11_LO''), (0x8cdc, ''SQ_PERFCOUNTER11_HI''),
      (0x8ce0, ''SQ_PERFCOUNTER12_LO''), (0x8ce4, ''SQ_PERFCOUNTER12_HI''),
      (0x8ce8, ''SQ_PERFCOUNTER13_LO''), (0x8cec, ''SQ_PERFCOUNTER13_HI''),
      (0x8cf0, ''SQ_PERFCOUNTER14_LO''), (0x8cf4, ''SQ_PERFCOUNTER14_HI''),
      (0x8cf8, ''SQ_PERFCOUNTER15_LO''), (0x8cfc, ''SQ_PERFCOUNTER15_HI''),
      (0x8d00, ''SQ_PERFCOUNTER0_SELECT''), (0x8d04, ''SQ_PERFCOUNTER1_SELECT''),
      (0x8d08, ''SQ_PERFCOUNTER2_SELECT''), (0x8d0c, ''SQ_PERFCOUNTER3_SELECT''),
      (0x8d10, ''SQ_PERFCOUNTER4_SELECT''), (0x8d14, ''SQ_PERFCOUNTER5_SELECT''),
      (0x8d18, ''SQ_PERFCOUNTER6_SELECT'')]"

definition reg_names_4 :: "(u32 \<times> string) list" where
  "reg_names_4 =
     [(0x8d1c, ''SQ_PERFCOUNTER7_SELECT''), (0x8d20, ''SQ_PERFCOUNTER8_SELECT''),
      (0x8d24, ''SQ_PERFCOUNTER9_SELECT''), (0x8d28, ''SQ_PERFCOUNTER10_SELECT''),
      (0x8d2c, ''SQ_PERFCOUNTER11_SELECT''), (0x8d30, ''SQ_PERFCOUNTER12_SELECT''),
      (0x8d34, ''SQ_PERFCOUNTER13_SELECT''), (0x8d38, ''SQ_PERFCOUNTER14_SELECT''),
      (0x8d3c, ''SQ_PERFCOUNTER15_SELECT''), (0x8d80, ''SQ_ALU_CLK_CTRL''), (0x8d84, ''SQ_TEX_CLK_CTRL''),
      (0x8d88, ''CGTT_SQ_CLK_CTRL''), (0x8d8c, ''CGTT_SQG_CLK_CTRL''), (0x8de0, ''SQ_IND_INDEX''),
      (0x8de4, ''SQ_IND_DATA''), (0x8df0, ''SQ_TIME_HI''), (0x8df4, ''SQ_TIME_LO''),
      (0x8e00, ''SQ_THREAD_TRACE_BASE''), (0x8e04, ''SQ_THREAD_TRACE_SIZE''),
      (0x8e08, ''SQ_THREAD_TRACE_MASK''), (0x8e0c, ''SQ_THREAD_TRACE_TOKEN_MASK''),
      (0x8e10, ''SQ_THREAD_TRACE_PERF_MASK''), (0x8e20, ''SQ_THREAD_TRACE_USERDATA_0''),
      (0x8e24, ''SQ_THREAD_TRACE_USERDATA_1''), (0x8e28, ''SQ_THREAD_TRACE_USERDATA_2''),
      (0x8e2c, ''SQ_THREAD_TRACE_USERDATA_3''), (0x8e30, ''SQ_THREAD_TRACE_WPTR''),
      (0x8e34, ''SQ_THREAD_TRACE_STATUS''), (0x8e38, ''SQ_THREAD_TRACE_MODE''),
      (0x8e3c, ''SQ_THREAD_TRACE_CTRL''), (0x8e40, ''SQ_THREAD_TRACE_CNTR''),
      (0x8e48, ''SQ_THREAD_TRACE_HIWATER''), (0x8e58, ''SQ_POWER_THROTTLE''),
      (0x8e5c, ''SQ_POWER_THROTTLE2''), (0x8e60, ''SQ_LB_CTR_CTRL''), (0x8e64, ''SQ_LB_DATA_ALU_CYCLES''),
      (0x8e68, ''SQ_LB_DATA_TEX_CYCLES''), (0x8e6c, ''SQ_LB_DATA_ALU_STALLS''),
      (0x8e70, ''SQ_LB_DATA_TEX_STALLS''), (0x8e80, ''SQC_SECDED_CNT''), (0x8e84, ''SQ_SEC_CNT''),
      (0x8e88, ''SQ_DED_CNT''), (0x8e8c, ''SQ_DED_INFO''), (0x8f00, ''SQ_BUF_RSRC_WORD0''),
      (0x8f04, ''SQ_BUF_RSRC_WORD1''), (0x8f08, ''SQ_BUF_RSRC_WORD2''), (0x8f0c, ''SQ_BUF_RSRC_WORD3''),
      (0x8f10, ''SQ_IMG_RSRC_WORD0''), (0x8f14, ''SQ_IMG_RSRC_WORD1''), (0x8f18, ''SQ_IMG_RSRC_WORD2''),
      (0x8f1c, ''SQ_IMG_RSRC_WORD3''), (0x8f20, ''SQ_IMG_RSRC_WORD4''), (0x8f24, ''SQ_IMG_RSRC_WORD5''),
      (0x8f28, ''SQ_IMG_RSRC_WORD6''), (0x8f2c, ''SQ_IMG_RSRC_WORD7''), (0x8f30, ''SQ_IMG_SAMP_WORD0''),
      (0x8f34, ''SQ_IMG_SAMP_WORD1''), (0x8f38, ''SQ_IMG_SAMP_WORD2''), (0x8f3c, ''SQ_IMG_SAMP_WORD3''),
      (0x9100, ''SPI_CONFIG_CNTL''), (0x950c, ''TA_CS_BC_BASE_ADDR''), (0x98f8, ''GB_ADDR_CONFIG''),
      (0x9910, ''GB_TILE_MODE0''), (0x9914, ''GB_TILE_MODE1''), (0x9918, ''GB_TILE_MODE2''),
      (0x991c, ''GB_TILE_MODE3''), (0x9920, ''GB_TILE_MODE4''), (0x9924, ''GB_TILE_MODE5''),
      (0x9928, ''GB_TILE_MODE6''), (0x992c, ''GB_TILE_MODE7''), (0x9930, ''GB_TILE_MODE8''),
      (0x9934, ''GB_TILE_MODE9''), (0x9938, ''GB_TILE_MODE10''), (0x993c, ''GB_TILE_MODE11''),
      (0x9940, ''GB_TILE_MODE12''), (0x9944, ''GB_TILE_MODE13''), (0x9948, ''GB_TILE_MODE14''),
      (0x994c, ''GB_TILE_MODE15''), (0x9950, ''GB_TILE_MODE16''), (0x9954, ''GB_TILE_MODE17''),
      (0x9958, ''GB_TILE_MODE18''), (0x995c, ''GB_TILE_MODE19''), (0x9960, ''GB_TILE_MODE20''),
      (0x9964, ''GB_TILE_MODE21''), (0x9968, ''GB_TILE_MODE22''), (0x996c, ''GB_TILE_MODE23''),
      (0x9970, ''GB_TILE_MODE24''), (0x9974, ''GB_TILE_MODE25''), (0x9978, ''GB_TILE_MODE26''),
      (0x997c, ''GB_TILE_MODE27''), (0x9980, ''GB_TILE_MODE28''), (0x9984, ''GB_TILE_MODE29''),
      (0x9988, ''GB_TILE_MODE30''), (0x998c, ''GB_TILE_MODE31''), (0xb000, ''SPI_SHADER_TBA_LO_PS''),
      (0xb004, ''SPI_SHADER_TBA_HI_PS''), (0xb008, ''SPI_SHADER_TMA_LO_PS''),
      (0xb00c, ''SPI_SHADER_TMA_HI_PS''), (0xb020, ''SPI_SHADER_PGM_LO_PS''),
      (0xb024, ''SPI_SHADER_PGM_HI_PS''), (0xb028, ''SPI_SHADER_PGM_RSRC1_PS''),
      (0xb02c, ''SPI_SHADER_PGM_RSRC2_PS''), (0xb030, ''SPI_SHADER_USER_DATA_PS_0''),
      (0xb034, ''SPI_SHADER_USER_DATA_PS_1''), (0xb038, ''SPI_SHADER_USER_DATA_PS_2''),
      (0xb03c, ''SPI_SHADER_USER_DATA_PS_3''), (0xb040, ''SPI_SHADER_USER_DATA_PS_4''),
      (0xb044, ''SPI_SHADER_USER_DATA_PS_5''), (0xb048, ''SPI_SHADER_USER_DATA_PS_6''),
      (0xb04c, ''SPI_SHADER_USER_DATA_PS_7''), (0xb050, ''SPI_SHADER_USER_DATA_PS_8''),
      (0xb054, ''SPI_SHADER_USER_DATA_PS_9''), (0xb058, ''SPI_SHADER_USER_DATA_PS_10''),
      (0xb05c, ''SPI_SHADER_USER_DATA_PS_11''), (0xb060, ''SPI_SHADER_USER_DATA_PS_12''),
      (0xb064, ''SPI_SHADER_USER_DATA_PS_13''), (0xb068, ''SPI_SHADER_USER_DATA_PS_14''),
      (0xb06c, ''SPI_SHADER_USER_DATA_PS_15''), (0xb100, ''SPI_SHADER_TBA_LO_VS''),
      (0xb104, ''SPI_SHADER_TBA_HI_VS''), (0xb108, ''SPI_SHADER_TMA_LO_VS''),
      (0xb10c, ''SPI_SHADER_TMA_HI_VS''), (0xb120, ''SPI_SHADER_PGM_LO_VS''),
      (0xb124, ''SPI_SHADER_PGM_HI_VS''), (0xb128, ''SPI_SHADER_PGM_RSRC1_VS''),
      (0xb12c, ''SPI_SHADER_PGM_RSRC2_VS''), (0xb130, ''SPI_SHADER_USER_DATA_VS_0''),
      (0xb134, ''SPI_SHADER_USER_DATA_VS_1''), (0xb138, ''SPI_SHADER_USER_DATA_VS_2''),
      (0xb13c, ''SPI_SHADER_USER_DATA_VS_3''), (0xb140, ''SPI_SHADER_USER_DATA_VS_4''),
      (0xb144, ''SPI_SHADER_USER_DATA_VS_5''), (0xb148, ''SPI_SHADER_USER_DATA_VS_6''),
      (0xb14c, ''SPI_SHADER_USER_DATA_VS_7''), (0xb150, ''SPI_SHADER_USER_DATA_VS_8'')]"

definition reg_names_5 :: "(u32 \<times> string) list" where
  "reg_names_5 =
     [(0xb154, ''SPI_SHADER_USER_DATA_VS_9''), (0xb158, ''SPI_SHADER_USER_DATA_VS_10''),
      (0xb15c, ''SPI_SHADER_USER_DATA_VS_11''), (0xb160, ''SPI_SHADER_USER_DATA_VS_12''),
      (0xb164, ''SPI_SHADER_USER_DATA_VS_13''), (0xb168, ''SPI_SHADER_USER_DATA_VS_14''),
      (0xb16c, ''SPI_SHADER_USER_DATA_VS_15''), (0xb200, ''SPI_SHADER_TBA_LO_GS''),
      (0xb204, ''SPI_SHADER_TBA_HI_GS''), (0xb208, ''SPI_SHADER_TMA_LO_GS''),
      (0xb20c, ''SPI_SHADER_TMA_HI_GS''), (0xb220, ''SPI_SHADER_PGM_LO_GS''),
      (0xb224, ''SPI_SHADER_PGM_HI_GS''), (0xb228, ''SPI_SHADER_PGM_RSRC1_GS''),
      (0xb22c, ''SPI_SHADER_PGM_RSRC2_GS''), (0xb230, ''SPI_SHADER_USER_DATA_GS_0''),
      (0xb234, ''SPI_SHADER_USER_DATA_GS_1''), (0xb238, ''SPI_SHADER_USER_DATA_GS_2''),
      (0xb23c, ''SPI_SHADER_USER_DATA_GS_3''), (0xb240, ''SPI_SHADER_USER_DATA_GS_4''),
      (0xb244, ''SPI_SHADER_USER_DATA_GS_5''), (0xb248, ''SPI_SHADER_USER_DATA_GS_6''),
      (0xb24c, ''SPI_SHADER_USER_DATA_GS_7''), (0xb250, ''SPI_SHADER_USER_DATA_GS_8''),
      (0xb254, ''SPI_SHADER_USER_DATA_GS_9''), (0xb258, ''SPI_SHADER_USER_DATA_GS_10''),
      (0xb25c, ''SPI_SHADER_USER_DATA_GS_11''), (0xb260, ''SPI_SHADER_USER_DATA_GS_12''),
      (0xb264, ''SPI_SHADER_USER_DATA_GS_13''), (0xb268, ''SPI_SHADER_USER_DATA_GS_14''),
      (0xb26c, ''SPI_SHADER_USER_DATA_GS_15''), (0xb300, ''SPI_SHADER_TBA_LO_ES''),
      (0xb304, ''SPI_SHADER_TBA_HI_ES''), (0xb308, ''SPI_SHADER_TMA_LO_ES''),
      (0xb30c, ''SPI_SHADER_TMA_HI_ES''), (0xb320, ''SPI_SHADER_PGM_LO_ES''),
      (0xb324, ''SPI_SHADER_PGM_HI_ES''), (0xb328, ''SPI_SHADER_PGM_RSRC1_ES''),
      (0xb32c, ''SPI_SHADER_PGM_RSRC2_ES''), (0xb330, ''SPI_SHADER_USER_DATA_ES_0''),
      (0xb334, ''SPI_SHADER_USER_DATA_ES_1''), (0xb338, ''SPI_SHADER_USER_DATA_ES_2''),
      (0xb33c, ''SPI_SHADER_USER_DATA_ES_3''), (0xb340, ''SPI_SHADER_USER_DATA_ES_4''),
      (0xb344, ''SPI_SHADER_USER_DATA_ES_5''), (0xb348, ''SPI_SHADER_USER_DATA_ES_6''),
      (0xb34c, ''SPI_SHADER_USER_DATA_ES_7''), (0xb350, ''SPI_SHADER_USER_DATA_ES_8''),
      (0xb354, ''SPI_SHADER_USER_DATA_ES_9''), (0xb358, ''SPI_SHADER_USER_DATA_ES_10''),
      (0xb35c, ''SPI_SHADER_USER_DATA_ES_11''), (0xb360, ''SPI_SHADER_USER_DATA_ES_12''),
      (0xb364, ''SPI_SHADER_USER_DATA_ES_13''), (0xb368, ''SPI_SHADER_USER_DATA_ES_14''),
      (0xb36c, ''SPI_SHADER_USER_DATA_ES_15''), (0xb400, ''SPI_SHADER_TBA_LO_HS''),
      (0xb404, ''SPI_SHADER_TBA_HI_HS''), (0xb408, ''SPI_SHADER_TMA_LO_HS''),
      (0xb40c, ''SPI_SHADER_TMA_HI_HS''), (0xb420, ''SPI_SHADER_PGM_LO_HS''),
      (0xb424, ''SPI_SHADER_PGM_HI_HS''), (0xb428, ''SPI_SHADER_PGM_RSRC1_HS''),
      (0xb42c, ''SPI_SHADER_PGM_RSRC2_HS''), (0xb430, ''SPI_SHADER_USER_DATA_HS_0''),
      (0xb434, ''SPI_SHADER_USER_DATA_HS_1''), (0xb438, ''SPI_SHADER_USER_DATA_HS_2''),
      (0xb43c, ''SPI_SHADER_USER_DATA_HS_3''), (0xb440, ''SPI_SHADER_USER_DATA_HS_4''),
      (0xb444, ''SPI_SHADER_USER_DATA_HS_5''), (0xb448, ''SPI_SHADER_USER_DATA_HS_6''),
      (0xb44c, ''SPI_SHADER_USER_DATA_HS_7''), (0xb450, ''SPI_SHADER_USER_DATA_HS_8''),
      (0xb454, ''SPI_SHADER_USER_DATA_HS_9''), (0xb458, ''SPI_SHADER_USER_DATA_HS_10''),
      (0xb45c, ''SPI_SHADER_USER_DATA_HS_11''), (0xb460, ''SPI_SHADER_USER_DATA_HS_12''),
      (0xb464, ''SPI_SHADER_USER_DATA_HS_13''), (0xb468, ''SPI_SHADER_USER_DATA_HS_14''),
      (0xb46c, ''SPI_SHADER_USER_DATA_HS_15''), (0xb500, ''SPI_SHADER_TBA_LO_LS''),
      (0xb504, ''SPI_SHADER_TBA_HI_LS''), (0xb508, ''SPI_SHADER_TMA_LO_LS''),
      (0xb50c, ''SPI_SHADER_TMA_HI_LS''), (0xb520, ''SPI_SHADER_PGM_LO_LS''),
      (0xb524, ''SPI_SHADER_PGM_HI_LS''), (0xb528, ''SPI_SHADER_PGM_RSRC1_LS''),
      (0xb52c, ''SPI_SHADER_PGM_RSRC2_LS''), (0xb530, ''SPI_SHADER_USER_DATA_LS_0''),
      (0xb534, ''SPI_SHADER_USER_DATA_LS_1''), (0xb538, ''SPI_SHADER_USER_DATA_LS_2''),
      (0xb53c, ''SPI_SHADER_USER_DATA_LS_3''), (0xb540, ''SPI_SHADER_USER_DATA_LS_4''),
      (0xb544, ''SPI_SHADER_USER_DATA_LS_5''), (0xb548, ''SPI_SHADER_USER_DATA_LS_6''),
      (0xb54c, ''SPI_SHADER_USER_DATA_LS_7''), (0xb550, ''SPI_SHADER_USER_DATA_LS_8''),
      (0xb554, ''SPI_SHADER_USER_DATA_LS_9''), (0xb558, ''SPI_SHADER_USER_DATA_LS_10''),
      (0xb55c, ''SPI_SHADER_USER_DATA_LS_11''), (0xb560, ''SPI_SHADER_USER_DATA_LS_12''),
      (0xb564, ''SPI_SHADER_USER_DATA_LS_13''), (0xb568, ''SPI_SHADER_USER_DATA_LS_14''),
      (0xb56c, ''SPI_SHADER_USER_DATA_LS_15''), (0xb800, ''COMPUTE_DISPATCH_INITIATOR''),
      (0xb804, ''COMPUTE_DIM_X''), (0xb808, ''COMPUTE_DIM_Y''), (0xb80c, ''COMPUTE_DIM_Z''),
      (0xb810, ''COMPUTE_START_X''), (0xb814, ''COMPUTE_START_Y''), (0xb818, ''COMPUTE_START_Z''),
      (0xb81c, ''COMPUTE_NUM_THREAD_X''), (0xb820, ''COMPUTE_NUM_THREAD_Y''),
      (0xb824, ''COMPUTE_NUM_THREAD_Z''), (0xb830, ''COMPUTE_PGM_LO''), (0xb834, ''COMPUTE_PGM_HI''),
      (0xb838, ''COMPUTE_TBA_LO''), (0xb83c, ''COMPUTE_TBA_HI''), (0xb840, ''COMPUTE_TMA_LO''),
      (0xb844, ''COMPUTE_TMA_HI''), (0xb848, ''COMPUTE_PGM_RSRC1''), (0xb84c, ''COMPUTE_PGM_RSRC2''),
      (0xb850, ''COMPUTE_VMID''), (0xb854, ''COMPUTE_RESOURCE_LIMITS''),
      (0xb858, ''COMPUTE_STATIC_THREAD_MGMT_SE0''), (0xb85c, ''COMPUTE_STATIC_THREAD_MGMT_SE1''),
      (0xb860, ''COMPUTE_TMPRING_SIZE''), (0xb900, ''COMPUTE_USER_DATA_0''),
      (0xb904, ''COMPUTE_USER_DATA_1''), (0xb908, ''COMPUTE_USER_DATA_2''),
      (0xb90c, ''COMPUTE_USER_DATA_3''), (0xb910, ''COMPUTE_USER_DATA_4''),
      (0xb914, ''COMPUTE_USER_DATA_5''), (0xb918, ''COMPUTE_USER_DATA_6''),
      (0xb91c, ''COMPUTE_USER_DATA_7''), (0xb920, ''COMPUTE_USER_DATA_8'')]"

definition reg_names_6 :: "(u32 \<times> string) list" where
  "reg_names_6 =
     [(0xb924, ''COMPUTE_USER_DATA_9''), (0xb928, ''COMPUTE_USER_DATA_10''),
      (0xb92c, ''COMPUTE_USER_DATA_11''), (0xb930, ''COMPUTE_USER_DATA_12''),
      (0xb934, ''COMPUTE_USER_DATA_13''), (0xb938, ''COMPUTE_USER_DATA_14''),
      (0xb93c, ''COMPUTE_USER_DATA_15''), (0x28000, ''DB_RENDER_CONTROL''),
      (0x28004, ''DB_COUNT_CONTROL''), (0x28008, ''DB_DEPTH_VIEW''), (0x2800c, ''DB_RENDER_OVERRIDE''),
      (0x28010, ''DB_RENDER_OVERRIDE2''), (0x28014, ''DB_HTILE_DATA_BASE''),
      (0x28020, ''DB_DEPTH_BOUNDS_MIN''), (0x28024, ''DB_DEPTH_BOUNDS_MAX''),
      (0x28028, ''DB_STENCIL_CLEAR''), (0x2802c, ''DB_DEPTH_CLEAR''),
      (0x28030, ''PA_SC_SCREEN_SCISSOR_TL''), (0x28034, ''PA_SC_SCREEN_SCISSOR_BR''),
      (0x2803c, ''DB_DEPTH_INFO''), (0x28040, ''DB_Z_INFO''), (0x28044, ''DB_STENCIL_INFO''),
      (0x28048, ''DB_Z_READ_BASE''), (0x2804c, ''DB_STENCIL_READ_BASE''), (0x28050, ''DB_Z_WRITE_BASE''),
      (0x28054, ''DB_STENCIL_WRITE_BASE''), (0x28058, ''DB_DEPTH_SIZE''), (0x2805c, ''DB_DEPTH_SLICE''),
      (0x28080, ''TA_BC_BASE_ADDR''), (0x281f8, ''COHER_DEST_BASE_2''), (0x281fc, ''COHER_DEST_BASE_3''),
      (0x28200, ''PA_SC_WINDOW_OFFSET''), (0x28204, ''PA_SC_WINDOW_SCISSOR_TL''),
      (0x28208, ''PA_SC_WINDOW_SCISSOR_BR''), (0x2820c, ''PA_SC_CLIPRECT_RULE''),
      (0x28210, ''PA_SC_CLIPRECT_0_TL''), (0x28214, ''PA_SC_CLIPRECT_0_BR''),
      (0x28218, ''PA_SC_CLIPRECT_1_TL''), (0x2821c, ''PA_SC_CLIPRECT_1_BR''),
      (0x28220, ''PA_SC_CLIPRECT_2_TL''), (0x28224, ''PA_SC_CLIPRECT_2_BR''),
      (0x28228, ''PA_SC_CLIPRECT_3_TL''), (0x2822c, ''PA_SC_CLIPRECT_3_BR''),
      (0x28230, ''PA_SC_EDGERULE''), (0x28234, ''PA_SU_HARDWARE_SCREEN_OFFSET''),
      (0x28238, ''CB_TARGET_MASK''), (0x2823c, ''CB_SHADER_MASK''),
      (0x28240, ''PA_SC_GENERIC_SCISSOR_TL''), (0x28244, ''PA_SC_GENERIC_SCISSOR_BR''),
      (0x28248, ''COHER_DEST_BASE_0''), (0x2824c, ''COHER_DEST_BASE_1''),
      (0x28250, ''PA_SC_VPORT_SCISSOR_0_TL''), (0x28254, ''PA_SC_VPORT_SCISSOR_0_BR''),
      (0x28258, ''PA_SC_VPORT_SCISSOR_1_TL''), (0x2825c, ''PA_SC_VPORT_SCISSOR_1_BR''),
      (0x28260, ''PA_SC_VPORT_SCISSOR_2_TL''), (0x28264, ''PA_SC_VPORT_SCISSOR_2_BR''),
      (0x28268, ''PA_SC_VPORT_SCISSOR_3_TL''), (0x2826c, ''PA_SC_VPORT_SCISSOR_3_BR''),
      (0x28270, ''PA_SC_VPORT_SCISSOR_4_TL''), (0x28274, ''PA_SC_VPORT_SCISSOR_4_BR''),
      (0x28278, ''PA_SC_VPORT_SCISSOR_5_TL''), (0x2827c, ''PA_SC_VPORT_SCISSOR_5_BR''),
      (0x28280, ''PA_SC_VPORT_SCISSOR_6_TL''), (0x28284, ''PA_SC_VPORT_SCISSOR_6_BR''),
      (0x28288, ''PA_SC_VPORT_SCISSOR_7_TL''), (0x2828c, ''PA_SC_VPORT_SCISSOR_7_BR''),
      (0x28290, ''PA_SC_VPORT_SCISSOR_8_TL''), (0x28294, ''PA_SC_VPORT_SCISSOR_8_BR''),
      (0x28298, ''PA_SC_VPORT_SCISSOR_9_TL''), (0x2829c, ''PA_SC_VPORT_SCISSOR_9_BR''),
      (0x282a0, ''PA_SC_VPORT_SCISSOR_10_TL''), (0x282a4, ''PA_SC_VPORT_SCISSOR_10_BR''),
      (0x282a8, ''PA_SC_VPORT_SCISSOR_11_TL''), (0x282ac, ''PA_SC_VPORT_SCISSOR_11_BR''),
      (0x282b0, ''PA_SC_VPORT_SCISSOR_12_TL''), (0x282b4, ''PA_SC_VPORT_SCISSOR_12_BR''),
      (0x282b8, ''PA_SC_VPORT_SCISSOR_13_TL''), (0x282bc, ''PA_SC_VPORT_SCISSOR_13_BR''),
      (0x282c0, ''PA_SC_VPORT_SCISSOR_14_TL''), (0x282c4, ''PA_SC_VPORT_SCISSOR_14_BR''),
      (0x282c8, ''PA_SC_VPORT_SCISSOR_15_TL''), (0x282cc, ''PA_SC_VPORT_SCISSOR_15_BR''),
      (0x282d0, ''PA_SC_VPORT_ZMIN_0''), (0x282d4, ''PA_SC_VPORT_ZMAX_0''),
      (0x282d8, ''PA_SC_VPORT_ZMIN_1''), (0x282dc, ''PA_SC_VPORT_ZMAX_1''),
      (0x282e0, ''PA_SC_VPORT_ZMIN_2''), (0x282e4, ''PA_SC_VPORT_ZMAX_2''),
      (0x282e8, ''PA_SC_VPORT_ZMIN_3''), (0x282ec, ''PA_SC_VPORT_ZMAX_3''),
      (0x282f0, ''PA_SC_VPORT_ZMIN_4''), (0x282f4, ''PA_SC_VPORT_ZMAX_4''),
      (0x282f8, ''PA_SC_VPORT_ZMIN_5''), (0x282fc, ''PA_SC_VPORT_ZMAX_5''),
      (0x28300, ''PA_SC_VPORT_ZMIN_6''), (0x28304, ''PA_SC_VPORT_ZMAX_6''),
      (0x28308, ''PA_SC_VPORT_ZMIN_7''), (0x2830c, ''PA_SC_VPORT_ZMAX_7''),
      (0x28310, ''PA_SC_VPORT_ZMIN_8''), (0x28314, ''PA_SC_VPORT_ZMAX_8''),
      (0x28318, ''PA_SC_VPORT_ZMIN_9''), (0x2831c, ''PA_SC_VPORT_ZMAX_9''),
      (0x28320, ''PA_SC_VPORT_ZMIN_10''), (0x28324, ''PA_SC_VPORT_ZMAX_10''),
      (0x28328, ''PA_SC_VPORT_ZMIN_11''), (0x2832c, ''PA_SC_VPORT_ZMAX_11''),
      (0x28330, ''PA_SC_VPORT_ZMIN_12''), (0x28334, ''PA_SC_VPORT_ZMAX_12''),
      (0x28338, ''PA_SC_VPORT_ZMIN_13''), (0x2833c, ''PA_SC_VPORT_ZMAX_13''),
      (0x28340, ''PA_SC_VPORT_ZMIN_14''), (0x28344, ''PA_SC_VPORT_ZMAX_14''),
      (0x28348, ''PA_SC_VPORT_ZMIN_15''), (0x2834c, ''PA_SC_VPORT_ZMAX_15''),
      (0x28350, ''PA_SC_RASTER_CONFIG''), (0x28360, ''CP_PERFMON_CNTX_CNTL''), (0x28364, ''CP_RINGID''),
      (0x28368, ''CP_VMID''), (0x28400, ''VGT_MAX_VTX_INDX''), (0x28404, ''VGT_MIN_VTX_INDX''),
      (0x28408, ''VGT_INDX_OFFSET''), (0x2840c, ''VGT_MULTI_PRIM_IB_RESET_INDX''),
      (0x28414, ''CB_BLEND_RED''), (0x28418, ''CB_BLEND_GREEN''), (0x2841c, ''CB_BLEND_BLUE''),
      (0x28420, ''CB_BLEND_ALPHA''), (0x2842c, ''DB_STENCIL_CONTROL''), (0x28430, ''DB_STENCILREFMASK''),
      (0x28434, ''DB_STENCILREFMASK_BF''), (0x2843c, ''PA_CL_VPORT_XSCALE''),
      (0x28440, ''PA_CL_VPORT_XOFFSET''), (0x28444, ''PA_CL_VPORT_YSCALE''),
      (0x28448, ''PA_CL_VPORT_YOFFSET''), (0x2844c, ''PA_CL_VPORT_ZSCALE'')]"

definition reg_names_7 :: "(u32 \<times> string) list" where
  "reg_names_7 =
     [(0x28450, ''PA_CL_VPORT_ZOFFSET''), (0x28454, ''PA_CL_VPORT_XSCALE_1''),
      (0x28458, ''PA_CL_VPORT_XOFFSET_1''), (0x2845c, ''PA_CL_VPORT_YSCALE_1''),
      (0x28460, ''PA_CL_VPORT_YOFFSET_1''), (0x28464, ''PA_CL_VPORT_ZSCALE_1''),
      (0x28468, ''PA_CL_VPORT_ZOFFSET_1''), (0x2846c, ''PA_CL_VPORT_XSCALE_2''),
      (0x28470, ''PA_CL_VPORT_XOFFSET_2''), (0x28474, ''PA_CL_VPORT_YSCALE_2''),
      (0x28478, ''PA_CL_VPORT_YOFFSET_2''), (0x2847c, ''PA_CL_VPORT_ZSCALE_2''),
      (0x28480, ''PA_CL_VPORT_ZOFFSET_2''), (0x28484, ''PA_CL_VPORT_XSCALE_3''),
      (0x28488, ''PA_CL_VPORT_XOFFSET_3''), (0x2848c, ''PA_CL_VPORT_YSCALE_3''),
      (0x28490, ''PA_CL_VPORT_YOFFSET_3''), (0x28494, ''PA_CL_VPORT_ZSCALE_3''),
      (0x28498, ''PA_CL_VPORT_ZOFFSET_3''), (0x2849c, ''PA_CL_VPORT_XSCALE_4''),
      (0x284a0, ''PA_CL_VPORT_XOFFSET_4''), (0x284a4, ''PA_CL_VPORT_YSCALE_4''),
      (0x284a8, ''PA_CL_VPORT_YOFFSET_4''), (0x284ac, ''PA_CL_VPORT_ZSCALE_4''),
      (0x284b0, ''PA_CL_VPORT_ZOFFSET_4''), (0x284b4, ''PA_CL_VPORT_XSCALE_5''),
      (0x284b8, ''PA_CL_VPORT_XOFFSET_5''), (0x284bc, ''PA_CL_VPORT_YSCALE_5''),
      (0x284c0, ''PA_CL_VPORT_YOFFSET_5''), (0x284c4, ''PA_CL_VPORT_ZSCALE_5''),
      (0x284c8, ''PA_CL_VPORT_ZOFFSET_5''), (0x284cc, ''PA_CL_VPORT_XSCALE_6''),
      (0x284d0, ''PA_CL_VPORT_XOFFSET_6''), (0x284d4, ''PA_CL_VPORT_YSCALE_6''),
      (0x284d8, ''PA_CL_VPORT_YOFFSET_6''), (0x284dc, ''PA_CL_VPORT_ZSCALE_6''),
      (0x284e0, ''PA_CL_VPORT_ZOFFSET_6''), (0x284e4, ''PA_CL_VPORT_XSCALE_7''),
      (0x284e8, ''PA_CL_VPORT_XOFFSET_7''), (0x284ec, ''PA_CL_VPORT_YSCALE_7''),
      (0x284f0, ''PA_CL_VPORT_YOFFSET_7''), (0x284f4, ''PA_CL_VPORT_ZSCALE_7''),
      (0x284f8, ''PA_CL_VPORT_ZOFFSET_7''), (0x284fc, ''PA_CL_VPORT_XSCALE_8''),
      (0x28500, ''PA_CL_VPORT_XOFFSET_8''), (0x28504, ''PA_CL_VPORT_YSCALE_8''),
      (0x28508, ''PA_CL_VPORT_YOFFSET_8''), (0x2850c, ''PA_CL_VPORT_ZSCALE_8''),
      (0x28510, ''PA_CL_VPORT_ZOFFSET_8''), (0x28514, ''PA_CL_VPORT_XSCALE_9''),
      (0x28518, ''PA_CL_VPORT_XOFFSET_9''), (0x2851c, ''PA_CL_VPORT_YSCALE_9''),
      (0x28520, ''PA_CL_VPORT_YOFFSET_9''), (0x28524, ''PA_CL_VPORT_ZSCALE_9''),
      (0x28528, ''PA_CL_VPORT_ZOFFSET_9''), (0x2852c, ''PA_CL_VPORT_XSCALE_10''),
      (0x28530, ''PA_CL_VPORT_XOFFSET_10''), (0x28534, ''PA_CL_VPORT_YSCALE_10''),
      (0x28538, ''PA_CL_VPORT_YOFFSET_10''), (0x2853c, ''PA_CL_VPORT_ZSCALE_10''),
      (0x28540, ''PA_CL_VPORT_ZOFFSET_10''), (0x28544, ''PA_CL_VPORT_XSCALE_11''),
      (0x28548, ''PA_CL_VPORT_XOFFSET_11''), (0x2854c, ''PA_CL_VPORT_YSCALE_11''),
      (0x28550, ''PA_CL_VPORT_YOFFSET_11''), (0x28554, ''PA_CL_VPORT_ZSCALE_11''),
      (0x28558, ''PA_CL_VPORT_ZOFFSET_11''), (0x2855c, ''PA_CL_VPORT_XSCALE_12''),
      (0x28560, ''PA_CL_VPORT_XOFFSET_12''), (0x28564, ''PA_CL_VPORT_YSCALE_12''),
      (0x28568, ''PA_CL_VPORT_YOFFSET_12''), (0x2856c, ''PA_CL_VPORT_ZSCALE_12''),
      (0x28570, ''PA_CL_VPORT_ZOFFSET_12''), (0x28574, ''PA_CL_VPORT_XSCALE_13''),
      (0x28578, ''PA_CL_VPORT_XOFFSET_13''), (0x2857c, ''PA_CL_VPORT_YSCALE_13''),
      (0x28580, ''PA_CL_VPORT_YOFFSET_13''), (0x28584, ''PA_CL_VPORT_ZSCALE_13''),
      (0x28588, ''PA_CL_VPORT_ZOFFSET_13''), (0x2858c, ''PA_CL_VPORT_XSCALE_14''),
      (0x28590, ''PA_CL_VPORT_XOFFSET_14''), (0x28594, ''PA_CL_VPORT_YSCALE_14''),
      (0x28598, ''PA_CL_VPORT_YOFFSET_14''), (0x2859c, ''PA_CL_VPORT_ZSCALE_14''),
      (0x285a0, ''PA_CL_VPORT_ZOFFSET_14''), (0x285a4, ''PA_CL_VPORT_XSCALE_15''),
      (0x285a8, ''PA_CL_VPORT_XOFFSET_15''), (0x285ac, ''PA_CL_VPORT_YSCALE_15''),
      (0x285b0, ''PA_CL_VPORT_YOFFSET_15''), (0x285b4, ''PA_CL_VPORT_ZSCALE_15''),
      (0x285b8, ''PA_CL_VPORT_ZOFFSET_15''), (0x285bc, ''PA_CL_UCP_0_X''), (0x285c0, ''PA_CL_UCP_0_Y''),
      (0x285c4, ''PA_CL_UCP_0_Z''), (0x285c8, ''PA_CL_UCP_0_W''), (0x285cc, ''PA_CL_UCP_1_X''),
      (0x285d0, ''PA_CL_UCP_1_Y''), (0x285d4, ''PA_CL_UCP_1_Z''), (0x285d8, ''PA_CL_UCP_1_W''),
      (0x285dc, ''PA_CL_UCP_2_X''), (0x285e0, ''PA_CL_UCP_2_Y''), (0x285e4, ''PA_CL_UCP_2_Z''),
      (0x285e8, ''PA_CL_UCP_2_W''), (0x285ec, ''PA_CL_UCP_3_X''), (0x285f0, ''PA_CL_UCP_3_Y''),
      (0x285f4, ''PA_CL_UCP_3_Z''), (0x285f8, ''PA_CL_UCP_3_W''), (0x285fc, ''PA_CL_UCP_4_X''),
      (0x28600, ''PA_CL_UCP_4_Y''), (0x28604, ''PA_CL_UCP_4_Z''), (0x28608, ''PA_CL_UCP_4_W''),
      (0x2860c, ''PA_CL_UCP_5_X''), (0x28610, ''PA_CL_UCP_5_Y''), (0x28614, ''PA_CL_UCP_5_Z''),
      (0x28618, ''PA_CL_UCP_5_W''), (0x28644, ''SPI_PS_INPUT_CNTL_0''), (0x28648, ''SPI_PS_INPUT_CNTL_1''),
      (0x2864c, ''SPI_PS_INPUT_CNTL_2''), (0x28650, ''SPI_PS_INPUT_CNTL_3''),
      (0x28654, ''SPI_PS_INPUT_CNTL_4''), (0x28658, ''SPI_PS_INPUT_CNTL_5''),
      (0x2865c, ''SPI_PS_INPUT_CNTL_6''), (0x28660, ''SPI_PS_INPUT_CNTL_7''),
      (0x28664, ''SPI_PS_INPUT_CNTL_8''), (0x28668, ''SPI_PS_INPUT_CNTL_9''),
      (0x2866c, ''SPI_PS_INPUT_CNTL_10''), (0x28670, ''SPI_PS_INPUT_CNTL_11''),
      (0x28674, ''SPI_PS_INPUT_CNTL_12''), (0x28678, ''SPI_PS_INPUT_CNTL_13''),
      (0x2867c, ''SPI_PS_INPUT_CNTL_14''), (0x28680, ''SPI_PS_INPUT_CNTL_15''),
      (0x28684, ''SPI_PS_INPUT_CNTL_16''), (0x28688, ''SPI_PS_INPUT_CNTL_17''),
      (0x2868c, ''SPI_PS_INPUT_CNTL_18''), (0x28690, ''SPI_PS_INPUT_CNTL_19'')]"

definition reg_names_8 :: "(u32 \<times> string) list" where
  "reg_names_8 =
     [(0x28694, ''SPI_PS_INPUT_CNTL_20''), (0x28698, ''SPI_PS_INPUT_CNTL_21''),
      (0x2869c, ''SPI_PS_INPUT_CNTL_22''), (0x286a0, ''SPI_PS_INPUT_CNTL_23''),
      (0x286a4, ''SPI_PS_INPUT_CNTL_24''), (0x286a8, ''SPI_PS_INPUT_CNTL_25''),
      (0x286ac, ''SPI_PS_INPUT_CNTL_26''), (0x286b0, ''SPI_PS_INPUT_CNTL_27''),
      (0x286b4, ''SPI_PS_INPUT_CNTL_28''), (0x286b8, ''SPI_PS_INPUT_CNTL_29''),
      (0x286bc, ''SPI_PS_INPUT_CNTL_30''), (0x286c0, ''SPI_PS_INPUT_CNTL_31''),
      (0x286c4, ''SPI_VS_OUT_CONFIG''), (0x286cc, ''SPI_PS_INPUT_ENA''), (0x286d0, ''SPI_PS_INPUT_ADDR''),
      (0x286d4, ''SPI_INTERP_CONTROL_0''), (0x286d8, ''SPI_PS_IN_CONTROL''), (0x286e0, ''SPI_BARYC_CNTL''),
      (0x286e8, ''SPI_TMPRING_SIZE''), (0x2870c, ''SPI_SHADER_POS_FORMAT''),
      (0x28710, ''SPI_SHADER_Z_FORMAT''), (0x28714, ''SPI_SHADER_COL_FORMAT''),
      (0x28780, ''CB_BLEND0_CONTROL''), (0x28784, ''CB_BLEND1_CONTROL''), (0x28788, ''CB_BLEND2_CONTROL''),
      (0x2878c, ''CB_BLEND3_CONTROL''), (0x28790, ''CB_BLEND4_CONTROL''), (0x28794, ''CB_BLEND5_CONTROL''),
      (0x28798, ''CB_BLEND6_CONTROL''), (0x2879c, ''CB_BLEND7_CONTROL''), (0x287cc, ''CS_COPY_STATE''),
      (0x287d0, ''GFX_COPY_STATE''), (0x287d4, ''PA_CL_POINT_X_RAD''), (0x287d8, ''PA_CL_POINT_Y_RAD''),
      (0x287dc, ''PA_CL_POINT_SIZE''), (0x287e0, ''PA_CL_POINT_CULL_RAD''), (0x287e4, ''VGT_DMA_BASE_HI''),
      (0x287e8, ''VGT_DMA_BASE''), (0x287f0, ''VGT_DRAW_INITIATOR''), (0x287f4, ''VGT_IMMED_DATA''),
      (0x287f8, ''VGT_EVENT_ADDRESS_REG''), (0x28800, ''DB_DEPTH_CONTROL''), (0x28804, ''DB_EQAA''),
      (0x28808, ''CB_COLOR_CONTROL''), (0x2880c, ''DB_SHADER_CONTROL''), (0x28810, ''PA_CL_CLIP_CNTL''),
      (0x28814, ''PA_SU_SC_MODE_CNTL''), (0x28818, ''PA_CL_VTE_CNTL''), (0x2881c, ''PA_CL_VS_OUT_CNTL''),
      (0x28820, ''PA_CL_NANINF_CNTL''), (0x28824, ''PA_SU_LINE_STIPPLE_CNTL''),
      (0x28828, ''PA_SU_LINE_STIPPLE_SCALE''), (0x2882c, ''PA_SU_PRIM_FILTER_CNTL''),
      (0x28a00, ''PA_SU_POINT_SIZE''), (0x28a04, ''PA_SU_POINT_MINMAX''), (0x28a08, ''PA_SU_LINE_CNTL''),
      (0x28a0c, ''PA_SC_LINE_STIPPLE''), (0x28a10, ''VGT_OUTPUT_PATH_CNTL''), (0x28a14, ''VGT_HOS_CNTL''),
      (0x28a18, ''VGT_HOS_MAX_TESS_LEVEL''), (0x28a1c, ''VGT_HOS_MIN_TESS_LEVEL''),
      (0x28a20, ''VGT_HOS_REUSE_DEPTH''), (0x28a24, ''VGT_GROUP_PRIM_TYPE''),
      (0x28a28, ''VGT_GROUP_FIRST_DECR''), (0x28a2c, ''VGT_GROUP_DECR''),
      (0x28a30, ''VGT_GROUP_VECT_0_CNTL''), (0x28a34, ''VGT_GROUP_VECT_1_CNTL''),
      (0x28a38, ''VGT_GROUP_VECT_0_FMT_CNTL''), (0x28a3c, ''VGT_GROUP_VECT_1_FMT_CNTL''),
      (0x28a40, ''VGT_GS_MODE''), (0x28a48, ''PA_SC_MODE_CNTL_0''), (0x28a4c, ''PA_SC_MODE_CNTL_1''),
      (0x28a50, ''VGT_ENHANCE''), (0x28a54, ''VGT_GS_PER_ES''), (0x28a58, ''VGT_ES_PER_GS''),
      (0x28a5c, ''VGT_GS_PER_VS''), (0x28a60, ''VGT_GSVS_RING_OFFSET_1''),
      (0x28a64, ''VGT_GSVS_RING_OFFSET_2''), (0x28a68, ''VGT_GSVS_RING_OFFSET_3''),
      (0x28a6c, ''VGT_GS_OUT_PRIM_TYPE''), (0x28a70, ''IA_ENHANCE''), (0x28a74, ''VGT_DMA_SIZE''),
      (0x28a78, ''VGT_DMA_MAX_SIZE''), (0x28a7c, ''VGT_DMA_INDEX_TYPE''),
      (0x28a84, ''VGT_PRIMITIVEID_EN''), (0x28a88, ''VGT_DMA_NUM_INSTANCES''),
      (0x28a8c, ''VGT_PRIMITIVEID_RESET''), (0x28a90, ''VGT_EVENT_INITIATOR''),
      (0x28a94, ''VGT_MULTI_PRIM_IB_RESET_EN''), (0x28aa0, ''VGT_INSTANCE_STEP_RATE_0''),
      (0x28aa4, ''VGT_INSTANCE_STEP_RATE_1''), (0x28aa8, ''IA_MULTI_VGT_PARAM''),
      (0x28aac, ''VGT_ESGS_RING_ITEMSIZE''), (0x28ab0, ''VGT_GSVS_RING_ITEMSIZE''),
      (0x28ab4, ''VGT_REUSE_OFF''), (0x28ab8, ''VGT_VTX_CNT_EN''), (0x28abc, ''DB_HTILE_SURFACE''),
      (0x28ac0, ''DB_SRESULTS_COMPARE_STATE0''), (0x28ac4, ''DB_SRESULTS_COMPARE_STATE1''),
      (0x28ac8, ''DB_PRELOAD_CONTROL''), (0x28ad0, ''VGT_STRMOUT_BUFFER_SIZE_0''),
      (0x28ad4, ''VGT_STRMOUT_VTX_STRIDE_0''), (0x28adc, ''VGT_STRMOUT_BUFFER_OFFSET_0''),
      (0x28ae0, ''VGT_STRMOUT_BUFFER_SIZE_1''), (0x28ae4, ''VGT_STRMOUT_VTX_STRIDE_1''),
      (0x28aec, ''VGT_STRMOUT_BUFFER_OFFSET_1''), (0x28af0, ''VGT_STRMOUT_BUFFER_SIZE_2''),
      (0x28af4, ''VGT_STRMOUT_VTX_STRIDE_2''), (0x28afc, ''VGT_STRMOUT_BUFFER_OFFSET_2''),
      (0x28b00, ''VGT_STRMOUT_BUFFER_SIZE_3''), (0x28b04, ''VGT_STRMOUT_VTX_STRIDE_3''),
      (0x28b0c, ''VGT_STRMOUT_BUFFER_OFFSET_3''), (0x28b28, ''VGT_STRMOUT_DRAW_OPAQUE_OFFSET''),
      (0x28b2c, ''VGT_STRMOUT_DRAW_OPAQUE_BUFFER_FILLED_SIZE''),
      (0x28b30, ''VGT_STRMOUT_DRAW_OPAQUE_VERTEX_STRIDE''), (0x28b38, ''VGT_GS_MAX_VERT_OUT''),
      (0x28b54, ''VGT_SHADER_STAGES_EN''), (0x28b58, ''VGT_LS_HS_CONFIG''),
      (0x28b5c, ''VGT_GS_VERT_ITEMSIZE''), (0x28b60, ''VGT_GS_VERT_ITEMSIZE_1''),
      (0x28b64, ''VGT_GS_VERT_ITEMSIZE_2''), (0x28b68, ''VGT_GS_VERT_ITEMSIZE_3''),
      (0x28b6c, ''VGT_TF_PARAM''), (0x28b70, ''DB_ALPHA_TO_MASK''),
      (0x28b78, ''PA_SU_POLY_OFFSET_DB_FMT_CNTL''), (0x28b7c, ''PA_SU_POLY_OFFSET_CLAMP''),
      (0x28b80, ''PA_SU_POLY_OFFSET_FRONT_SCALE''), (0x28b84, ''PA_SU_POLY_OFFSET_FRONT_OFFSET''),
      (0x28b88, ''PA_SU_POLY_OFFSET_BACK_SCALE''), (0x28b8c, ''PA_SU_POLY_OFFSET_BACK_OFFSET''),
      (0x28b90, ''VGT_GS_INSTANCE_CNT''), (0x28b94, ''VGT_STRMOUT_CONFIG''),
      (0x28b98, ''VGT_STRMOUT_BUFFER_CONFIG''), (0x28bd4, ''PA_SC_CENTROID_PRIORITY_0''),
      (0x28bd8, ''PA_SC_CENTROID_PRIORITY_1'')]"

definition reg_names_9 :: "(u32 \<times> string) list" where
  "reg_names_9 =
     [(0x28bdc, ''PA_SC_LINE_CNTL''), (0x28be0, ''PA_SC_AA_CONFIG''), (0x28be4, ''PA_SU_VTX_CNTL''),
      (0x28be8, ''PA_CL_GB_VERT_CLIP_ADJ''), (0x28bec, ''PA_CL_GB_VERT_DISC_ADJ''),
      (0x28bf0, ''PA_CL_GB_HORZ_CLIP_ADJ''), (0x28bf4, ''PA_CL_GB_HORZ_DISC_ADJ''),
      (0x28bf8, ''PA_SC_AA_SAMPLE_LOCS_PIXEL_X0Y0_0''), (0x28bfc, ''PA_SC_AA_SAMPLE_LOCS_PIXEL_X0Y0_1''),
      (0x28c00, ''PA_SC_AA_SAMPLE_LOCS_PIXEL_X0Y0_2''), (0x28c04, ''PA_SC_AA_SAMPLE_LOCS_PIXEL_X0Y0_3''),
      (0x28c08, ''PA_SC_AA_SAMPLE_LOCS_PIXEL_X1Y0_0''), (0x28c0c, ''PA_SC_AA_SAMPLE_LOCS_PIXEL_X1Y0_1''),
      (0x28c10, ''PA_SC_AA_SAMPLE_LOCS_PIXEL_X1Y0_2''), (0x28c14, ''PA_SC_AA_SAMPLE_LOCS_PIXEL_X1Y0_3''),
      (0x28c18, ''PA_SC_AA_SAMPLE_LOCS_PIXEL_X0Y1_0''), (0x28c1c, ''PA_SC_AA_SAMPLE_LOCS_PIXEL_X0Y1_1''),
      (0x28c20, ''PA_SC_AA_SAMPLE_LOCS_PIXEL_X0Y1_2''), (0x28c24, ''PA_SC_AA_SAMPLE_LOCS_PIXEL_X0Y1_3''),
      (0x28c28, ''PA_SC_AA_SAMPLE_LOCS_PIXEL_X1Y1_0''), (0x28c2c, ''PA_SC_AA_SAMPLE_LOCS_PIXEL_X1Y1_1''),
      (0x28c30, ''PA_SC_AA_SAMPLE_LOCS_PIXEL_X1Y1_2''), (0x28c34, ''PA_SC_AA_SAMPLE_LOCS_PIXEL_X1Y1_3''),
      (0x28c38, ''PA_SC_AA_MASK_X0Y0_X1Y0''), (0x28c3c, ''PA_SC_AA_MASK_X0Y1_X1Y1''),
      (0x28c58, ''VGT_VERTEX_REUSE_BLOCK_CNTL''), (0x28c5c, ''VGT_OUT_DEALLOC_CNTL''),
      (0x28c60, ''CB_COLOR0_BASE''), (0x28c64, ''CB_COLOR0_PITCH''), (0x28c68, ''CB_COLOR0_SLICE''),
      (0x28c6c, ''CB_COLOR0_VIEW''), (0x28c70, ''CB_COLOR0_INFO''), (0x28c74, ''CB_COLOR0_ATTRIB''),
      (0x28c7c, ''CB_COLOR0_CMASK''), (0x28c80, ''CB_COLOR0_CMASK_SLICE''), (0x28c84, ''CB_COLOR0_FMASK''),
      (0x28c88, ''CB_COLOR0_FMASK_SLICE''), (0x28c8c, ''CB_COLOR0_CLEAR_WORD0''),
      (0x28c90, ''CB_COLOR0_CLEAR_WORD1''), (0x28c9c, ''CB_COLOR1_BASE''), (0x28ca0, ''CB_COLOR1_PITCH''),
      (0x28ca4, ''CB_COLOR1_SLICE''), (0x28ca8, ''CB_COLOR1_VIEW''), (0x28cac, ''CB_COLOR1_INFO''),
      (0x28cb0, ''CB_COLOR1_ATTRIB''), (0x28cb8, ''CB_COLOR1_CMASK''),
      (0x28cbc, ''CB_COLOR1_CMASK_SLICE''), (0x28cc0, ''CB_COLOR1_FMASK''),
      (0x28cc4, ''CB_COLOR1_FMASK_SLICE''), (0x28cc8, ''CB_COLOR1_CLEAR_WORD0''),
      (0x28ccc, ''CB_COLOR1_CLEAR_WORD1''), (0x28cd8, ''CB_COLOR2_BASE''), (0x28cdc, ''CB_COLOR2_PITCH''),
      (0x28ce0, ''CB_COLOR2_SLICE''), (0x28ce4, ''CB_COLOR2_VIEW''), (0x28ce8, ''CB_COLOR2_INFO''),
      (0x28cec, ''CB_COLOR2_ATTRIB''), (0x28cf4, ''CB_COLOR2_CMASK''),
      (0x28cf8, ''CB_COLOR2_CMASK_SLICE''), (0x28cfc, ''CB_COLOR2_FMASK''),
      (0x28d00, ''CB_COLOR2_FMASK_SLICE''), (0x28d04, ''CB_COLOR2_CLEAR_WORD0''),
      (0x28d08, ''CB_COLOR2_CLEAR_WORD1''), (0x28d14, ''CB_COLOR3_BASE''), (0x28d18, ''CB_COLOR3_PITCH''),
      (0x28d1c, ''CB_COLOR3_SLICE''), (0x28d20, ''CB_COLOR3_VIEW''), (0x28d24, ''CB_COLOR3_INFO''),
      (0x28d28, ''CB_COLOR3_ATTRIB''), (0x28d30, ''CB_COLOR3_CMASK''),
      (0x28d34, ''CB_COLOR3_CMASK_SLICE''), (0x28d38, ''CB_COLOR3_FMASK''),
      (0x28d3c, ''CB_COLOR3_FMASK_SLICE''), (0x28d40, ''CB_COLOR3_CLEAR_WORD0''),
      (0x28d44, ''CB_COLOR3_CLEAR_WORD1''), (0x28d50, ''CB_COLOR4_BASE''), (0x28d54, ''CB_COLOR4_PITCH''),
      (0x28d58, ''CB_COLOR4_SLICE''), (0x28d5c, ''CB_COLOR4_VIEW''), (0x28d60, ''CB_COLOR4_INFO''),
      (0x28d64, ''CB_COLOR4_ATTRIB''), (0x28d6c, ''CB_COLOR4_CMASK''),
      (0x28d70, ''CB_COLOR4_CMASK_SLICE''), (0x28d74, ''CB_COLOR4_FMASK''),
      (0x28d78, ''CB_COLOR4_FMASK_SLICE''), (0x28d7c, ''CB_COLOR4_CLEAR_WORD0''),
      (0x28d80, ''CB_COLOR4_CLEAR_WORD1''), (0x28d8c, ''CB_COLOR5_BASE''), (0x28d90, ''CB_COLOR5_PITCH''),
      (0x28d94, ''CB_COLOR5_SLICE''), (0x28d98, ''CB_COLOR5_VIEW''), (0x28d9c, ''CB_COLOR5_INFO''),
      (0x28da0, ''CB_COLOR5_ATTRIB''), (0x28da8, ''CB_COLOR5_CMASK''),
      (0x28dac, ''CB_COLOR5_CMASK_SLICE''), (0x28db0, ''CB_COLOR5_FMASK''),
      (0x28db4, ''CB_COLOR5_FMASK_SLICE''), (0x28db8, ''CB_COLOR5_CLEAR_WORD0''),
      (0x28dbc, ''CB_COLOR5_CLEAR_WORD1''), (0x28dc8, ''CB_COLOR6_BASE''), (0x28dcc, ''CB_COLOR6_PITCH''),
      (0x28dd0, ''CB_COLOR6_SLICE''), (0x28dd4, ''CB_COLOR6_VIEW''), (0x28dd8, ''CB_COLOR6_INFO''),
      (0x28ddc, ''CB_COLOR6_ATTRIB''), (0x28de4, ''CB_COLOR6_CMASK''),
      (0x28de8, ''CB_COLOR6_CMASK_SLICE''), (0x28dec, ''CB_COLOR6_FMASK''),
      (0x28df0, ''CB_COLOR6_FMASK_SLICE''), (0x28df4, ''CB_COLOR6_CLEAR_WORD0''),
      (0x28df8, ''CB_COLOR6_CLEAR_WORD1''), (0x28e04, ''CB_COLOR7_BASE''), (0x28e08, ''CB_COLOR7_PITCH''),
      (0x28e0c, ''CB_COLOR7_SLICE''), (0x28e10, ''CB_COLOR7_VIEW''), (0x28e14, ''CB_COLOR7_INFO''),
      (0x28e18, ''CB_COLOR7_ATTRIB''), (0x28e20, ''CB_COLOR7_CMASK''),
      (0x28e24, ''CB_COLOR7_CMASK_SLICE''), (0x28e28, ''CB_COLOR7_FMASK''),
      (0x28e2c, ''CB_COLOR7_FMASK_SLICE''), (0x28e30, ''CB_COLOR7_CLEAR_WORD0''),
      (0x28e34, ''CB_COLOR7_CLEAR_WORD1'')]"

section \<open>The switch\<close>

definition reg_table :: "(u32 \<times> string) list" where
  "reg_table = reg_names_1 @ reg_names_2 @ reg_names_3 @ reg_names_4 @ reg_names_5 @ reg_names_6 @
     reg_names_7 @ reg_names_8 @ reg_names_9"

definition RadeonGetRegName :: "u32 \<Rightarrow> string option" where
  "RadeonGetRegName reg = map_of reg_table reg"

section \<open>No case hides another\<close>

fun ascending :: "u32 list \<Rightarrow> bool" where
  "ascending (a # b # xs) \<longleftrightarrow> a < b \<and> ascending (b # xs)"
| "ascending _ = True"

lemma ascending_sorted: "ascending xs = sorted_wrt (<) xs"
proof (induction xs rule: ascending.induct)
  case (1 a b xs)
  then show ?case by (auto intro: less_trans)
qed auto

lemma reg_table_ascending: "ascending (map fst reg_table)"
  unfolding reg_table_def reg_names_1_def reg_names_2_def reg_names_3_def reg_names_4_def reg_names_5_def reg_names_6_def reg_names_7_def reg_names_8_def reg_names_9_def by simp

theorem reg_name_found: "RadeonGetRegName r = Some nm \<longleftrightarrow> (r, nm) \<in> set reg_table"
proof -
  have "distinct (map fst reg_table)"
    using reg_table_ascending by (simp add: ascending_sorted strict_sorted_iff)
  then show ?thesis unfolding RadeonGetRegName_def by (rule map_of_eq_Some_iff)
qed

end
