(* ===== verification/AsicTable.thy ===== *)
theory AsicTable imports Prelude begin

text \<open>
  The PCI ids of the devices the stub knows, \<open>stub/radeon_hd.c\<close>, with the ASIC types and flags of
  \<open>stub/radeon_hd.h\<close>. The table is static and no function reads it yet; what is stated is what a
  reader of it can rely on.
\<close>

section \<open>ASIC types and flags\<close>

datatype amd_asic_type =
  CHIP_TAHITI | CHIP_PITCAIRN | CHIP_VERDE | CHIP_OLAND | CHIP_HAINAN | CHIP_BONAIRE | CHIP_KAVERI
  | CHIP_KABINI | CHIP_HAWAII | CHIP_MULLINS | CHIP_TOPAZ | CHIP_TONGA | CHIP_FIJI | CHIP_CARRIZO
  | CHIP_STONEY | CHIP_POLARIS10 | CHIP_POLARIS11 | CHIP_POLARIS12 | CHIP_VEGAM | CHIP_VEGA10 |
  CHIP_VEGA12 | CHIP_VEGA20 | CHIP_RAVEN | CHIP_ARCTURUS | CHIP_RENOIR | CHIP_NAVI10 | CHIP_NAVI14
  | CHIP_NAVI12 | CHIP_LAST

text \<open>The value of an enumerator.\<close>

primrec amd_asic_number :: "amd_asic_type \<Rightarrow> u32" where
  "amd_asic_number CHIP_TAHITI = 0"
| "amd_asic_number CHIP_PITCAIRN = 1"
| "amd_asic_number CHIP_VERDE = 2"
| "amd_asic_number CHIP_OLAND = 3"
| "amd_asic_number CHIP_HAINAN = 4"
| "amd_asic_number CHIP_BONAIRE = 5"
| "amd_asic_number CHIP_KAVERI = 6"
| "amd_asic_number CHIP_KABINI = 7"
| "amd_asic_number CHIP_HAWAII = 8"
| "amd_asic_number CHIP_MULLINS = 9"
| "amd_asic_number CHIP_TOPAZ = 10"
| "amd_asic_number CHIP_TONGA = 11"
| "amd_asic_number CHIP_FIJI = 12"
| "amd_asic_number CHIP_CARRIZO = 13"
| "amd_asic_number CHIP_STONEY = 14"
| "amd_asic_number CHIP_POLARIS10 = 15"
| "amd_asic_number CHIP_POLARIS11 = 16"
| "amd_asic_number CHIP_POLARIS12 = 17"
| "amd_asic_number CHIP_VEGAM = 18"
| "amd_asic_number CHIP_VEGA10 = 19"
| "amd_asic_number CHIP_VEGA12 = 20"
| "amd_asic_number CHIP_VEGA20 = 21"
| "amd_asic_number CHIP_RAVEN = 22"
| "amd_asic_number CHIP_ARCTURUS = 23"
| "amd_asic_number CHIP_RENOIR = 24"
| "amd_asic_number CHIP_NAVI10 = 25"
| "amd_asic_number CHIP_NAVI14 = 26"
| "amd_asic_number CHIP_NAVI12 = 27"
| "amd_asic_number CHIP_LAST = 28"

definition AMD_ASIC_MASK :: u32 where "AMD_ASIC_MASK = 0x0000ffff"
definition AMD_FLAGS_MASK :: u32 where "AMD_FLAGS_MASK = 0xffff0000"
definition AMD_IS_MOBILITY :: u32 where "AMD_IS_MOBILITY = 0x00010000"
definition AMD_IS_APU :: u32 where "AMD_IS_APU = 0x00020000"
definition AMD_IS_PX :: u32 where "AMD_IS_PX = 0x00040000"
definition AMD_EXP_HW_SUPPORT :: u32 where "AMD_EXP_HW_SUPPORT = 0x00080000"

section \<open>The table\<close>

definition PCI_ANY_ID :: u16 where "PCI_ANY_ID = 0xffff"

record pci_device_id =
  pid_vendor :: u16
  pid_device :: u16
  pid_unknown1 :: u16
  pid_unknown2 :: u16
  pid_unknown3 :: u16
  pid_unknown4 :: u16
  pid_asicType :: u32

text \<open>An entry; all of them have the same vendor and the same unknown numbers.\<close>

definition pci_entry :: "u16 \<Rightarrow> amd_asic_type \<Rightarrow> u32 \<Rightarrow> pci_device_id" where
  "pci_entry device chip flags =
     \<lparr>pid_vendor = 0x1002, pid_device = device, pid_unknown1 = PCI_ANY_ID, pid_unknown2 = PCI_ANY_ID,
      pid_unknown3 = 0, pid_unknown4 = 0, pid_asicType = amd_asic_number chip OR flags\<rparr>"

definition pci_entries_1 :: "(u16 \<times> amd_asic_type \<times> u32) list" where
  "pci_entries_1 =
     [(0x6780, CHIP_TAHITI, 0), (0x6784, CHIP_TAHITI, 0), (0x6788, CHIP_TAHITI, 0),
      (0x678A, CHIP_TAHITI, 0), (0x6790, CHIP_TAHITI, 0), (0x6791, CHIP_TAHITI, 0),
      (0x6792, CHIP_TAHITI, 0), (0x6798, CHIP_TAHITI, 0), (0x6799, CHIP_TAHITI, 0),
      (0x679A, CHIP_TAHITI, 0), (0x679B, CHIP_TAHITI, 0), (0x679E, CHIP_TAHITI, 0),
      (0x679F, CHIP_TAHITI, 0), (0x6800, CHIP_PITCAIRN, AMD_IS_MOBILITY),
      (0x6801, CHIP_PITCAIRN, AMD_IS_MOBILITY), (0x6802, CHIP_PITCAIRN, AMD_IS_MOBILITY),
      (0x6806, CHIP_PITCAIRN, 0), (0x6808, CHIP_PITCAIRN, 0), (0x6809, CHIP_PITCAIRN, 0),
      (0x6810, CHIP_PITCAIRN, 0), (0x6811, CHIP_PITCAIRN, 0), (0x6816, CHIP_PITCAIRN, 0),
      (0x6817, CHIP_PITCAIRN, 0), (0x6818, CHIP_PITCAIRN, 0), (0x6819, CHIP_PITCAIRN, 0),
      (0x6600, CHIP_OLAND, AMD_IS_MOBILITY), (0x6601, CHIP_OLAND, AMD_IS_MOBILITY),
      (0x6602, CHIP_OLAND, AMD_IS_MOBILITY), (0x6603, CHIP_OLAND, AMD_IS_MOBILITY),
      (0x6604, CHIP_OLAND, AMD_IS_MOBILITY), (0x6605, CHIP_OLAND, AMD_IS_MOBILITY),
      (0x6606, CHIP_OLAND, AMD_IS_MOBILITY), (0x6607, CHIP_OLAND, AMD_IS_MOBILITY),
      (0x6608, CHIP_OLAND, 0), (0x6610, CHIP_OLAND, 0), (0x6611, CHIP_OLAND, 0),
      (0x6613, CHIP_OLAND, 0), (0x6617, CHIP_OLAND, AMD_IS_MOBILITY),
      (0x6620, CHIP_OLAND, AMD_IS_MOBILITY), (0x6621, CHIP_OLAND, AMD_IS_MOBILITY),
      (0x6623, CHIP_OLAND, AMD_IS_MOBILITY), (0x6631, CHIP_OLAND, 0),
      (0x6820, CHIP_VERDE, AMD_IS_MOBILITY), (0x6821, CHIP_VERDE, AMD_IS_MOBILITY),
      (0x6822, CHIP_VERDE, AMD_IS_MOBILITY), (0x6823, CHIP_VERDE, AMD_IS_MOBILITY),
      (0x6824, CHIP_VERDE, AMD_IS_MOBILITY), (0x6825, CHIP_VERDE, AMD_IS_MOBILITY),
      (0x6826, CHIP_VERDE, AMD_IS_MOBILITY), (0x6827, CHIP_VERDE, AMD_IS_MOBILITY),
      (0x6828, CHIP_VERDE, 0), (0x6829, CHIP_VERDE, 0), (0x682A, CHIP_VERDE, AMD_IS_MOBILITY),
      (0x682B, CHIP_VERDE, AMD_IS_MOBILITY), (0x682C, CHIP_VERDE, 0),
      (0x682D, CHIP_VERDE, AMD_IS_MOBILITY), (0x682F, CHIP_VERDE, AMD_IS_MOBILITY),
      (0x6830, CHIP_VERDE, AMD_IS_MOBILITY), (0x6831, CHIP_VERDE, AMD_IS_MOBILITY),
      (0x6835, CHIP_VERDE, 0), (0x6837, CHIP_VERDE, 0), (0x6838, CHIP_VERDE, 0),
      (0x6839, CHIP_VERDE, 0), (0x683B, CHIP_VERDE, 0)]"

definition pci_entries_2 :: "(u16 \<times> amd_asic_type \<times> u32) list" where
  "pci_entries_2 =
     [(0x683D, CHIP_VERDE, 0), (0x683F, CHIP_VERDE, 0), (0x6660, CHIP_HAINAN, AMD_IS_MOBILITY),
      (0x6663, CHIP_HAINAN, AMD_IS_MOBILITY), (0x6664, CHIP_HAINAN, AMD_IS_MOBILITY),
      (0x6665, CHIP_HAINAN, AMD_IS_MOBILITY), (0x6667, CHIP_HAINAN, AMD_IS_MOBILITY),
      (0x666F, CHIP_HAINAN, AMD_IS_MOBILITY), (0x1304, CHIP_KAVERI, AMD_IS_MOBILITY OR AMD_IS_APU),
      (0x1305, CHIP_KAVERI, AMD_IS_APU), (0x1306, CHIP_KAVERI, AMD_IS_MOBILITY OR AMD_IS_APU),
      (0x1307, CHIP_KAVERI, AMD_IS_APU), (0x1309, CHIP_KAVERI, AMD_IS_MOBILITY OR AMD_IS_APU),
      (0x130A, CHIP_KAVERI, AMD_IS_MOBILITY OR AMD_IS_APU),
      (0x130B, CHIP_KAVERI, AMD_IS_MOBILITY OR AMD_IS_APU),
      (0x130C, CHIP_KAVERI, AMD_IS_MOBILITY OR AMD_IS_APU),
      (0x130D, CHIP_KAVERI, AMD_IS_MOBILITY OR AMD_IS_APU),
      (0x130E, CHIP_KAVERI, AMD_IS_MOBILITY OR AMD_IS_APU), (0x130F, CHIP_KAVERI, AMD_IS_APU),
      (0x1310, CHIP_KAVERI, AMD_IS_APU), (0x1311, CHIP_KAVERI, AMD_IS_APU),
      (0x1312, CHIP_KAVERI, AMD_IS_APU), (0x1313, CHIP_KAVERI, AMD_IS_APU),
      (0x1315, CHIP_KAVERI, AMD_IS_APU), (0x1316, CHIP_KAVERI, AMD_IS_APU),
      (0x1317, CHIP_KAVERI, AMD_IS_MOBILITY OR AMD_IS_APU),
      (0x1318, CHIP_KAVERI, AMD_IS_MOBILITY OR AMD_IS_APU), (0x131B, CHIP_KAVERI, AMD_IS_APU),
      (0x131C, CHIP_KAVERI, AMD_IS_APU), (0x131D, CHIP_KAVERI, AMD_IS_APU),
      (0x6640, CHIP_BONAIRE, AMD_IS_MOBILITY), (0x6641, CHIP_BONAIRE, AMD_IS_MOBILITY),
      (0x6646, CHIP_BONAIRE, AMD_IS_MOBILITY), (0x6647, CHIP_BONAIRE, AMD_IS_MOBILITY),
      (0x6649, CHIP_BONAIRE, 0), (0x6650, CHIP_BONAIRE, 0), (0x6651, CHIP_BONAIRE, 0),
      (0x6658, CHIP_BONAIRE, 0), (0x665C, CHIP_BONAIRE, 0), (0x665D, CHIP_BONAIRE, 0),
      (0x665F, CHIP_BONAIRE, 0), (0x67A0, CHIP_HAWAII, 0), (0x67A1, CHIP_HAWAII, 0),
      (0x67A2, CHIP_HAWAII, 0), (0x67A8, CHIP_HAWAII, 0), (0x67A9, CHIP_HAWAII, 0),
      (0x67AA, CHIP_HAWAII, 0), (0x67B0, CHIP_HAWAII, 0), (0x67B1, CHIP_HAWAII, 0),
      (0x67B8, CHIP_HAWAII, 0), (0x67B9, CHIP_HAWAII, 0), (0x67BA, CHIP_HAWAII, 0),
      (0x67BE, CHIP_HAWAII, 0), (0x9830, CHIP_KABINI, AMD_IS_MOBILITY OR AMD_IS_APU),
      (0x9831, CHIP_KABINI, AMD_IS_APU), (0x9832, CHIP_KABINI, AMD_IS_MOBILITY OR AMD_IS_APU),
      (0x9833, CHIP_KABINI, AMD_IS_APU), (0x9834, CHIP_KABINI, AMD_IS_MOBILITY OR AMD_IS_APU),
      (0x9835, CHIP_KABINI, AMD_IS_APU), (0x9836, CHIP_KABINI, AMD_IS_MOBILITY OR AMD_IS_APU),
      (0x9837, CHIP_KABINI, AMD_IS_APU), (0x9838, CHIP_KABINI, AMD_IS_MOBILITY OR AMD_IS_APU),
      (0x9839, CHIP_KABINI, AMD_IS_MOBILITY OR AMD_IS_APU), (0x983A, CHIP_KABINI, AMD_IS_APU)]"

definition pci_entries_3 :: "(u16 \<times> amd_asic_type \<times> u32) list" where
  "pci_entries_3 =
     [(0x983B, CHIP_KABINI, AMD_IS_MOBILITY OR AMD_IS_APU), (0x983C, CHIP_KABINI, AMD_IS_APU),
      (0x983D, CHIP_KABINI, AMD_IS_APU), (0x983E, CHIP_KABINI, AMD_IS_APU),
      (0x983F, CHIP_KABINI, AMD_IS_APU), (0x9850, CHIP_MULLINS, AMD_IS_MOBILITY OR AMD_IS_APU),
      (0x9851, CHIP_MULLINS, AMD_IS_MOBILITY OR AMD_IS_APU),
      (0x9852, CHIP_MULLINS, AMD_IS_MOBILITY OR AMD_IS_APU),
      (0x9853, CHIP_MULLINS, AMD_IS_MOBILITY OR AMD_IS_APU),
      (0x9854, CHIP_MULLINS, AMD_IS_MOBILITY OR AMD_IS_APU),
      (0x9855, CHIP_MULLINS, AMD_IS_MOBILITY OR AMD_IS_APU),
      (0x9856, CHIP_MULLINS, AMD_IS_MOBILITY OR AMD_IS_APU),
      (0x9857, CHIP_MULLINS, AMD_IS_MOBILITY OR AMD_IS_APU),
      (0x9858, CHIP_MULLINS, AMD_IS_MOBILITY OR AMD_IS_APU),
      (0x9859, CHIP_MULLINS, AMD_IS_MOBILITY OR AMD_IS_APU),
      (0x985A, CHIP_MULLINS, AMD_IS_MOBILITY OR AMD_IS_APU),
      (0x985B, CHIP_MULLINS, AMD_IS_MOBILITY OR AMD_IS_APU),
      (0x985C, CHIP_MULLINS, AMD_IS_MOBILITY OR AMD_IS_APU),
      (0x985D, CHIP_MULLINS, AMD_IS_MOBILITY OR AMD_IS_APU),
      (0x985E, CHIP_MULLINS, AMD_IS_MOBILITY OR AMD_IS_APU),
      (0x985F, CHIP_MULLINS, AMD_IS_MOBILITY OR AMD_IS_APU), (0x6900, CHIP_TOPAZ, 0),
      (0x6901, CHIP_TOPAZ, 0), (0x6902, CHIP_TOPAZ, 0), (0x6903, CHIP_TOPAZ, 0),
      (0x6907, CHIP_TOPAZ, 0), (0x6920, CHIP_TONGA, 0), (0x6921, CHIP_TONGA, 0),
      (0x6928, CHIP_TONGA, 0), (0x6929, CHIP_TONGA, 0), (0x692B, CHIP_TONGA, 0),
      (0x692F, CHIP_TONGA, 0), (0x6930, CHIP_TONGA, 0), (0x6938, CHIP_TONGA, 0),
      (0x6939, CHIP_TONGA, 0), (0x7300, CHIP_FIJI, 0), (0x730F, CHIP_FIJI, 0),
      (0x9870, CHIP_CARRIZO, AMD_IS_APU), (0x9874, CHIP_CARRIZO, AMD_IS_APU),
      (0x9875, CHIP_CARRIZO, AMD_IS_APU), (0x9876, CHIP_CARRIZO, AMD_IS_APU),
      (0x9877, CHIP_CARRIZO, AMD_IS_APU), (0x98E4, CHIP_STONEY, AMD_IS_APU),
      (0x67E0, CHIP_POLARIS11, 0), (0x67E3, CHIP_POLARIS11, 0), (0x67E8, CHIP_POLARIS11, 0),
      (0x67EB, CHIP_POLARIS11, 0), (0x67EF, CHIP_POLARIS11, 0), (0x67FF, CHIP_POLARIS11, 0),
      (0x67E1, CHIP_POLARIS11, 0), (0x67E7, CHIP_POLARIS11, 0), (0x67E9, CHIP_POLARIS11, 0),
      (0x67C0, CHIP_POLARIS10, 0), (0x67C1, CHIP_POLARIS10, 0), (0x67C2, CHIP_POLARIS10, 0),
      (0x67C4, CHIP_POLARIS10, 0), (0x67C7, CHIP_POLARIS10, 0), (0x67D0, CHIP_POLARIS10, 0),
      (0x67DF, CHIP_POLARIS10, 0), (0x67C8, CHIP_POLARIS10, 0), (0x67C9, CHIP_POLARIS10, 0),
      (0x67CA, CHIP_POLARIS10, 0), (0x67CC, CHIP_POLARIS10, 0), (0x67CF, CHIP_POLARIS10, 0)]"

definition pci_entries_4 :: "(u16 \<times> amd_asic_type \<times> u32) list" where
  "pci_entries_4 =
     [(0x6FDF, CHIP_POLARIS10, 0), (0x6980, CHIP_POLARIS12, 0), (0x6981, CHIP_POLARIS12, 0),
      (0x6985, CHIP_POLARIS12, 0), (0x6986, CHIP_POLARIS12, 0), (0x6987, CHIP_POLARIS12, 0),
      (0x6995, CHIP_POLARIS12, 0), (0x6997, CHIP_POLARIS12, 0), (0x699F, CHIP_POLARIS12, 0),
      (0x694C, CHIP_VEGAM, 0), (0x694E, CHIP_VEGAM, 0), (0x694F, CHIP_VEGAM, 0),
      (0x6860, CHIP_VEGA10, 0), (0x6861, CHIP_VEGA10, 0), (0x6862, CHIP_VEGA10, 0),
      (0x6863, CHIP_VEGA10, 0), (0x6864, CHIP_VEGA10, 0), (0x6867, CHIP_VEGA10, 0),
      (0x6868, CHIP_VEGA10, 0), (0x6869, CHIP_VEGA10, 0), (0x686A, CHIP_VEGA10, 0),
      (0x686B, CHIP_VEGA10, 0), (0x686C, CHIP_VEGA10, 0), (0x686D, CHIP_VEGA10, 0),
      (0x686E, CHIP_VEGA10, 0), (0x686F, CHIP_VEGA10, 0), (0x687F, CHIP_VEGA10, 0),
      (0x69A0, CHIP_VEGA12, 0), (0x69A1, CHIP_VEGA12, 0), (0x69A2, CHIP_VEGA12, 0),
      (0x69A3, CHIP_VEGA12, 0), (0x69AF, CHIP_VEGA12, 0), (0x66A0, CHIP_VEGA20, 0),
      (0x66A1, CHIP_VEGA20, 0), (0x66A2, CHIP_VEGA20, 0), (0x66A3, CHIP_VEGA20, 0),
      (0x66A4, CHIP_VEGA20, 0), (0x66A7, CHIP_VEGA20, 0), (0x66AF, CHIP_VEGA20, 0),
      (0x15DD, CHIP_RAVEN, AMD_IS_APU), (0x15D8, CHIP_RAVEN, AMD_IS_APU),
      (0x738C, CHIP_ARCTURUS, AMD_EXP_HW_SUPPORT), (0x7388, CHIP_ARCTURUS, AMD_EXP_HW_SUPPORT),
      (0x738E, CHIP_ARCTURUS, AMD_EXP_HW_SUPPORT), (0x7390, CHIP_ARCTURUS, AMD_EXP_HW_SUPPORT),
      (0x7310, CHIP_NAVI10, 0), (0x7312, CHIP_NAVI10, 0), (0x7318, CHIP_NAVI10, 0),
      (0x7319, CHIP_NAVI10, 0), (0x731A, CHIP_NAVI10, 0), (0x731B, CHIP_NAVI10, 0),
      (0x731F, CHIP_NAVI10, 0), (0x7340, CHIP_NAVI14, 0), (0x7341, CHIP_NAVI14, 0),
      (0x7347, CHIP_NAVI14, 0), (0x734F, CHIP_NAVI14, 0), (0x1636, CHIP_RENOIR, AMD_IS_APU),
      (0x7360, CHIP_NAVI12, AMD_EXP_HW_SUPPORT), (0x7362, CHIP_NAVI12, AMD_EXP_HW_SUPPORT)]"

definition pci_entries :: "(u16 \<times> amd_asic_type \<times> u32) list" where
  "pci_entries = pci_entries_1 @ pci_entries_2 @ pci_entries_3 @ pci_entries_4"

text \<open>The last entry is all zero.\<close>

definition pciidlist :: "pci_device_id list" where
  "pciidlist =
     map (\<lambda>(device, chip, flags). pci_entry device chip flags) pci_entries @
     [\<lparr>pid_vendor = 0, pid_device = 0, pid_unknown1 = 0, pid_unknown2 = 0, pid_unknown3 = 0,
       pid_unknown4 = 0, pid_asicType = 0\<rparr>]"

section \<open>What a reader can rely on\<close>

lemmas pci_defs = pci_entries_def pci_entries_1_def pci_entries_2_def pci_entries_3_def pci_entries_4_def

lemmas asic_flags = AMD_ASIC_MASK_def AMD_FLAGS_MASK_def AMD_IS_MOBILITY_def AMD_IS_APU_def AMD_EXP_HW_SUPPORT_def

lemma pci_devices_distinct: "distinct (map (\<lambda>e. unat (fst e)) pci_entries)"
  by (simp add: pci_defs)

lemma pci_flags: "list_all (\<lambda>(d, chip, f). d \<noteq> 0 \<and> f AND AMD_FLAGS_MASK = f \<and> f AND AMD_ASIC_MASK = 0) pci_entries"
  by (simp add: pci_defs asic_flags)

definition apu_chips :: "amd_asic_type list" where
  "apu_chips = [CHIP_KAVERI, CHIP_KABINI, CHIP_MULLINS, CHIP_CARRIZO, CHIP_STONEY, CHIP_RAVEN, CHIP_RENOIR]"

lemma pci_apus:
  "list_all (\<lambda>(d, chip, f). chip \<noteq> CHIP_LAST \<and> (f AND AMD_IS_APU \<noteq> 0 \<longleftrightarrow> chip \<in> set apu_chips)) pci_entries"
  by (simp add: pci_defs asic_flags apu_chips_def)

lemma asic_number_masks:
  "amd_asic_number chip AND AMD_ASIC_MASK = amd_asic_number chip"
  "amd_asic_number chip AND AMD_FLAGS_MASK = 0"
  by (cases chip; simp add: asic_flags)+

text \<open>Every device has one entry, all before the terminator; its ASIC and its flags can be taken apart
  with the two masks, the ASIC is a known one, and the APU flag is set exactly for the APUs.\<close>

theorem asic_table_readable:
  "distinct (map pid_device (butlast pciidlist)) \<and> pid_vendor (last pciidlist) = 0
   \<and> map (\<lambda>e. (pid_vendor e, pid_device e, pid_asicType e AND AMD_ASIC_MASK, pid_asicType e AND AMD_FLAGS_MASK))
         (butlast pciidlist)
       = map (\<lambda>(d, chip, f). (0x1002, d, amd_asic_number chip, f)) pci_entries
   \<and> (\<forall>(d, chip, f) \<in> set pci_entries. d \<noteq> 0 \<and> chip \<noteq> CHIP_LAST
        \<and> (f AND AMD_IS_APU \<noteq> 0 \<longleftrightarrow> chip \<in> set apu_chips))"
proof -
  let ?entry = "\<lambda>(d, chip, f). pci_entry d chip f"
  have but: "butlast pciidlist = map ?entry pci_entries" and last: "pid_vendor (last pciidlist) = 0"
    by (simp_all add: pciidlist_def)
  have dev: "pid_device \<circ> ?entry = fst" by (auto simp: pci_entry_def fun_eq_iff)
  have "distinct (map unat (map fst pci_entries))"
    using pci_devices_distinct by (simp only: map_map comp_def)
  then have "distinct (map fst pci_entries)" by (rule distinct_map [THEN iffD1, THEN conjunct1])
  then have "distinct (map pid_device (butlast pciidlist))" by (simp only: but map_map dev)
  moreover have "map (\<lambda>e. (pid_vendor e, pid_device e, pid_asicType e AND AMD_ASIC_MASK, pid_asicType e AND AMD_FLAGS_MASK))
         (butlast pciidlist) = map (\<lambda>(d, chip, f). (0x1002, d, amd_asic_number chip, f)) pci_entries"
    unfolding but map_map
  proof (rule map_cong [OF refl])
    fix e assume "e \<in> set pci_entries"
    then show "((\<lambda>e. (pid_vendor e, pid_device e, pid_asicType e AND AMD_ASIC_MASK, pid_asicType e AND AMD_FLAGS_MASK))
        \<circ> ?entry) e = (\<lambda>(d, chip, f). (0x1002, d, amd_asic_number chip, f)) e"
      using pci_flags by (auto simp: list_all_iff pci_entry_def bit.conj_disj_distrib2 asic_number_masks)
  qed
  moreover have "\<forall>(d, chip, f) \<in> set pci_entries. d \<noteq> 0 \<and> chip \<noteq> CHIP_LAST
      \<and> (f AND AMD_IS_APU \<noteq> 0 \<longleftrightarrow> chip \<in> set apu_chips)"
    using pci_flags pci_apus unfolding list_all_iff by fast
  ultimately show ?thesis using last by blast
qed

end
