(* ===== verification/Dump.thy ===== *)
theory Dump imports Trace StubMem RegNames begin

text \<open>
  The dumps of command streams and memory in \<open>stub/libdrmStub.cpp\<close> and of the mappings in
  \<open>stub/memory.cpp\<close>, as strings. Memory is the words (or bytes)
  from the start of the buffer on, of which the buffer may be only the first part; reading behind it is
  a fault. Everything below the top takes the names of the
  registers as an argument.
\<close>

section \<open>Words and bytes\<close>

definition pad0 :: "nat \<Rightarrow> string \<Rightarrow> string" where
  "pad0 n s = replicate (n - length s) (CHR ''0'') @ s"

definition hex08 :: "'a::len word \<Rightarrow> string" where "hex08 w = pad0 8 (show_x w)"

text \<open>A line of the dumps: the offset, and then values up to an offset that is a multiple of 16.\<close>

function dump_bytes_from :: "u8 list \<Rightarrow> nat \<Rightarrow> nat \<Rightarrow> string outcome" where
  "dump_bytes_from mem off sz =
     (if sz = 0 then Ret ''''
      else
        (let row = min sz (16 - off mod 16)
         in if off + row \<le> length mem then
              bind_outcome (dump_bytes_from mem (off + row) (sz - row)) (\<lambda>t.
                Ret (pad0 8 (digits 16 off) @ '' '' @
                     concat (map (\<lambda>b. '' '' @ pad0 2 (show_x b)) (take row (drop off mem))) @ nl @ t))
            else Fault))"
  by pat_completeness auto

termination by (relation "measure (\<lambda>(mem, off, sz). sz)") (simp_all add: Let_def)

definition DumpBytes :: "u8 list \<Rightarrow> nat \<Rightarrow> string outcome" where
  "DumpBytes mem sz = dump_bytes_from mem 0 sz"

text \<open>The size is a \<open>size_t\<close> that is counted down by 4, past 0 when it is no multiple of 4.\<close>

function dump_int32_from :: "u32 list \<Rightarrow> nat \<Rightarrow> u64 \<Rightarrow> string outcome" where
  "dump_int32_from mem i sz =
     (if sz = 0 then (Ret (if 4 * i mod 16 = 0 then '''' else nl))
      else if i < length mem then
        bind_outcome (dump_int32_from mem (i + 1) (sz - 4)) (\<lambda>t.
          Ret ((if 4 * i mod 16 = 0 then pad0 8 (digits 16 (4 * i)) @ '' '' else '''') @
               '' '' @ hex08 (mem ! i) @ (if 4 * (i + 1) mod 16 = 0 then nl else '''') @ t))
      else Fault)"
  by pat_completeness auto

termination by (relation "measure (\<lambda>(mem, i, sz). length mem - i)") simp_all

definition DumpInt32 :: "u32 list \<Rightarrow> u64 \<Rightarrow> string outcome" where
  "DumpInt32 mem sz = dump_int32_from mem 0 sz"

text \<open>The mapping table: first and last address of each, the latter with the wrap-around of its type.\<close>

definition hex09 :: "u64 \<Rightarrow> string" where "hex09 w = pad0 9 (show_x w)"

definition DumpMappings :: "'e stub_state \<Rightarrow> string" where
  "DumpMappings s =
     ''mappings:'' @ nl @
     concat (map (\<lambda>(k, m). ''  0x'' @ hex09 k @ '' - 0x'' @ hex09 (k + map_size m - 1) @ nl)
       (gGpuBufferMappingTable s))"

section \<open>Packets\<close>

definition PKT_TYPE_G :: "u32 \<Rightarrow> u32" where "PKT_TYPE_G x = drop_bit 30 x AND 0x3"
definition PKT_COUNT_G :: "u32 \<Rightarrow> u32" where "PKT_COUNT_G x = drop_bit 16 x AND 0x3FFF"
definition PKT3_IT_OPCODE_G :: "u32 \<Rightarrow> u32" where "PKT3_IT_OPCODE_G x = drop_bit 8 x AND 0xFF"

definition SI_CONFIG_REG_OFFSET :: u32 where "SI_CONFIG_REG_OFFSET = 0x00008000"
definition SI_SH_REG_OFFSET :: u32 where "SI_SH_REG_OFFSET = 0x0000B000"
definition SI_CONTEXT_REG_OFFSET :: u32 where "SI_CONTEXT_REG_OFFSET = 0x00028000"

type_synonym reg_names = "u32 \<Rightarrow> string option"

definition RadeonWriteRegName :: "reg_names \<Rightarrow> u32 \<Rightarrow> string" where
  "RadeonWriteRegName names reg =
     (case names reg of Some nm \<Rightarrow> nm | None \<Rightarrow> ''?('' @ show_u reg @ '')'')"

definition word_at :: "u32 list \<Rightarrow> nat \<Rightarrow> u32 outcome" where
  "word_at mem i = (if i < length mem then Ret (mem ! i) else Fault)"

definition qword_at :: "u32 list \<Rightarrow> nat \<Rightarrow> u64 outcome" where
  "qword_at mem i =
     bind_outcome (word_at mem i) (\<lambda>lo. bind_outcome (word_at mem (i + 1)) (\<lambda>hi.
       Ret (push_bit 32 (ucast hi) OR ucast lo)))"

definition pkt3_names :: "(u32 \<times> string) list" where
  "pkt3_names =
     [(0x12, ''CLEAR_STATE''), (0x15, ''DISPATCH_DIRECT''), (0x27, ''DRAW_INDEX_2''),
      (0x28, ''CONTEXT_CONTROL''), (0x2a, ''INDEX_TYPE''), (0x2d, ''DRAW_INDEX_AUTO''),
      (0x2f, ''NUM_INSTANCES''), (0x37, ''WRITE_DATA''), (0x40, ''COPY_DATA''), (0x41, ''CP_DMA''),
      (0x42, ''PFP_SYNC_ME''), (0x43, ''SURFACE_SYNC''), (0x46, ''EVENT_WRITE''),
      (0x68, ''SET_CONFIG_REG''), (0x69, ''SET_CONTEXT_REG''), (0x76, ''SET_SH_REG'')]"

text \<open>\<open>%#02x\<close>\<close>

definition pkt3_name :: "u32 \<Rightarrow> string" where
  "pkt3_name op =
     (case map_of pkt3_names op of Some nm \<Rightarrow> nm | None \<Rightarrow> ''?('' @ pad0 2 (alt op) @ '')'')"

text \<open>\<open>while (adr != pktEnd)\<close> over the \<open>n\<close> words between them.\<close>

fun dump_words :: "u32 list \<Rightarrow> nat \<Rightarrow> nat \<Rightarrow> string outcome" where
  "dump_words mem i 0 = Ret ''''"
| "dump_words mem i (Suc n) =
     bind_outcome (word_at mem i) (\<lambda>w.
     bind_outcome (dump_words mem (i + 1) n) (\<lambda>t. Ret (''  0x'' @ hex08 w @ nl @ t)))"

definition dump_set_reg :: "reg_names \<Rightarrow> u32 \<Rightarrow> u32 list \<Rightarrow> nat \<Rightarrow> nat \<Rightarrow> string outcome" where
  "dump_set_reg names base mem i cnt =
     bind_outcome (word_at mem i) (\<lambda>w.
     bind_outcome (dump_words mem (i + 1) cnt) (\<lambda>t.
       Ret (''  reg: '' @ RadeonWriteRegName names (push_bit 2 w + base) @ nl @ t)))"

definition dump_src :: "reg_names \<Rightarrow> u32 list \<Rightarrow> nat \<Rightarrow> u32 \<Rightarrow> string outcome" where
  "dump_src names mem i kind =
     (if kind = 0 then
        bind_outcome (word_at mem (i + 3)) (\<lambda>w. Ret (''REG('' @ RadeonWriteRegName names (push_bit 2 w) @ '')''))
      else if kind = 1 then
        bind_outcome (qword_at mem (i + 1)) (\<lambda>q. Ret (''SRC_MEM(0x'' @ hex08 q @ '')''))
      else if kind = 2 then Ret ''TC_L2'' else if kind = 3 then Ret ''GDS'' else if kind = 4 then Ret ''PERF''
      else if kind = 5 then Ret ''IMM'' else if kind = 9 then Ret ''TIMESTAMP''
      else Ret (''?('' @ show_u kind @ '')''))"

definition dump_dst :: "reg_names \<Rightarrow> u32 list \<Rightarrow> nat \<Rightarrow> u32 \<Rightarrow> string outcome" where
  "dump_dst names mem i kind =
     (if kind = 0 then
        bind_outcome (word_at mem (i + 3)) (\<lambda>w. Ret (''REG('' @ RadeonWriteRegName names (push_bit 2 w) @ '')''))
      else if kind = 1 then Ret ''DST_MEM_GRBM'' else if kind = 2 then Ret ''TC_L2''
      else if kind = 3 then Ret ''GDS'' else if kind = 4 then Ret ''PERF''
      else if kind = 5 then
        bind_outcome (qword_at mem (i + 3)) (\<lambda>q. Ret (''DST_MEM(0x'' @ hex08 q @ '')''))
      else Ret (''?('' @ show_u kind @ '')''))"

definition dump_copy_data :: "reg_names \<Rightarrow> u32 list \<Rightarrow> nat \<Rightarrow> string outcome" where
  "dump_copy_data names mem i =
     bind_outcome (word_at mem i) (\<lambda>w.
     bind_outcome (dump_src names mem i (w mod 0x10)) (\<lambda>src.
     bind_outcome (dump_dst names mem i (drop_bit 8 w mod 0x10)) (\<lambda>dst.
       Ret (''  src: '' @ src @ nl @ ''  dst: '' @ dst @ nl))))"

text \<open>A packet of type 3 whose words start at \<open>i\<close>.\<close>

definition dump_pkt3 :: "reg_names \<Rightarrow> u32 list \<Rightarrow> nat \<Rightarrow> u32 \<Rightarrow> string outcome" where
  "dump_pkt3 names mem i header =
     (let cnt = unat (PKT_COUNT_G header); op = PKT3_IT_OPCODE_G header
      in bind_outcome
           (if op = 0x68 then dump_set_reg names SI_CONFIG_REG_OFFSET mem i cnt
            else if op = 0x69 then dump_set_reg names SI_CONTEXT_REG_OFFSET mem i cnt
            else if op = 0x76 then dump_set_reg names SI_SH_REG_OFFSET mem i cnt
            else if op = 0x40 then dump_copy_data names mem i
            else dump_words mem i (cnt + 1))
           (\<lambda>t. Ret (''PKT3('' @ pkt3_name op @ '', '' @ digits 10 cnt @ '')'' @ nl @ t)))"

text \<open>The loop ends only when it meets the end exactly.\<close>

function dump_from :: "reg_names \<Rightarrow> u32 list \<Rightarrow> nat \<Rightarrow> nat \<Rightarrow> string outcome" where
  "dump_from names mem e i =
     (if i = e then Ret ''''
      else if \<not> i < length mem then Fault
      else
        (let header = mem ! i
         in if PKT_TYPE_G header = 3 then
              bind_outcome (dump_pkt3 names mem (i + 1) header) (\<lambda>t.
              bind_outcome (dump_from names mem e (i + 1 + (unat (PKT_COUNT_G header) + 1))) (\<lambda>r. Ret (t @ r)))
            else if PKT_TYPE_G header = 2 then
              (if header = 0x80000000 then
                 bind_outcome (dump_from names mem e (i + 1)) (\<lambda>r. Ret (''PKT2(NOP)'' @ nl @ r))
               else Ret (''PKT2(?)'' @ nl))
            else Ret (''? ( '' @ hex08 header @ '')'')))"
  by pat_completeness auto

termination by (relation "measure (\<lambda>(names, mem, e, i). length mem - i)") simp_all

definition DumpIb :: "u32 list \<Rightarrow> nat \<Rightarrow> string outcome" where
  "DumpIb mem sz = dump_from RadeonGetRegName mem (sz div 4) 0"

declare dump_bytes_from.simps [simp del] dump_int32_from.simps [simp del] dump_from.simps [simp del]

section \<open>Streams of packets\<close>

text \<open>
  What a command stream is meant to be: packets of type 3 with as many words as their header says
  (at least the five that its operands may take, for a copy), and single words that do nothing. A
  header has its type in bits 30 and 31, the number of words less one in bits 16 to 29 and the
  operation in bits 8 to 15; here they are read by division.
\<close>

datatype ib_packet = pkt3 u32 "u32 list" | pkt2_nop

definition header_type :: "u32 \<Rightarrow> nat" where "header_type h = unat h div 2 ^ 30"
definition header_count :: "u32 \<Rightarrow> nat" where "header_count h = unat h div 2 ^ 16 mod 2 ^ 14"
definition header_opcode :: "u32 \<Rightarrow> nat" where "header_opcode h = unat h div 2 ^ 8 mod 2 ^ 8"

definition packet_words :: "ib_packet \<Rightarrow> u32 list" where
  "packet_words p = (case p of pkt3 h ws \<Rightarrow> h # ws | pkt2_nop \<Rightarrow> [0x80000000])"

definition packet_ok :: "ib_packet \<Rightarrow> bool" where
  "packet_ok p =
     (case p of
        pkt3 h ws \<Rightarrow> header_type h = 3 \<and> length ws = header_count h + 1
          \<and> (header_opcode h = 0x40 \<longrightarrow> 5 \<le> length ws)
      | pkt2_nop \<Rightarrow> True)"

definition stream_words :: "ib_packet list \<Rightarrow> u32 list" where
  "stream_words ps = concat (map packet_words ps)"

subsection \<open>The text of a packet\<close>

text \<open>
  The reference printer works on the words of one packet as a list of numbers. A register is
  printed by its name, or by its number when it has none; registers are counted in words from the
  base of their group.
\<close>

definition register_text :: "reg_names \<Rightarrow> nat \<Rightarrow> string" where
  "register_text names r =
     (case names (word_of_nat r) of Some nm \<Rightarrow> nm | None \<Rightarrow> ''?('' @ digits 10 (r mod 2 ^ 32) @ '')'')"

definition words_text :: "u32 list \<Rightarrow> string" where
  "words_text ws = concat (map (\<lambda>w. ''  0x'' @ pad0 8 (digits 16 (unat w)) @ nl) ws)"

definition opcode_text :: "nat \<Rightarrow> string" where
  "opcode_text op =
     (if op = 18 then ''CLEAR_STATE'' else if op = 21 then ''DISPATCH_DIRECT''
      else if op = 39 then ''DRAW_INDEX_2'' else if op = 40 then ''CONTEXT_CONTROL''
      else if op = 42 then ''INDEX_TYPE'' else if op = 45 then ''DRAW_INDEX_AUTO''
      else if op = 47 then ''NUM_INSTANCES'' else if op = 55 then ''WRITE_DATA''
      else if op = 64 then ''COPY_DATA'' else if op = 65 then ''CP_DMA''
      else if op = 66 then ''PFP_SYNC_ME'' else if op = 67 then ''SURFACE_SYNC''
      else if op = 70 then ''EVENT_WRITE'' else if op = 104 then ''SET_CONFIG_REG''
      else if op = 105 then ''SET_CONTEXT_REG'' else if op = 118 then ''SET_SH_REG''
      else ''?('' @ (if op = 0 then ''00'' else ''0x'' @ digits 16 op) @ '')'')"

definition set_reg_text :: "reg_names \<Rightarrow> nat \<Rightarrow> u32 list \<Rightarrow> string" where
  "set_reg_text names base ws =
     ''  reg: '' @ register_text names (base + 4 * unat (hd ws)) @ nl @ words_text (tl ws)"

definition mem_text :: "u32 \<Rightarrow> u32 \<Rightarrow> string" where
  "mem_text lo hi = ''MEM(0x'' @ pad0 8 (digits 16 (unat hi * 2 ^ 32 + unat lo)) @ '')''"

definition kind_text :: "(nat \<times> string) list \<Rightarrow> nat \<Rightarrow> string" where
  "kind_text tab k = (case map_of tab k of Some t \<Rightarrow> t | None \<Rightarrow> ''?('' @ digits 10 k @ '')'')"

text \<open>The source kind is the lowest hexadecimal digit of the first word, the target kind the third.\<close>

definition copy_text :: "reg_names \<Rightarrow> u32 list \<Rightarrow> string" where
  "copy_text names ws =
     (let reg = ''REG('' @ register_text names (4 * unat (ws ! 3)) @ '')''
      in ''  src: '' @
         kind_text [(0, reg), (1, ''SRC_'' @ mem_text (ws ! 1) (ws ! 2)), (2, ''TC_L2''), (3, ''GDS''),
           (4, ''PERF''), (5, ''IMM''), (9, ''TIMESTAMP'')] (unat (ws ! 0) mod 16) @ nl @
         ''  dst: '' @
         kind_text [(0, reg), (1, ''DST_MEM_GRBM''), (2, ''TC_L2''), (3, ''GDS''), (4, ''PERF''),
           (5, ''DST_'' @ mem_text (ws ! 3) (ws ! 4))] (unat (ws ! 0) div 256 mod 16) @ nl)"

definition packet_text :: "reg_names \<Rightarrow> ib_packet \<Rightarrow> string" where
  "packet_text names p =
     (case p of
        pkt3 h ws \<Rightarrow>
          ''PKT3('' @ opcode_text (header_opcode h) @ '', '' @ digits 10 (length ws - 1) @ '')'' @ nl @
          (if header_opcode h = 104 then set_reg_text names 0x8000 ws
           else if header_opcode h = 105 then set_reg_text names 0x28000 ws
           else if header_opcode h = 118 then set_reg_text names 0xB000 ws
           else if header_opcode h = 64 then copy_text names ws
           else words_text ws)
      | pkt2_nop \<Rightarrow> ''PKT2(NOP)'' @ nl)"

subsection \<open>Fields of words as numbers\<close>

lemma and_low_bits: "x AND 0x3 = take_bit 2 x" "x AND 0x3FFF = take_bit 14 x" "x AND 0xFF = take_bit 8 x"
  for x :: u32
  by (simp_all add: take_bit_eq_mask mask_numeral)

lemma header_fields:
  "unat (PKT_TYPE_G h) = header_type h" "unat (PKT_COUNT_G h) = header_count h"
  "unat (PKT3_IT_OPCODE_G h) = header_opcode h"
proof -
  have "unat h < 2 ^ 32" using unsigned_less [where 'a = nat, of h] by simp
  then have "unat h div 2 ^ 30 < 4" by simp
  then show "unat (PKT_TYPE_G h) = header_type h"
    by (simp add: PKT_TYPE_G_def header_type_def and_low_bits unsigned_take_bit_eq unat_drop_bit_eq
        drop_bit_eq_div take_bit_eq_mod unat_mod unat_div)
qed (simp_all add: PKT_COUNT_G_def header_count_def PKT3_IT_OPCODE_G_def header_opcode_def and_low_bits
    unsigned_take_bit_eq unat_drop_bit_eq drop_bit_eq_div take_bit_eq_mod unat_mod unat_div)

lemma header_field_eq:
  "PKT_TYPE_G h = w \<longleftrightarrow> header_type h = unat w" "PKT3_IT_OPCODE_G h = w \<longleftrightarrow> header_opcode h = unat w"
  by (simp_all add: header_fields [symmetric] word_unat_eq_iff)

lemma register_text_word:
  "RadeonWriteRegName names (push_bit 2 w + base) = register_text names (unat base + 4 * unat w)"
proof -
  have "push_bit 2 w + base = word_of_nat (unat base + 4 * unat w)" by (simp add: push_bit_eq_mult)
  then show ?thesis
    by (simp only: RadeonWriteRegName_def register_text_def show_u_def unat_of_nat) (simp split: option.split)
qed

lemma qword_unat:
  "unat (push_bit 32 (ucast hi) OR ucast lo :: u64) = unat hi * 2 ^ 32 + unat (lo :: u32)" for hi :: u32
proof -
  have "push_bit 32 (ucast hi) AND (ucast lo :: u64) = 0"
    by (rule bit_word_eqI) (auto simp: bit_simps dest: bit_imp_le_length)
  then have "push_bit 32 (ucast hi) OR (ucast lo :: u64) = push_bit 32 (ucast hi) + ucast lo"
    by (simp add: disjunctive_add_eq_or)
  also have "\<dots> = word_of_nat (unat hi * 2 ^ 32 + unat lo)"
    by (simp add: push_bit_eq_mult)
  finally have "unat (push_bit 32 (ucast hi) OR ucast lo :: u64) = (unat hi * 2 ^ 32 + unat lo) mod 2 ^ 64"
    by (simp only: unat_of_nat) simp
  moreover have "unat hi < 2 ^ 32" "unat lo < 2 ^ 32"
    using unsigned_less [where 'a = nat, of hi] unsigned_less [where 'a = nat, of lo] by simp_all
  ultimately show ?thesis by simp
qed

subsection \<open>The packets of a stream\<close>

lemma word_at_inside:
  "k < length ws \<Longrightarrow> word_at (pre @ ws @ rest) (length pre + k) = Ret (ws ! k)"
  by (simp add: word_at_def nth_append)

lemma qword_at_inside:
  assumes "Suc k < length ws"
  obtains q where "qword_at (pre @ ws @ rest) (length pre + k) = Ret q"
    and "unat q = unat (ws ! Suc k) * 2 ^ 32 + unat (ws ! k)"
  using assms word_at_inside [of k ws pre rest] word_at_inside [of "Suc k" ws pre rest]
    qword_unat [of "ws ! Suc k" "ws ! k"]
  by (simp add: qword_at_def)

lemma dump_words_inside:
  "dump_words (pre @ ws @ rest) (length pre) (length ws) = Ret (words_text ws)"
proof (induction ws arbitrary: pre)
  case (Cons w ws)
  from Cons [of "pre @ [w]"] show ?case
    using word_at_inside [of 0 "w # ws" pre rest] by (simp add: words_text_def hex08_def show_x_def)
qed (simp add: words_text_def)

lemma set_reg_inside:
  assumes "length ws = cnt + 1"
  shows "dump_set_reg names base (pre @ ws @ rest) (length pre) cnt = Ret (set_reg_text names (unat base) ws)"
proof -
  from assms obtain w vs where ws: "ws = w # vs" "length vs = cnt" by (cases ws) auto
  then show ?thesis
    using word_at_inside [of 0 ws pre rest] dump_words_inside [of "pre @ [w]" vs rest]
    by (simp add: dump_set_reg_def set_reg_text_def register_text_word)
qed

lemma dump_src_inside:
  assumes "5 \<le> length ws"
  shows "dump_src names (pre @ ws @ rest) (length pre) k =
    Ret (kind_text [(0, ''REG('' @ register_text names (4 * unat (ws ! 3)) @ '')''),
      (1, ''SRC_'' @ mem_text (ws ! 1) (ws ! 2)), (2, ''TC_L2''), (3, ''GDS''), (4, ''PERF''), (5, ''IMM''),
      (9, ''TIMESTAMP'')] (unat k))"
proof -
  obtain q where "qword_at (pre @ ws @ rest) (length pre + 1) = Ret q"
    "unat q = unat (ws ! 2) * 2 ^ 32 + unat (ws ! 1)"
    using assms qword_at_inside [of 1 ws pre rest] by (auto simp: numeral_2_eq_2)
  then show ?thesis
    using assms word_at_inside [of 3 ws pre rest] register_text_word [of names "ws ! 3" 0]
    by (auto simp: dump_src_def kind_text_def mem_text_def hex08_def show_x_def show_u_def word_unat_eq_iff)
qed

lemma dump_dst_inside:
  assumes "5 \<le> length ws"
  shows "dump_dst names (pre @ ws @ rest) (length pre) k =
    Ret (kind_text [(0, ''REG('' @ register_text names (4 * unat (ws ! 3)) @ '')''),
      (1, ''DST_MEM_GRBM''), (2, ''TC_L2''), (3, ''GDS''), (4, ''PERF''),
      (5, ''DST_'' @ mem_text (ws ! 3) (ws ! 4))] (unat k))"
proof -
  obtain q where "qword_at (pre @ ws @ rest) (length pre + 3) = Ret q"
    "unat q = unat (ws ! 4) * 2 ^ 32 + unat (ws ! 3)"
    using assms qword_at_inside [of 3 ws pre rest] by auto
  then show ?thesis
    using assms word_at_inside [of 3 ws pre rest] register_text_word [of names "ws ! 3" 0]
    by (auto simp: dump_dst_def kind_text_def mem_text_def hex08_def show_x_def show_u_def word_unat_eq_iff)
qed

lemma copy_data_inside:
  assumes "5 \<le> length ws"
  shows "dump_copy_data names (pre @ ws @ rest) (length pre) = Ret (copy_text names ws)"
proof -
  have "ws \<noteq> []" using assms by auto
  then have "word_at (pre @ ws @ rest) (length pre) = Ret (ws ! 0)"
    using word_at_inside [of 0 ws pre rest] by simp
  then show ?thesis
    by (simp add: dump_copy_data_def dump_src_inside [OF assms] dump_dst_inside [OF assms] copy_text_def
        Let_def unat_mod unat_div drop_bit_eq_div)
qed

lemma opcode_name: "pkt3_name (PKT3_IT_OPCODE_G h) = opcode_text (header_opcode h)"
proof -
  have "''00'' = pad0 2 ''0''" by (simp add: pad0_def)
  moreover have "pad0 2 (''0x'' @ t) = ''0x'' @ t" for t by (simp add: pad0_def)
  ultimately show ?thesis
    by (simp add: pkt3_name_def pkt3_names_def opcode_text_def header_field_eq alt_def alt_x_def header_fields)
qed

lemma pkt3_inside:
  assumes "packet_ok (pkt3 h ws)"
  shows "dump_pkt3 names (pre @ ws @ rest) (length pre) h = Ret (packet_text names (pkt3 h ws))"
proof -
  have len: "length ws = header_count h + 1" "header_opcode h = 64 \<Longrightarrow> 5 \<le> length ws"
    using assms by (simp_all add: packet_ok_def)
  show ?thesis
    using set_reg_inside [OF len(1), of names _ pre rest] copy_data_inside [OF len(2), of names pre rest]
      dump_words_inside [of pre ws rest] len(1)
    by (auto simp: dump_pkt3_def packet_text_def opcode_name header_fields header_field_eq
        SI_CONFIG_REG_OFFSET_def SI_CONTEXT_REG_OFFSET_def SI_SH_REG_OFFSET_def simp del: dump_words.simps)
qed

lemma dump_from_pkt3:
  assumes "packet_ok (pkt3 h ws)" and "length pre \<noteq> e"
  shows "dump_from names (pre @ (h # ws) @ rest) e (length pre) =
    bind_outcome (dump_from names ((pre @ h # ws) @ rest) e (length (pre @ h # ws)))
      (\<lambda>r. Ret (packet_text names (pkt3 h ws) @ r))"
proof -
  have h: "PKT_TYPE_G h = 3" "length ws = unat (PKT_COUNT_G h) + 1"
    using assms(1) by (simp_all add: packet_ok_def header_fields header_field_eq)
  have body: "dump_pkt3 names (pre @ h # ws @ rest) (length pre + 1) h = Ret (packet_text names (pkt3 h ws))"
    using pkt3_inside [OF assms(1), of names "pre @ [h]" rest] by simp
  show ?thesis
    using assms(2) h body by (subst dump_from.simps) (simp add: nth_append add.assoc)
qed

lemma dump_from_nop:
  assumes "length pre \<noteq> e"
  shows "dump_from names (pre @ 0x80000000 # rest) e (length pre) =
    bind_outcome (dump_from names ((pre @ [0x80000000]) @ rest) e (length (pre @ [0x80000000])))
      (\<lambda>r. Ret (''PKT2(NOP)'' @ nl @ r))"
  using assms by (subst dump_from.simps) (simp add: nth_append PKT_TYPE_G_def)

text \<open>The loop over a stream in memory, and then over what follows it.\<close>

lemma dump_from_stream:
  assumes "list_all packet_ok ps" and "length pre + length (stream_words ps) \<le> e"
  shows "dump_from names (pre @ stream_words ps @ rest) e (length pre) =
    bind_outcome (dump_from names (pre @ stream_words ps @ rest) e (length pre + length (stream_words ps)))
      (\<lambda>r. Ret (concat (map (packet_text names) ps) @ r))"
  using assms
proof (induction ps arbitrary: pre)
  case Nil
  show ?case by (cases "dump_from names (pre @ rest) e (length pre)") (simp_all add: stream_words_def)
next
  case (Cons p ps)
  let ?pre = "pre @ packet_words p"
  have words: "pre @ stream_words (p # ps) @ rest = ?pre @ stream_words ps @ rest"
    "length pre + length (stream_words (p # ps)) = length ?pre + length (stream_words ps)"
    by (simp_all add: stream_words_def)
  have "packet_words p \<noteq> []" by (cases p) (simp_all add: packet_words_def)
  with Cons.prems(2) have e: "length pre \<noteq> e" by (auto simp: stream_words_def)
  have ok: "packet_ok p" "list_all packet_ok ps" using Cons.prems(1) by simp_all
  have le: "length ?pre + length (stream_words ps) \<le> e" using Cons.prems(2) words(2) by simp
  have first: "dump_from names (?pre @ stream_words ps @ rest) e (length pre) =
      bind_outcome (dump_from names (?pre @ stream_words ps @ rest) e (length ?pre))
        (\<lambda>r. Ret (packet_text names p @ r))"
  proof (cases p)
    case (pkt3 h ws)
    with ok(1) dump_from_pkt3 [OF _ e, of h ws names "stream_words ps @ rest"] show ?thesis
      by (simp add: packet_words_def)
  next
    case pkt2_nop
    with dump_from_nop [OF e, of names "stream_words ps @ rest"] show ?thesis
      by (simp add: packet_words_def packet_text_def)
  qed
  show ?case unfolding words first Cons.IH [OF ok(2) le]
    by (cases "dump_from names (?pre @ stream_words ps @ rest) e (length ?pre + length (stream_words ps))") simp_all
qed

text \<open>Behind the end of memory nothing can be read.\<close>

lemma dump_words_outside: "length mem < i + n \<Longrightarrow> 0 < n \<Longrightarrow> dump_words mem i n = Fault"
proof (induction n arbitrary: i)
  case (Suc n)
  show ?case
  proof (cases "i < length mem")
    case True
    with Suc have "dump_words mem (i + 1) n = Fault" by (cases n) auto
    then show ?thesis by (cases "word_at mem i") simp_all
  qed (simp add: word_at_def)
qed simp

lemma dump_from_outside: "e < i \<Longrightarrow> length mem \<le> i \<Longrightarrow> dump_from names mem e i = Fault"
  by (subst dump_from.simps) simp

text \<open>
  A copy of fewer words than its operands take is read behind its end: its first word asks for a
  register as the source, whose number is the fourth word.
\<close>

lemma dump_short_copy:
  assumes "header_type h = 3" "header_opcode h = 64" "length ws = header_count h + 1" "length ws \<le> 3"
    and "unat (ws ! 0) mod 16 = 0" and "length pre \<noteq> e"
  shows "dump_from names (pre @ h # ws) e (length pre) = Fault"
proof -
  have "word_at (pre @ h # ws) (4 + length pre) = Fault" using assms(4) by (simp add: word_at_def)
  moreover have "ws ! 0 mod 16 = 0" using assms(5) by (simp add: word_unat_eq_iff unat_mod)
  moreover have "word_at (pre @ h # ws) (length pre + 1) = Ret (ws ! 0)"
    using assms(3) word_at_inside [of 0 ws "pre @ [h]" "[]"] by (cases ws) simp_all
  ultimately have "dump_copy_data names (pre @ h # ws) (length pre + 1) = Fault"
    by (simp add: dump_copy_data_def dump_src_def)
  then have "dump_pkt3 names (pre @ h # ws) (length pre + 1) h = Fault"
    using assms(2) by (simp add: dump_pkt3_def header_field_eq)
  then show ?thesis
    using assms(1,6) by (subst dump_from.simps) (simp add: header_field_eq nth_append)
qed

text \<open>C39. A dumped command stream of whole packets prints the text of each, in order, whatever lies behind
  the buffer, when every copy in it has at least the five words its operands may take; the text is that
  of a reference printer that reads nothing but the words of the packet. A stream whose last packet
  says it has more words than the buffer has left is not recognised: the loop has run past the end by
  then and goes on reading behind the buffer. Nor is a whole copy from a register of at most three
  words: it ends in a read behind the buffer when it is the last packet.\<close>

theorem dump_ib_packets:
  assumes "list_all packet_ok ps"
  shows "DumpIb (stream_words ps @ rest) (4 * length (stream_words ps))
      = Ret (concat (map (packet_text RadeonGetRegName) ps))
    \<and> (\<forall>h ws. header_type h = 3 \<and> length ws < header_count h + 1 \<longrightarrow>
         DumpIb (stream_words ps @ h # ws) (4 * length (stream_words ps @ h # ws)) = Fault)
    \<and> (\<forall>h ws. header_type h = 3 \<and> header_opcode h = 64 \<and> length ws = header_count h + 1
           \<and> length ws \<le> 3 \<and> unat (ws ! 0) mod 16 = 0 \<longrightarrow>
         DumpIb (stream_words ps @ h # ws) (4 * length (stream_words ps @ h # ws)) = Fault)"
proof (intro conjI allI impI)
  show "DumpIb (stream_words ps @ rest) (4 * length (stream_words ps))
      = Ret (concat (map (packet_text RadeonGetRegName) ps))"
    using dump_from_stream [OF assms, of "[]" "length (stream_words ps)" RadeonGetRegName rest]
      dump_from.simps [of RadeonGetRegName "stream_words ps @ rest" "length (stream_words ps)" "length (stream_words ps)"]
    by (simp add: DumpIb_def)
next
  fix h and ws :: "u32 list"
  let ?mem = "stream_words ps @ h # ws" and ?n = "length (stream_words ps)"
  note stream = dump_from_stream [OF assms, of "[]" "length ?mem" RadeonGetRegName "h # ws"]
  { assume h: "header_type h = 3 \<and> length ws < header_count h + 1"
    then have "dump_from RadeonGetRegName ?mem (length ?mem) (?n + 1 + (unat (PKT_COUNT_G h) + 1)) = Fault"
      by (intro dump_from_outside) (simp_all add: header_fields)
    then have "dump_from RadeonGetRegName ?mem (length ?mem) ?n = Fault"
      using h by (subst dump_from.simps)
        (cases "dump_pkt3 RadeonGetRegName ?mem (?n + 1) h"; simp add: header_field_eq)
    with stream show "DumpIb ?mem (4 * length ?mem) = Fault" by (simp add: DumpIb_def) }
  { assume h: "header_type h = 3 \<and> header_opcode h = 64 \<and> length ws = header_count h + 1
      \<and> length ws \<le> 3 \<and> unat (ws ! 0) mod 16 = 0"
    then have "dump_from RadeonGetRegName ?mem (length ?mem) ?n = Fault"
      by (intro dump_short_copy) simp_all
    with stream show "DumpIb ?mem (4 * length ?mem) = Fault" by (simp add: DumpIb_def) }
qed

theorem dump_ib_packets_witness:
  "DumpIb [0xC0001200, 7, 0x80000000, 0xC0016900, 0, 5, 9] 24
     = Ret (''PKT3(CLEAR_STATE, 0)'' @ nl @ ''  0x00000007'' @ nl @ ''PKT2(NOP)'' @ nl @
            ''PKT3(SET_CONTEXT_REG, 1)'' @ nl @ ''  reg: DB_RENDER_CONTROL'' @ nl @ ''  0x00000005'' @ nl)
   \<and> DumpIb [0xC0001200, 7, 0x80000000, 0xC0016900, 0, 5, 0xC0011200, 7] 32 = Fault
   \<and> DumpIb [0xC0001200, 7, 0x80000000, 0xC0016900, 0, 5, 0xC0004000, 0x500] 32 = Fault"
proof -
  let ?ps = "[pkt3 0xC0001200 [7], pkt2_nop, pkt3 0xC0016900 [0, 5]]"
  have ok: "list_all packet_ok ?ps"
    by (simp add: packet_ok_def header_type_def header_count_def header_opcode_def)
  have words: "stream_words ?ps = [0xC0001200, 7, 0x80000000, 0xC0016900, 0, 5]"
    by (simp add: stream_words_def packet_words_def)
  have reg: "RadeonGetRegName 0x28000 = Some ''DB_RENDER_CONTROL''"
    by (simp add: reg_name_found reg_table_def reg_names_6_def)
  have ds: "digits 10 0 = ''0''" "digits 10 1 = ''1''" "digits 16 7 = ''7''" "digits 16 5 = ''5''" by code_simp+
  have zeros: "replicate 7 (CHR ''0'') = ''0000000''" by code_simp
  have shown: "concat (map (packet_text RadeonGetRegName) ?ps)
      = ''PKT3(CLEAR_STATE, 0)'' @ nl @ ''  0x00000007'' @ nl @ ''PKT2(NOP)'' @ nl @
        ''PKT3(SET_CONTEXT_REG, 1)'' @ nl @ ''  reg: DB_RENDER_CONTROL'' @ nl @ ''  0x00000005'' @ nl"
    by (simp add: packet_text_def header_opcode_def opcode_text_def words_text_def set_reg_text_def
        register_text_def reg pad0_def nl_def ds [simplified] zeros)
  have short: "header_type 0xC0011200 = 3 \<and> length [7 :: u32] < header_count 0xC0011200 + 1"
    and copy: "header_type 0xC0004000 = 3 \<and> header_opcode 0xC0004000 = 64
      \<and> length [0x500 :: u32] = header_count 0xC0004000 + 1
      \<and> length [0x500 :: u32] \<le> 3 \<and> unat ([0x500 :: u32] ! 0) mod 16 = 0"
    by (simp_all add: header_type_def header_count_def header_opcode_def)
  note d = dump_ib_packets [OF ok, of "[9]"]
  show ?thesis
    using conjunct1 [OF d] conjunct1 [OF conjunct2 [OF d], rule_format, OF short]
      conjunct2 [OF conjunct2 [OF d], rule_format, OF copy] unfolding shown by (simp add: words)
qed

end
