(* ===== verification/Tool.thy ===== *)
theory Tool imports DrmDevice Dump begin

text \<open>
  The tool that lists devices, \<open>tools/drmdevice.c\<close>, over the functions of \<open>libdrm_device.cpp\<close>: what it
  prints and what it returns. Opening a node gives a failure, with the text and the number of the
  error, or a file with what \<open>fstat\<close> will say of it.
\<close>

section \<open>Printing a device\<close>

text \<open>\<open>%#04x\<close>\<close>

definition alt04 :: "nat \<Rightarrow> string" where
  "alt04 n = (if n = 0 then ''0000'' else ''0x'' @ pad0 2 (digits 16 n))"

definition hex_pad :: "nat \<Rightarrow> nat \<Rightarrow> string" where "hex_pad w n = pad0 w (digits 16 n)"

text \<open>The memory behind a pointer of the device.\<close>

definition bus_peek :: "drmDevice \<Rightarrow> nat \<Rightarrow> nat \<Rightarrow> nat outcome" where
  "bus_peek d off n = (case businfo d of None \<Rightarrow> Fault | Some m \<Rightarrow> peek off n m)"

definition info_peek :: "drmDevice \<Rightarrow> nat \<Rightarrow> nat \<Rightarrow> nat outcome" where
  "info_peek d off n = (case deviceinfo d of Some (flat_info m) \<Rightarrow> peek off n m | _ \<Rightarrow> Fault)"

definition full_name :: "drmDevice \<Rightarrow> string outcome" where
  "full_name d =
     (case businfo d of
        None \<Rightarrow> Fault
      | Some m \<Rightarrow> if 0 \<in> set m then Ret (c_string (map (\<lambda>b. char_of (unat b)) m)) else Fault)"

definition compatible_lines :: "drmDevice \<Rightarrow> string outcome" where
  "compatible_lines d =
     (case deviceinfo d of
        Some (compatible_info (Some strs)) \<Rightarrow>
          Ret (concat (map (\<lambda>s. replicate 20 (CHR '' '') @ s @ nl) strs))
      | _ \<Rightarrow> Fault)"

definition node_lines :: "drmDevice \<Rightarrow> string" where
  "node_lines d =
     concat (map (\<lambda>j. if available_nodes d AND push_bit j 1 \<noteq> 0
                      then ''|   +-> nodes['' @ digits 10 j @ ''] '' @ nodes d ! j @ nl else '''')
       [0..<DRM_NODE_MAX])"

definition print_pci :: "drmDevice \<Rightarrow> bool \<Rightarrow> string outcome" where
  "print_pci d print_revision =
     bind_outcome (bus_peek d 0 2) (\<lambda>domain. bind_outcome (bus_peek d 2 1) (\<lambda>bus.
     bind_outcome (bus_peek d 3 1) (\<lambda>dev. bind_outcome (bus_peek d 4 1) (\<lambda>func.
     bind_outcome (info_peek d 0 2) (\<lambda>vendor. bind_outcome (info_peek d 2 2) (\<lambda>device.
     bind_outcome (info_peek d 4 2) (\<lambda>subvendor. bind_outcome (info_peek d 6 2) (\<lambda>subdevice.
     bind_outcome (if print_revision then info_peek d 8 1 else Ret 0) (\<lambda>revision.
       Ret (''|   +-> pci'' @ nl @
            ''|       +-> domain '' @ hex_pad 4 domain @ nl @
            ''|       +-> bus    '' @ hex_pad 2 bus @ nl @
            ''|       +-> dev    '' @ hex_pad 2 dev @ nl @
            ''|       +-> func   '' @ digits 10 func @ nl @
            ''+-> deviceinfo'' @ nl @ ''    +-> pci'' @ nl @
            ''        +-> vendor_id     '' @ hex_pad 4 vendor @ nl @
            ''        +-> device_id     '' @ hex_pad 4 device @ nl @
            ''        +-> subvendor_id  '' @ hex_pad 4 subvendor @ nl @
            ''        +-> subdevice_id  '' @ hex_pad 4 subdevice @ nl @
            ''        +-> revision_id   '' @ (if print_revision then hex_pad 2 revision else ''IGNORED'') @
            nl))))))))))"

definition print_usb :: "drmDevice \<Rightarrow> string outcome" where
  "print_usb d =
     bind_outcome (bus_peek d 0 1) (\<lambda>bus. bind_outcome (bus_peek d 1 1) (\<lambda>dev.
     bind_outcome (info_peek d 0 2) (\<lambda>vendor. bind_outcome (info_peek d 2 2) (\<lambda>product.
       Ret (''|   +-> usb'' @ nl @
            ''|       +-> bus '' @ pad0 3 (digits 10 bus) @ nl @
            ''|       +-> dev '' @ pad0 3 (digits 10 dev) @ nl @
            ''+-> deviceinfo'' @ nl @ ''    +-> usb'' @ nl @
            ''        +-> vendor  '' @ hex_pad 4 vendor @ nl @
            ''        +-> product '' @ hex_pad 4 product @ nl)))))"

text \<open>The platform and the host1x bus differ in their name only.\<close>

definition print_named :: "string \<Rightarrow> drmDevice \<Rightarrow> string outcome" where
  "print_named bus d =
     bind_outcome (full_name d) (\<lambda>fullname.
     bind_outcome (compatible_lines d) (\<lambda>t.
       Ret (''|   +-> '' @ bus @ nl @ ''|       +-> fullname'' @ [CHR 0x09] @ fullname @ nl @
            ''+-> deviceinfo'' @ nl @ ''    +-> '' @ bus @ nl @ ''        +-> compatible'' @ nl @ t)))"

definition print_device_info :: "drmDevice option \<Rightarrow> nat \<Rightarrow> bool \<Rightarrow> string outcome" where
  "print_device_info device i print_revision =
     (case device of
        None \<Rightarrow> Fault
      | Some d \<Rightarrow>
          bind_outcome
            (if bustype d = DRM_BUS_PCI then print_pci d print_revision
             else if bustype d = DRM_BUS_USB then print_usb d
             else if bustype d = DRM_BUS_PLATFORM then print_named ''platform'' d
             else if bustype d = DRM_BUS_HOST1X then print_named ''host1x'' d
             else Ret (''Unknown/unhandled bustype'' @ nl)) (\<lambda>t.
            Ret (''device['' @ digits 10 i @ '']'' @ nl @
                 ''+-> available_nodes '' @ alt04 (unat (available_nodes d)) @ nl @
                 ''+-> nodes'' @ nl @ node_lines d @
                 ''+-> bustype '' @ hex_pad 4 (unat (word_of_int (bustype d) :: u32)) @ nl @ t @ nl)))"

section \<open>The program\<close>

type_synonym opened = "string \<Rightarrow> (string \<times> int) + file_id option"

text \<open>One node of device \<open>i\<close>; \<open>device\<close> is the variable of \<open>main\<close>.\<close>

definition show_node ::
    "poke_call \<Rightarrow> (string \<times> file_id option) list \<Rightarrow> opened \<Rightarrow> nat \<Rightarrow> string \<Rightarrow> drmDevice option \<Rightarrow> alloc_script
     \<Rightarrow> (string \<times> drmDevice option \<times> alloc_script) outcome" where
  "show_node poke dir opened i node device sc =
     (let start = ''--- Opening device node '' @ node @ '' ---'' @ nl
      in case opened node of
           Inl (msg, err) \<Rightarrow> Ret (start @ ''Failed - '' @ msg @ '' ('' @ show_int err @ '')'' @ nl, device, sc)
         | Inr st \<Rightarrow>
             bind_outcome (drmGetDevice2 poke dir st 1 device sc) (\<lambda>(ret, device, sc).
             bind_outcome
               (if ret = 0 then
                  bind_outcome (print_device_info device i True) (\<lambda>t.
                  bind_outcome (drmFreeDevice (Some device)) (\<lambda>_. Ret (t, None)))
                else Ret ('''', device)) (\<lambda>(t, device).
               Ret (start @ ''--- Retrieving device info, for node '' @ node @ '' ---'' @ nl @ t, device, sc))))"

fun show_nodes ::
    "poke_call \<Rightarrow> (string \<times> file_id option) list \<Rightarrow> opened \<Rightarrow> nat \<Rightarrow> drmDevice \<Rightarrow> nat list \<Rightarrow> drmDevice option
     \<Rightarrow> alloc_script \<Rightarrow> (string \<times> drmDevice option \<times> alloc_script) outcome" where
  "show_nodes poke dir opened i d [] device sc = Ret ('''', device, sc)"
| "show_nodes poke dir opened i d (j # js) device sc =
     bind_outcome
       (if available_nodes d AND push_bit j 1 \<noteq> 0
        then show_node poke dir opened i (nodes d ! j) device sc
        else Ret ('''', device, sc)) (\<lambda>(t, device, sc).
     bind_outcome (show_nodes poke dir opened i d js device sc) (\<lambda>(r, device, sc). Ret (t @ r, device, sc)))"

fun show_devices ::
    "poke_call \<Rightarrow> (string \<times> file_id option) list \<Rightarrow> opened \<Rightarrow> nat \<Rightarrow> drmDevice option list \<Rightarrow> drmDevice option
     \<Rightarrow> alloc_script \<Rightarrow> (string \<times> alloc_script) outcome" where
  "show_devices poke dir opened i [] device sc = Ret ('''', sc)"
| "show_devices poke dir opened i (None # ds) device sc = Fault"
| "show_devices poke dir opened i (Some d # ds) device sc =
     bind_outcome (show_nodes poke dir opened i d [0..<DRM_NODE_MAX] device sc) (\<lambda>(t, device, sc).
     bind_outcome (show_devices poke dir opened (i + 1) ds device sc) (\<lambda>(r, sc). Ret (t @ r, sc)))"

text \<open>
  What is printed and returned. The count of \<open>drmGetDevices2\<close> is never negative, so the error branch
  after its second call is not there.
\<close>

definition drmdevice_main ::
    "poke_call \<Rightarrow> (string \<times> file_id option) list \<Rightarrow> opened \<Rightarrow> alloc_script \<Rightarrow> (string \<times> int) outcome" where
  "drmdevice_main poke dir opened sc =
     bind_outcome (drmGetDevices2 poke (map fst dir) 0 None 0 sc) (\<lambda>(max_devices, _, sc).
     let start = ''--- Checking the number of DRM device available ---'' @ nl
     in if max_devices = 0 then
          Ret (start @ ''drmGetDevices2() has not found any devices (errno='' @
               show_int (- int max_devices) @ '')'' @ nl, 77)
        else
          (case calloc_next sc of
             (False, sc) \<Rightarrow>
               Ret (start @ ''--- Devices reported '' @ digits 10 max_devices @ '' ---'' @ nl @
                    ''Failed to allocate memory for the drmDevicePtr array'' @ nl, -1)
           | (True, sc) \<Rightarrow>
               bind_outcome (drmGetDevices2 poke (map fst dir) 0 (Some (replicate max_devices None))
                   (int max_devices) sc) (\<lambda>(ret, devices, sc).
               bind_outcome (show_devices poke dir opened 0 (take ret (the devices)) None sc) (\<lambda>(t, sc).
               bind_outcome (drmFreeDevices devices (int ret)) (\<lambda>_.
                 Ret (start @ ''--- Devices reported '' @ digits 10 max_devices @ '' ---'' @ nl @
                      ''--- Retrieving devices information (PCI device revision is ignored) ---'' @ nl @ t, 0))))))"

section \<open>What the tool finds\<close>

text \<open>Whatever devices there are, the tool reports that it has not found any.\<close>

theorem drmdevice_finds_nothing:
  "drmdevice_main poke dir opened sc =
     Ret (''--- Checking the number of DRM device available ---'' @ nl @
          ''drmGetDevices2() has not found any devices (errno=0)'' @ nl, 77)"
proof -
  have "drmGetDevices2 poke names flags None 0 sc = Ret (0, None, sc)" for names flags
    by (cases names) (simp_all add: drmGetDevices2_def)
  moreover have "show_int 0 = ''0''" by code_simp
  ultimately show ?thesis by (simp add: drmdevice_main_def)
qed

text \<open>A PCI device made by \<open>drmGetDeviceInt\<close> can be printed: nothing behind its memory is read.\<close>

theorem device_int_prints:
  assumes "drmGetDeviceInt poke nm sc = Ret (0, Some d, sc')"
  shows "\<exists>t. print_device_info (Some d) i with_revision = Ret t"
proof -
  have "\<exists>info. bustype d = 0 \<and> businfo d = Some (pci_bus_bytes info)
      \<and> deviceinfo d = Some (flat_info (pci_device_bytes info))"
    using assms by (auto simp: drmGetDeviceInt_def drmDeviceAlloc_def Let_def
        split: option.split_asm prod.split_asm if_split_asm bool.split_asm)
  then show ?thesis
    by (auto simp: print_device_info_def print_pci_def bus_peek_def info_peek_def peek_def pci_bus_bytes_def
        pci_device_bytes_def drm_bus)
qed

end
