(* ===== verification/Spec2Isabelle.thy ===== *)
theory Spec2Isabelle imports Prelude DoubleList HandleTable VaMgr Internal RefRaces Bo VaRange Cs Syncobj
  Bytes GpuInfo AsicId Device Ioctl Drm StubMem Stub StubRuns DrmDevice Trace
  RegNames AsicTable Dump Tool begin

text \<open>
  A verification development for libdrm2, the port of libdrm and libdrm_amdgpu to Haiku.

  \<^bold>\<open>The program.\<close> The repository builds two libraries. libdrm_amdgpu (\<open>src/amdgpu\<close>) gives a client
  devices, buffer objects, address ranges, command submission and synchronisation objects; below it
  is an accelerant, a loaded driver whose vtable does what a kernel driver does elsewhere. libdrm
  (\<open>src/libdrm*.c*\<close>, \<open>src/Poke.cpp\<close>) has the generic calls of the DRM interface, the enumeration of
  devices and a printer of calls; every call goes to \<open>drmIoctl\<close>, which passes it to a stub driver inside
  the library (\<open>src/stub\<close>). What is outside \<open>src\<close> is a parameter: the accelerant's vtables are records of
  functions over an abstract state (\<open>bo_ops\<close>, \<open>cs_ops\<close>, \<open>syncobj_ops\<close>, \<open>info_ops\<close>, \<open>device_ops\<close>), and so
  are \<open>create_area\<close>, \<open>open\<close>, \<open>close\<close>, directories, \<open>fstat\<close> and the poke driver.

  \<^bold>\<open>Conventions.\<close> Integers are words of their C width and wrap, result codes are numbers. A signed
  count-up that C leaves undefined (\<open>cpu_map_count\<close>) is a fault at the largest value; the reference
  counts are atomics and wrap. Memory the program shares by pointer is a
  heap, a map from addresses to records; \<open>None\<close> is a null pointer. An operation that C leaves undefined, or
  that would read or write memory that is not there, is the outcome \<open>Fault\<close>, so a theorem that a function
  returns \<open>Ret\<close> also says it does nothing undefined; the assertions of the code are faults too. The
  specifications the main functions are compared with are written apart from them, over natural
  numbers, sets and lists:
  the free addresses of a manager, the fields at their bytes, a reference printer of packets. Every
  \<open>calloc\<close>, \<open>realloc\<close> and \<open>malloc\<close> takes its outcome from a script of booleans (an empty script never
  fails), so each error path is a branch. A loop over pointers that need not end is a
  \<open>partial_function (option)\<close>, where \<open>None\<close> is not returning; the other loops are total functions, with a
  measure where they are not structural, and no definition takes fuel. Mutexes make the operations
  they enclose atomic; what is not under a mutex, the counting of references, is also modelled step by
  step under every interleaving (\<open>RefRaces\<close>), and the one window a mutex leaves open is its own theorem
  (\<open>close_open_race\<close>).

  \<^bold>\<open>Theories and sources.\<close>
  \<^item> \<open>Prelude\<close>: word types, error codes, \<open>outcome\<close>, allocation scripts, \<open>util_math.h\<close>; \<open>Bytes\<close>: memory as
    bytes, C strings.
  \<^item> \<open>DoubleList\<close>: \<open>amdgpu/util_double_list.h\<close>, the pointer operations statement by statement. The
    predicate \<open>dlist\<close> says which heap represents which list; the lemmas are the refinement of insertion and
    deletion on lists, as the locale \<open>linked_list\<close>, used by the semaphore lists of \<open>Cs\<close>.
  \<^item> \<open>HandleTable\<close>: \<open>amdgpu/handle_table.c\<close>, refined to finite maps through the locale \<open>handle_map\<close>, used
    by \<open>Bo\<close>.
  \<^item> \<open>VaMgr\<close>: the hole list of \<open>amdgpu/amdgpu_vamgr.c\<close>. \<open>mgr_free\<close> is the set of free addresses; the
    invariant \<open>wf_mgr\<close> (sorted, apart, not empty) makes the list a normal form of that set. Allocation is
    sound and complete and takes the lowest or highest free range, freeing gives back exactly the range; the locales \<open>range_allocator\<close> and
    \<open>lossless_allocator\<close> carry this to runs. \<open>VaRange\<close>: the four managers of a device, their set-up in
    \<open>amdgpu_device.c\<close> and the handles clients hold.
  \<^item> \<open>Internal\<close>: the reference counts of \<open>amdgpu_internal.h\<close>; \<open>RefRaces\<close>: concurrent callers of them, with
    schedules of single reads and additions. \<open>Bo\<close>: \<open>amdgpu/amdgpu_bo.c\<close>; the invariant ties
    the table of handles, the objects on the heap, their counts, CPU mappings and what the accelerant holds,
    and runs of client operations keep it.
  \<^item> \<open>Cs\<close>: contexts, submissions, fences, timeouts and software semaphores of \<open>amdgpu/amdgpu_cs.c\<close>;
    \<open>Syncobj\<close>: its synchronisation objects.
  \<^item> \<open>GpuInfo\<close>: \<open>amdgpu/amdgpu_gpu_info.c\<close> over the byte layout of \<open>headers/amdgpu_drm.h\<close>; \<open>AsicId\<close>: the parser of
    \<open>amdgpu/amdgpu_asic_id.c\<close>; \<open>Device\<close>: \<open>amdgpu_device.c\<close>, \<open>amdgpu_device_haiku.cpp\<close>, \<open>amdgpu_vm.c\<close>.
  \<^item> \<open>Ioctl\<close>: requests and arguments of \<open>headers/drm.h\<close> and \<open>amdgpu_drm.h\<close>. \<open>Drm\<close>: \<open>libdrm_common.c\<close> over any
    driver, with the contract of a driver as the locale \<open>drm_driver\<close>. \<open>StubMem\<close>: \<open>stub/memory.cpp\<close> and
    \<open>stub/fdMapper.cpp\<close>; \<open>Stub\<close>: \<open>stub/libdrmStub.cpp\<close> and \<open>libdrm.cpp\<close>, which interprets \<open>drm_driver\<close>;
    \<open>StubRuns\<close>: the invariant of the stub's tables over runs of calls.
  \<^item> \<open>DrmDevice\<close>: \<open>libdrm_device.cpp\<close> and \<open>Poke.cpp\<close>; \<open>Tool\<close>: \<open>tools/drmdevice.c\<close> over it.
  \<^item> \<open>Trace\<close>: \<open>libdrm_trace.c\<close>, what it prints as a string; \<open>Dump\<close>: the printers of command streams, memory and
    mappings in \<open>stub/libdrmStub.cpp\<close> and \<open>stub/memory.cpp\<close>, over streams of packets and
    the names of \<open>RegNames\<close> (\<open>stub/radeon_hd_regs.cpp\<close>). \<open>AsicTable\<close>: the PCI ids of \<open>stub/radeon_hd.c\<close>.

  \<^bold>\<open>What is shown.\<close> The properties, numbered C1 and on in the theories, are: the address managers hand out
  what is free, only that, whenever there is room, and runs of requests keep ranges apart and lose nothing
  (C1 to C6, C10 to C12); buffer objects live exactly as long as their references (C7, C13 to C15);
  submissions pass on fences, semaphores and dependencies while the contexts that signalled them live
  (\<open>submit_reads_freed_context\<close> says what happens otherwise), freeing a context releases what waits on it
  or reads a freed semaphore, and synchronisation objects are not leaked (C8, C9, C16 to C19); devices are counted, concurrent callers included (C20 to C22); queries fill typed
  records and the id file is looked up by device and revision (C23 to C25); handle tables, lists and CPU
  mappings behave as maps and lists (C26 to C32); the generic calls, the stub behind them, enumeration,
  dumps and traces (C34 to C40). Several state where the code does not do what it means to: these carry
  the exact condition.

  \<^bold>\<open>Bounds.\<close> Requests whose rounding would leave 64 bits are excluded by hypotheses
  (\<open>va_request_ok\<close>, \<open>range_request_ok\<close>); what happens beyond them has theorems of its own (C33 and
  others). Counters of references stay below 2^31, nested CPU mappings below 2^63. Handles are assumed not to exhaust 32 bits where freshness is claimed.

  \<^bold>\<open>Not modelled.\<close> \<open>headers/drm_mode.h\<close> and the unused parts of the other headers: declarations without
  code. \<open>amdgpu/xf86atomic.h\<close>: no file includes it. Visibility and mmap macros, \<open>ScopeExit.h\<close>, loading of accelerants,
  the opening of the poke driver, messages on stderr (those about the file of ids, in \<open>AsicId\<close>, are values) and the key the stub waits for after an unknown
  call.
\<close>

end
